(* ===== verification/Prelude.thy ===== *)
theory Prelude
  imports Main "HOL-Library.Word"
begin

text \<open>
  What every component of the worker's model shares: the type synonyms of the machine
  integers, the wrap-around of Rust's signed arithmetic in a release build, the
  result-and-state type in which fallible operations are written, with the rules that
  carry invariants through it, and lemmas on association lists and on \<open>find\<close> that
  the table operations use.

  An operation that may fail and changes state is a function from a state to a sum
  (\<open>Inl\<close> the error, \<open>Inr\<close> the value) and the next state. \<open>and_then\<close> is the \<open>?\<close>
  operator of the source, \<open>attempt\<close> is a call whose result is matched on (or dropped
  with \<open>let _ =\<close>) instead of being propagated.
\<close>

named_theorems run_simps "forward execution of a primitive operation"
named_theorems seq_simps "forward execution of a sequence"
named_theorems inv_simps "from the outcome of an operation back to the outcomes of its parts"
named_theorems keeps_rules "an operation keeps an invariant, whatever its result"

type_synonym u8 = "8 word"
type_synonym u16 = "16 word"
type_synonym ('s, 'e, 'a) rm = "'s \<Rightarrow> ('e + 'a) \<times> 's"

subsection \<open>Signed machine integers\<close>

text \<open>
  A Rust \<open>i64\<close> or \<open>i32\<close> is an \<open>int\<close> within its range. The worker is built with
  \<open>cargo build --release\<close>, where signed overflow wraps around: \<open>wrap64\<close> is applied
  where the source computes.
\<close>

definition wrap64 :: "int \<Rightarrow> int" where
  "wrap64 x = (x + 2 ^ 63) mod 2 ^ 64 - 2 ^ 63"

definition in_i64 :: "int \<Rightarrow> bool" where
  "in_i64 x \<longleftrightarrow> - (2 ^ 63) \<le> x \<and> x < 2 ^ 63"

definition in_i32 :: "int \<Rightarrow> bool" where
  "in_i32 x \<longleftrightarrow> - (2 ^ 31) \<le> x \<and> x < 2 ^ 31"

lemma wrap64_id [simp]: "in_i64 x \<Longrightarrow> wrap64 x = x"
  by (simp add: in_i64_def wrap64_def)

lemma in_i64_wrap64 [simp]: "in_i64 (wrap64 x)"
proof -
  have "0 \<le> (x + 2 ^ 63) mod 2 ^ 64" and "(x + 2 ^ 63) mod 2 ^ 64 < 2 ^ 64"
    by simp_all
  then show ?thesis
    by (simp add: in_i64_def wrap64_def)
qed

lemma in_i32_in_i64: "in_i32 x \<Longrightarrow> in_i64 x"
  by (simp add: in_i32_def in_i64_def)

text \<open>The cast \<open>x as u16\<close> of a signed integer keeps the low sixteen bits.\<close>

definition as_u16 :: "int \<Rightarrow> u16" where
  "as_u16 x = word_of_int x"

lemma unat_as_u16: "0 \<le> x \<Longrightarrow> x < 65536 \<Longrightarrow> unat (as_u16 x) = nat x"
  by (simp add: as_u16_def unat_eq_nat_uint take_bit_int_eq_self uint_word_of_int)

lemma as_u16_inject:
  "0 \<le> x \<Longrightarrow> x < 65536 \<Longrightarrow> 0 \<le> y \<Longrightarrow> y < 65536 \<Longrightarrow> as_u16 x = as_u16 y \<longleftrightarrow> x = y"
  by (metis eq_nat_nat_iff unat_as_u16)

subsection \<open>Operations with a result and a state\<close>

definition ok :: "'a \<Rightarrow> ('s, 'e, 'a) rm" where
  "ok x = (\<lambda>s. (Inr x, s))"

definition err :: "'e \<Rightarrow> ('s, 'e, 'a) rm" where
  "err e = (\<lambda>s. (Inl e, s))"

definition and_then :: "('s, 'e, 'a) rm \<Rightarrow> ('a \<Rightarrow> ('s, 'e, 'b) rm) \<Rightarrow> ('s, 'e, 'b) rm" where
  "and_then m k = (\<lambda>s. case m s of (Inl e, t) \<Rightarrow> (Inl e, t) | (Inr x, t) \<Rightarrow> k x t)"

definition attempt :: "('s, 'e, 'a) rm \<Rightarrow> ('s, 'f, 'e + 'a) rm" where
  "attempt m = (\<lambda>s. case m s of (r, t) \<Rightarrow> (Inr r, t))"

definition map_err :: "('e \<Rightarrow> 'f) \<Rightarrow> ('s, 'e, 'a) rm \<Rightarrow> ('s, 'f, 'a) rm" where
  "map_err f m = (\<lambda>s. case m s of (Inl e, t) \<Rightarrow> (Inl (f e), t) | (Inr x, t) \<Rightarrow> (Inr x, t))"

definition gets :: "('s \<Rightarrow> 'a) \<Rightarrow> ('s, 'e, 'a) rm" where
  "gets f = (\<lambda>s. (Inr (f s), s))"

definition modify :: "('s \<Rightarrow> 's) \<Rightarrow> ('s, 'e, unit) rm" where
  "modify f = (\<lambda>s. (Inr (), f s))"

text \<open>\<open>ok_or\<close> is Rust's \<open>ok_or_else(\<dots>)?\<close> on an option, \<open>of_result\<close> a pure \<open>Result\<close> with \<open>?\<close>.\<close>

definition ok_or :: "'e \<Rightarrow> 'a option \<Rightarrow> ('s, 'e, 'a) rm" where
  "ok_or e x = (case x of None \<Rightarrow> err e | Some v \<Rightarrow> ok v)"

definition of_result :: "'e + 'a \<Rightarrow> ('s, 'e, 'a) rm" where
  "of_result r = (\<lambda>s. (r, s))"

text \<open>A \<open>for\<close> loop whose body is an operation; the first error ends it.\<close>

fun for_each :: "('x \<Rightarrow> ('s, 'e, unit) rm) \<Rightarrow> 'x list \<Rightarrow> ('s, 'e, unit) rm" where
  "for_each f [] = ok ()"
| "for_each f (x # xs) = and_then (f x) (\<lambda>_. for_each f xs)"

lemma run_ok [run_simps, inv_simps]: "ok x s = (Inr x, s)"
  by (simp add: ok_def)

lemma run_err [run_simps, inv_simps]: "err e s = (Inl e, s)"
  by (simp add: err_def)

lemma run_and_then [seq_simps]:
  "and_then m k s = (case m s of (Inl e, t) \<Rightarrow> (Inl e, t) | (Inr x, t) \<Rightarrow> k x t)"
  by (simp add: and_then_def)

lemma run_attempt [run_simps]: "attempt m s = (Inr (fst (m s)), snd (m s))"
  by (simp add: attempt_def split: prod.split)

lemma run_map_err [seq_simps]:
  "map_err f m s = (case m s of (Inl e, t) \<Rightarrow> (Inl (f e), t) | (Inr x, t) \<Rightarrow> (Inr x, t))"
  by (simp add: map_err_def)

lemma run_gets [run_simps, inv_simps]: "gets f s = (Inr (f s), s)"
  by (simp add: gets_def)

lemma run_modify [run_simps, inv_simps]: "modify f s = (Inr (), f s)"
  by (simp add: modify_def)

lemma run_of_result [run_simps, inv_simps]: "of_result r s = (r, s)"
  by (simp add: of_result_def)

lemma and_then_Inr [inv_simps]:
  "and_then m k s = (Inr y, t) \<longleftrightarrow> (\<exists>x u. m s = (Inr x, u) \<and> k x u = (Inr y, t))"
  by (auto simp: and_then_def split: prod.splits sum.splits)

lemma and_then_Inl [inv_simps]:
  "and_then m k s = (Inl e, t) \<longleftrightarrow>
     m s = (Inl e, t) \<or> (\<exists>x u. m s = (Inr x, u) \<and> k x u = (Inl e, t))"
  by (auto simp: and_then_def split: prod.splits sum.splits)

lemma attempt_Inr [inv_simps]: "attempt m s = (Inr r, t) \<longleftrightarrow> m s = (r, t)"
  by (cases "m s") (auto simp: attempt_def)

lemma attempt_Inl [inv_simps]: "attempt m s \<noteq> (Inl e, t)"
  by (cases "m s") (auto simp: attempt_def)

lemma map_err_Inr [inv_simps]: "map_err f m s = (Inr x, t) \<longleftrightarrow> m s = (Inr x, t)"
  by (auto simp: map_err_def split: prod.splits sum.splits)

lemma map_err_Inl [inv_simps]: "map_err f m s = (Inl e, t) \<longleftrightarrow> (\<exists>d. m s = (Inl d, t) \<and> e = f d)"
  by (auto simp: map_err_def split: prod.splits sum.splits)

lemma ok_or_Inr [inv_simps]: "ok_or e x s = (Inr y, t) \<longleftrightarrow> x = Some y \<and> t = s"
  by (auto simp: ok_or_def ok_def err_def split: option.splits)

lemma ok_or_Inl [inv_simps]: "ok_or e x s = (Inl d, t) \<longleftrightarrow> x = None \<and> d = e \<and> t = s"
  by (auto simp: ok_or_def ok_def err_def split: option.splits)

subsection \<open>Invariants carried through operations\<close>

text \<open>
  \<open>keeps I m\<close>: from a state with \<open>I\<close>, the operation \<open>m\<close> ends in a state with \<open>I\<close>, on
  success and on every error. The rules follow the shape of an operation, so that an
  invariant of a composite operation follows from that of its statements.
\<close>

definition keeps :: "('s \<Rightarrow> bool) \<Rightarrow> ('s, 'e, 'a) rm \<Rightarrow> bool" where
  "keeps I m \<longleftrightarrow> (\<forall>s. I s \<longrightarrow> I (snd (m s)))"

lemma keepsI: "(\<And>s. I s \<Longrightarrow> I (snd (m s))) \<Longrightarrow> keeps I m"
  by (simp add: keeps_def)

lemma keepsD: "keeps I m \<Longrightarrow> I s \<Longrightarrow> I (snd (m s))"
  by (simp add: keeps_def)

lemma keeps_ok [keeps_rules]: "keeps I (ok x)"
  by (simp add: keeps_def run_simps seq_simps)

lemma keeps_err [keeps_rules]: "keeps I (err e)"
  by (simp add: keeps_def run_simps seq_simps)

lemma keeps_gets [keeps_rules]: "keeps I (gets f)"
  by (simp add: keeps_def run_simps seq_simps)

lemma keeps_of_result [keeps_rules]: "keeps I (of_result r)"
  by (simp add: keeps_def run_simps seq_simps)

lemma keeps_ok_or [keeps_rules]: "keeps I (ok_or e x)"
  by (simp add: keeps_def ok_or_def run_simps seq_simps split: option.split)

lemma keeps_and_then [keeps_rules]:
  assumes "keeps I m" and "\<And>x. keeps I (k x)"
  shows "keeps I (and_then m k)"
proof (rule keepsI)
  fix s
  assume "I s"
  then have "I (snd (m s))" by (rule keepsD [OF assms(1)])
  then show "I (snd (and_then m k s))"
    using keepsD [OF assms(2)] by (auto simp: run_simps seq_simps split: prod.splits sum.splits)
qed

lemma keeps_attempt [keeps_rules]: "keeps I m \<Longrightarrow> keeps I (attempt m)"
  by (simp add: keeps_def run_simps seq_simps)

lemma keeps_map_err [keeps_rules]: "keeps I m \<Longrightarrow> keeps I (map_err f m)"
  by (fastforce simp: keeps_def run_simps seq_simps split: prod.splits sum.splits)

lemma keeps_if [keeps_rules]:
  "(b \<Longrightarrow> keeps I m) \<Longrightarrow> (\<not> b \<Longrightarrow> keeps I n) \<Longrightarrow> keeps I (if b then m else n)"
  by simp

lemma keeps_case_option [keeps_rules]:
  "keeps I m \<Longrightarrow> (\<And>x. keeps I (k x)) \<Longrightarrow> keeps I (case z of None \<Rightarrow> m | Some x \<Rightarrow> k x)"
  by (simp split: option.split)

lemma keeps_case_sum [keeps_rules]:
  "(\<And>e. keeps I (h e)) \<Longrightarrow> (\<And>x. keeps I (k x)) \<Longrightarrow>
   keeps I (case z of Inl e \<Rightarrow> h e | Inr x \<Rightarrow> k x)"
  by (simp split: sum.split)

lemma keeps_case_prod [keeps_rules]:
  "(\<And>x y. keeps I (k x y)) \<Longrightarrow> keeps I (case z of (x, y) \<Rightarrow> k x y)"
  by (simp split: prod.split)

lemma keeps_for_each [keeps_rules]: "(\<And>x. keeps I (f x)) \<Longrightarrow> keeps I (for_each f xs)"
  by (induction xs) (auto intro!: keeps_rules)

subsection \<open>Lists\<close>

lemma find_cong_filter: "find P xs = (case filter P xs of [] \<Rightarrow> None | y # _ \<Rightarrow> Some y)"
  by (induction xs) auto

lemma find_SomeD: "find P xs = Some x \<Longrightarrow> x \<in> set xs \<and> P x"
  by (induction xs) (auto split: if_splits)

lemma find_distinct_key:
  assumes "distinct (map f xs)" and "x \<in> set xs"
  shows "find (\<lambda>y. f y = f x) xs = Some x"
  using assms by (induction xs) (auto simp: rev_image_eqI)

lemma distinct_key_eq:
  assumes "distinct (map f xs)" and "x \<in> set xs" and "y \<in> set xs" and "f x = f y"
  shows "x = y"
  using assms by (metis find_distinct_key option.inject)

text \<open>\<open>xs.iter().find(\<dots>)\<close> on an increasing range of integers yields the least hit.\<close>

lemma find_upto_Some:
  "find P [i..j] = Some k \<longleftrightarrow> i \<le> k \<and> k \<le> j \<and> P k \<and> (\<forall>l. i \<le> l \<and> l < k \<longrightarrow> \<not> P l)"
proof (induction i j rule: upto.induct)
  case (1 i j)
  show ?case
  proof (cases "i \<le> j")
    case True
    show ?thesis
    proof (cases "P i")
      case True
      with \<open>i \<le> j\<close> show ?thesis
        by (auto simp: upto_rec1 dest: spec [of _ i])
    next
      case False
      have le: "i \<le> l \<longleftrightarrow> l = i \<or> i + 1 \<le> l" for l
        by arith
      have "find P [i..j] = find P [i + 1..j]"
        using False \<open>i \<le> j\<close> by (simp add: upto_rec1)
      then show ?thesis
        using 1 \<open>i \<le> j\<close> False by (simp add: le) blast
    qed
  next
    case False
    then show ?thesis by auto
  qed
qed

lemma find_upto_None: "find P [i..j] = None \<longleftrightarrow> (\<forall>k. i \<le> k \<and> k \<le> j \<longrightarrow> \<not> P k)"
  by (auto simp: find_None_iff)

subsection \<open>Tables as lists of rows with a key\<close>

text \<open>\<open>key_map k v rows\<close> is the abstract content of a table: from the key of a row to the column \<open>v\<close>.\<close>

definition key_map :: "('r \<Rightarrow> 'k) \<Rightarrow> ('r \<Rightarrow> 'v) \<Rightarrow> 'r list \<Rightarrow> 'k \<rightharpoonup> 'v" where
  "key_map k v rows = map_of (map (\<lambda>r. (k r, v r)) rows)"

lemma key_map_Nil [simp]: "key_map k v [] = Map.empty"
  by (simp add: key_map_def)

lemma key_map_Cons [simp]: "key_map k v (r # rows) = (key_map k v rows)(k r \<mapsto> v r)"
  by (simp add: key_map_def)

lemma key_map_None: "key_map k v rows i = None \<longleftrightarrow> i \<notin> set (map k rows)"
  by (induction rows) auto

lemma dom_key_map: "dom (key_map k v rows) = set (map k rows)"
proof -
  have "i \<in> dom (key_map k v rows) \<longleftrightarrow> i \<in> set (map k rows)" for i
    unfolding domIff using key_map_None [of k v rows i] by simp
  then show ?thesis by blast
qed

lemma key_map_find: "key_map k v rows i = map_option v (find (\<lambda>r. k r = i) rows)"
  by (induction rows) auto

lemma key_map_SomeD: "key_map k v rows i = Some e \<Longrightarrow> \<exists>r \<in> set rows. k r = i \<and> v r = e"
  by (auto simp: key_map_find dest: find_SomeD)

lemma key_map_row:
  "distinct (map k rows) \<Longrightarrow> r \<in> set rows \<Longrightarrow> key_map k v rows (k r) = Some (v r)"
  by (simp add: key_map_find find_distinct_key)

lemma key_map_append_new:
  "i \<notin> set (map k rows) \<Longrightarrow> k r = i \<Longrightarrow> key_map k v (rows @ [r]) = (key_map k v rows)(i \<mapsto> v r)"
  by (induction rows) (auto simp: fun_upd_twist)

lemma key_map_map:
  "(\<And>r. r \<in> set rows \<Longrightarrow> k (f r) = k r) \<Longrightarrow> key_map k v (map f rows) = key_map k (\<lambda>r. v (f r)) rows"
  by (induction rows) auto

lemma key_map_cong:
  "(\<And>r. r \<in> set rows \<Longrightarrow> v r = w r) \<Longrightarrow> key_map k v rows = key_map k w rows"
  by (induction rows) auto

text \<open>\<open>UPDATE \<dots> SET v = e WHERE k = i\<close>\<close>

lemma key_map_update:
  "key_map k (\<lambda>r. if k r = i then e else v r) rows =
     (if i \<in> set (map k rows) then (key_map k v rows)(i \<mapsto> e) else key_map k v rows)"
  by (induction rows) (auto simp: fun_upd_twist)

lemma key_map_update_if:
  assumes "distinct (map k rows)"
  shows "key_map k (\<lambda>r. if k r = i \<and> P (v r) then e else v r) rows =
     (case key_map k v rows i of
        Some x \<Rightarrow> if P x then (key_map k v rows)(i \<mapsto> e) else key_map k v rows
      | None \<Rightarrow> key_map k v rows)"
  using assms
proof (induction rows)
  case Nil
  then show ?case by simp
next
  case (Cons r rows)
  show ?case
  proof (cases "k r = i")
    case True
    with Cons.prems have "i \<notin> set (map k rows)" by auto
    then have "key_map k (\<lambda>r. if k r = i \<and> P (v r) then e else v r) rows = key_map k v rows"
      by (intro key_map_cong) auto
    with True show ?thesis by auto
  next
    case False
    with Cons show ?thesis by (auto simp: fun_upd_twist split: option.splits)
  qed
qed

text \<open>\<open>DELETE\<close> of the rows that do not satisfy \<open>P\<close>\<close>

lemma key_map_filter:
  assumes "distinct (map k rows)"
  shows "key_map k v (filter P rows) i =
    (case find (\<lambda>r. k r = i) rows of Some r \<Rightarrow> if P r then Some (v r) else None | None \<Rightarrow> None)"
  using assms
proof (induction rows)
  case Nil
  then show ?case by simp
next
  case (Cons r rows)
  have "find (\<lambda>r. k r = i) rows = None" if "k r = i"
    using Cons.prems that by (auto simp: find_None_iff) (metis imageI)
  with Cons show ?case by auto
qed

lemma key_map_filter_key:
  "key_map k v (filter (\<lambda>r. Q (k r)) rows) = (\<lambda>i. if Q i then key_map k v rows i else None)"
  by (induction rows) auto

lemma fold_map_upd:
  "fold (\<lambda>c m. m(k c \<mapsto> v c)) cs m = m ++ map_of (rev (map (\<lambda>c. (k c, v c)) cs))"
  by (induction cs arbitrary: m) (auto simp: map_add_def fun_eq_iff split: option.splits)

lemma filter_count_key:
  assumes "distinct (map k rows)"
  shows "length (filter (\<lambda>r. k r = i \<and> P (v r)) rows) = 0 \<longleftrightarrow>
    (\<forall>x. key_map k v rows i = Some x \<longrightarrow> \<not> P x)"
  using key_map_row [OF assms] key_map_SomeD [of k v rows i]
  by (fastforce simp: filter_empty_conv)

end
