(* ===== verification/Rust_Str.thy ===== *)
theory Rust_Str
  imports Prelude "HOL-Library.Sublist"
begin

text \<open>
  The parts of Rust's \<open>str\<close>, \<open>String\<close> and integer parsing that the worker calls. A
  \<open>string\<close> is the UTF-8 byte sequence of a Rust string, so \<open>length\<close> is \<open>str::len\<close>.
  Splitting, joining, stripping and integer conversion are the standard library's, with
  the round trips (\<open>split\<close> after \<open>join\<close>, \<open>parse\<close> after \<open>to_string\<close>) that the components
  rely on.
\<close>

named_theorems str_simps "conversions and round trips on strings"

definition LF :: char where "LF = CHR 0x0A"
definition CR :: char where "CR = CHR 0x0D"
definition NL :: string where "NL = [LF]"
definition CRLF :: string where "CRLF = [CR, LF]"

subsection \<open>Prefixes and suffixes\<close>

text \<open>\<open>str::strip_prefix\<close>, \<open>str::starts_with\<close>, \<open>str::ends_with\<close>, \<open>str::contains\<close>.\<close>

fun strip_prefix :: "string \<Rightarrow> string \<Rightarrow> string option" where
  "strip_prefix [] s = Some s"
| "strip_prefix (p # ps) [] = None"
| "strip_prefix (p # ps) (c # cs) = (if p = c then strip_prefix ps cs else None)"

definition starts_with :: "string \<Rightarrow> string \<Rightarrow> bool" where
  "starts_with p s \<longleftrightarrow> strip_prefix p s \<noteq> None"

definition ends_with :: "string \<Rightarrow> string \<Rightarrow> bool" where
  "ends_with p s \<longleftrightarrow> starts_with (rev p) (rev s)"

fun contains_str :: "string \<Rightarrow> string \<Rightarrow> bool" where
  "contains_str p [] = (p = [])"
| "contains_str p (c # cs) = (starts_with p (c # cs) \<or> contains_str p cs)"

lemma strip_prefix_Some [str_simps]: "strip_prefix p s = Some t \<longleftrightarrow> s = p @ t"
  by (induction p s rule: strip_prefix.induct) auto

lemma strip_prefix_append [simp]: "strip_prefix p (p @ t) = Some t"
  by (simp add: strip_prefix_Some)

lemma starts_with_iff [str_simps]: "starts_with p s \<longleftrightarrow> (\<exists>t. s = p @ t)"
  by (cases "strip_prefix p s") (auto simp: starts_with_def strip_prefix_Some)

lemma ends_with_iff [str_simps]: "ends_with p s \<longleftrightarrow> (\<exists>t. s = t @ p)"
  by (metis ends_with_def rev_append rev_rev_ident starts_with_iff)

lemma starts_with_append [simp]: "starts_with p (p @ t)"
  by (simp add: starts_with_iff)

subsection \<open>Splitting and joining\<close>

text \<open>\<open>str::split(char)\<close> always yields at least one piece, \<open>[String]::join\<close> glues them back.\<close>

fun split_char :: "char \<Rightarrow> string \<Rightarrow> string list" where
  "split_char c [] = [[]]"
| "split_char c (x # xs) =
     (if x = c then [] # split_char c xs
      else (case split_char c xs of [] \<Rightarrow> [[x]] | y # ys \<Rightarrow> (x # y) # ys))"

fun join_str :: "string \<Rightarrow> string list \<Rightarrow> string" where
  "join_str sep [] = []"
| "join_str sep [x] = x"
| "join_str sep (x # y # zs) = x @ sep @ join_str sep (y # zs)"

text \<open>\<open>str::split_once(char)\<close>.\<close>

fun split_once :: "char \<Rightarrow> string \<Rightarrow> (string \<times> string) option" where
  "split_once c [] = None"
| "split_once c (x # xs) =
     (if x = c then Some ([], xs) else map_option (\<lambda>(a, b). (x # a, b)) (split_once c xs))"

text \<open>\<open>s.split(pat).nth(1)\<close> for a string pattern: what lies between the first and the second occurrence.\<close>

fun before_str :: "string \<Rightarrow> string \<Rightarrow> string" where
  "before_str p [] = []"
| "before_str p (c # cs) = (if starts_with p (c # cs) then [] else c # before_str p cs)"

fun after_str :: "string \<Rightarrow> string \<Rightarrow> string option" where
  "after_str p [] = (if p = [] then Some [] else None)"
| "after_str p (c # cs) =
     (case strip_prefix p (c # cs) of Some t \<Rightarrow> Some t | None \<Rightarrow> after_str p cs)"

definition split_str_nth1 :: "string \<Rightarrow> string \<Rightarrow> string option" where
  "split_str_nth1 p s = map_option (before_str p) (after_str p s)"

lemma split_char_neq_Nil [simp]: "split_char c s \<noteq> []"
  by (induction s) (auto split: list.split)

lemma split_char_no_sep: "c \<notin> set s \<Longrightarrow> split_char c s = [s]"
  by (induction s) auto

lemma split_char_append_sep:
  "c \<notin> set s \<Longrightarrow> split_char c (s @ c # t) = s # split_char c t"
  by (induction s) (auto split: list.split)

lemma join_split [str_simps]: "join_str [c] (split_char c s) = s"
proof (induction s)
  case Nil
  then show ?case by simp
next
  case (Cons x xs)
  obtain y ys where ys: "split_char c xs = y # ys"
    using split_char_neq_Nil [of c xs] by (cases "split_char c xs") auto
  with Cons.IH show ?case
    by (cases ys) auto
qed

lemma split_join [str_simps]:
  assumes "xs \<noteq> []" and "\<forall>x \<in> set xs. c \<notin> set x"
  shows "split_char c (join_str [c] xs) = xs"
  using assms
proof (induction "[c]" xs rule: join_str.induct)
  case 1
  then show ?case by simp
next
  case (2 x)
  then show ?case by (simp add: split_char_no_sep)
next
  case (3 x y zs)
  then show ?case by (simp add: split_char_append_sep)
qed

lemma split_char_parts: "x \<in> set (split_char c s) \<Longrightarrow> c \<notin> set x"
  by (induction s arbitrary: x) (auto split: if_splits list.splits)

lemma split_once_Some [str_simps]:
  "split_once c s = Some (a, b) \<longleftrightarrow> s = a @ c # b \<and> c \<notin> set a"
proof (induction s arbitrary: a)
  case Nil
  then show ?case by simp
next
  case (Cons x xs)
  then show ?case
    by (cases a; cases "split_once c xs") auto
qed

lemma split_once_None: "split_once c s = None \<longleftrightarrow> c \<notin> set s"
  by (induction s) auto

subsection \<open>Lines\<close>

text \<open>
  \<open>str::lines\<close>: split after each line feed, drop the line feed and one carriage return
  before it; a final piece with no line feed is kept as it is, and an empty one is no line.
\<close>

fun split_incl :: "string \<Rightarrow> string list" where
  "split_incl [] = []"
| "split_incl (x # xs) =
     (if x = LF then [x] # split_incl xs
      else (case split_incl xs of [] \<Rightarrow> [[x]] | y # ys \<Rightarrow> (x # y) # ys))"

definition strip_eol :: "string \<Rightarrow> string" where
  "strip_eol l =
     (if l \<noteq> [] \<and> last l = LF
      then (let m = butlast l in if m \<noteq> [] \<and> last m = CR then butlast m else m)
      else l)"

definition lines :: "string \<Rightarrow> string list" where
  "lines s = map strip_eol (split_incl s)"

definition plain_line :: "string \<Rightarrow> bool" where
  "plain_line l \<longleftrightarrow> LF \<notin> set l \<and> (l \<noteq> [] \<longrightarrow> last l \<noteq> CR)"

lemma split_incl_append_LF:
  "LF \<notin> set l \<Longrightarrow> split_incl (l @ LF # t) = (l @ [LF]) # split_incl t"
  by (induction l) auto

lemma split_incl_no_LF: "LF \<notin> set l \<Longrightarrow> split_incl l = (if l = [] then [] else [l])"
  by (induction l) (auto split: if_splits)

lemma strip_eol_LF: "plain_line l \<Longrightarrow> strip_eol (l @ [LF]) = l"
  by (auto simp: strip_eol_def plain_line_def)

lemma strip_eol_plain: "LF \<notin> set l \<Longrightarrow> strip_eol l = l"
  using last_in_set by (fastforce simp: strip_eol_def)

lemma lines_append_LF: "plain_line l \<Longrightarrow> lines (l @ LF # t) = l # lines t"
  by (simp add: lines_def split_incl_append_LF strip_eol_LF plain_line_def)

lemma lines_single: "LF \<notin> set l \<Longrightarrow> lines l = (if l = [] then [] else [l])"
  by (simp add: lines_def split_incl_no_LF strip_eol_plain)

lemma lines_append_CRLF: "LF \<notin> set l \<Longrightarrow> lines (l @ CRLF @ t) = l # lines t"
  using split_incl_append_LF [of "l @ [CR]" t]
  by (simp add: lines_def CRLF_def strip_eol_def CR_def LF_def butlast_append)

text \<open>Joining lines with line feeds and reading them again loses at most an empty last line.\<close>

lemma lines_join:
  assumes "\<forall>l \<in> set ls. plain_line l"
  shows "lines (join_str NL ls) = (if ls \<noteq> [] \<and> last ls = [] then butlast ls else ls)"
  using assms
proof (induction NL ls rule: join_str.induct)
  case 1
  then show ?case by (simp add: lines_def)
next
  case (2 x)
  then show ?case by (simp add: lines_single plain_line_def)
next
  case (3 x y zs)
  then show ?case by (simp add: NL_def lines_append_LF)
qed

lemma lines_join_NL:
  assumes "\<forall>l \<in> set ls. plain_line l" and "ls \<noteq> []"
  shows "lines (join_str NL ls @ NL) = ls"
  using assms
proof (induction NL ls rule: join_str.induct)
  case 1
  then show ?case by simp
next
  case (2 x)
  then show ?case using lines_append_LF [of x "[]"] by (simp add: NL_def lines_def)
next
  case (3 x y zs)
  then show ?case by (simp add: NL_def lines_append_LF)
qed

lemma split_incl_no_inner_LF: "p \<in> set (split_incl s) \<Longrightarrow> LF \<notin> set (butlast p) \<and> p \<noteq> []"
  by (induction s arbitrary: p) (auto split: if_splits list.splits)

lemma lines_no_LF: "l \<in> set (lines s) \<Longrightarrow> LF \<notin> set l"
proof -
  assume "l \<in> set (lines s)"
  then obtain p where p: "p \<in> set (split_incl s)" and l: "l = strip_eol p"
    by (auto simp: lines_def)
  have "LF \<notin> set (butlast p)" and "p \<noteq> []"
    using split_incl_no_inner_LF [OF p] by auto
  moreover have "set p = insert (last p) (set (butlast p))"
    using \<open>p \<noteq> []\<close> by (metis append_butlast_last_id list.set(1) list.simps(15) set_append Un_insert_right sup_bot_right)
  ultimately show ?thesis
    using l by (auto simp: strip_eol_def Let_def dest: in_set_butlastD)
qed

end
