(* ===== verification/Rust_Num.thy ===== *)
theory Rust_Num
  imports Rust_Str
begin

text \<open>
  Decimal conversion as the standard library does it: \<open>to_string\<close> of integers,
  \<open>parse::<i32>\<close>, \<open>parse::<i64>\<close>, \<open>parse::<u32>\<close>, and the textual form of an IPv4
  address with its parser. The round trips are what lets a client send back the numbers
  it was given in response headers.
\<close>

subsection \<open>Digits and naturals\<close>

definition digit_char :: "nat \<Rightarrow> char" where
  "digit_char n = char_of (48 + n)"

definition digit_val :: "char \<Rightarrow> nat option" where
  "digit_val c = (let n = (of_char c :: nat) in if 48 \<le> n \<and> n \<le> 57 then Some (n - 48) else None)"

lemma digit_val_char [simp]: "d < 10 \<Longrightarrow> digit_val (digit_char d) = Some d"
  by (simp add: digit_val_def digit_char_def)

lemma digit_char_0: "digit_char 0 = CHR ''0''"
  by (simp add: digit_char_def char_of_def bit_simps)

fun show_nat :: "nat \<Rightarrow> string" where
  "show_nat n = (if n < 10 then [digit_char n] else show_nat (n div 10) @ [digit_char (n mod 10)])"

declare show_nat.simps [simp del]

fun parse_acc :: "nat \<Rightarrow> string \<Rightarrow> nat option" where
  "parse_acc a [] = Some a"
| "parse_acc a (c # cs) =
     (case digit_val c of None \<Rightarrow> None | Some d \<Rightarrow> parse_acc (10 * a + d) cs)"

definition parse_nat :: "string \<Rightarrow> nat option" where
  "parse_nat s = (if s = [] then None else parse_acc 0 s)"

lemma parse_acc_append:
  "parse_acc a (s @ t) = (case parse_acc a s of None \<Rightarrow> None | Some b \<Rightarrow> parse_acc b t)"
  by (induction s arbitrary: a) (auto split: option.split)

lemma parse_acc_show_nat: "parse_acc 0 (show_nat n) = Some n"
proof (induction n rule: show_nat.induct)
  case (1 n)
  then show ?case
    by (subst show_nat.simps) (auto simp: parse_acc_append)
qed

lemma show_nat_neq_Nil [simp]: "show_nat n \<noteq> []"
  by (subst show_nat.simps) simp

lemma parse_nat_show_nat [simp]: "parse_nat (show_nat n) = Some n"
  by (simp add: parse_nat_def parse_acc_show_nat)

lemma show_nat_inject [simp]: "show_nat m = show_nat n \<longleftrightarrow> m = n"
  by (metis option.inject parse_nat_show_nat)

definition is_digit :: "char \<Rightarrow> bool" where
  "is_digit c \<longleftrightarrow> 48 \<le> (of_char c :: nat) \<and> (of_char c :: nat) \<le> 57"

lemma is_digit_digit_char [simp]: "d < 10 \<Longrightarrow> is_digit (digit_char d)"
  by (simp add: is_digit_def digit_char_def)

lemma digit_val_iff: "(digit_val c = None) \<longleftrightarrow> \<not> is_digit c"
  by (simp add: digit_val_def is_digit_def Let_def)

lemma show_nat_digits: "c \<in> set (show_nat n) \<Longrightarrow> is_digit c"
proof (induction n rule: show_nat.induct)
  case (1 n)
  then show ?case
    by (subst (asm) show_nat.simps) (auto split: if_splits)
qed

lemma show_nat_length: "0 < k \<Longrightarrow> n < 10 ^ k \<Longrightarrow> length (show_nat n) \<le> k"
proof (induction n arbitrary: k rule: show_nat.induct)
  case (1 n)
  show ?case
  proof (cases "n < 10")
    case True
    then show ?thesis using 1 by (subst show_nat.simps) simp
  next
    case False
    from "1.prems" False obtain j where k: "k = Suc j" and j: "0 < j"
      by (cases k; cases "k - 1") auto
    have "n div 10 < 10 ^ j"
      using "1.prems"(2) k by (simp add: less_mult_imp_div_less mult.commute)
    then have "length (show_nat (n div 10)) \<le> j"
      by (rule "1.IH" [OF False j])
    with False k show ?thesis
      by (subst show_nat.simps) simp
  qed
qed

text \<open>No leading zero: the first digit of a number of two or more digits is not \<open>0\<close>.\<close>

lemma show_nat_hd: "10 \<le> n \<Longrightarrow> hd (show_nat n) \<noteq> digit_char 0"
proof (induction n rule: show_nat.induct)
  case (1 n)
  show ?case
  proof (cases "n div 10 < 10")
    case True
    with "1.prems" have d: "0 < n div 10" by simp
    have "digit_char (n div 10) \<noteq> digit_char 0"
      using digit_val_char [OF True] digit_val_char [of 0] d by (metis option.inject less_numeral_extra(3) zero_less_numeral)
    with True "1.prems" show ?thesis
      by (subst show_nat.simps) (simp add: show_nat.simps [of "n div 10"])
  next
    case False
    with 1 show ?thesis
      by (subst show_nat.simps) simp
  qed
qed

subsection \<open>Signed integers\<close>

definition show_int :: "int \<Rightarrow> string" where
  "show_int i = (if i < 0 then CHR ''-'' # show_nat (nat (- i)) else show_nat (nat i))"

text \<open>
  \<open>from_str_radix\<close> for a signed type: an optional sign, at least one digit, and the value in
  range; anything else is an error.
\<close>

definition parse_signed :: "int \<Rightarrow> int \<Rightarrow> string \<Rightarrow> int option" where
  "parse_signed lo hi s =
     (let v = (case s of
                 [] \<Rightarrow> None
               | c # cs \<Rightarrow>
                   if c = CHR ''-'' then map_option (\<lambda>n. - int n) (parse_nat cs)
                   else if c = CHR ''+'' then map_option int (parse_nat cs)
                   else map_option int (parse_nat s))
      in case v of Some x \<Rightarrow> if lo \<le> x \<and> x \<le> hi then Some x else None | None \<Rightarrow> None)"

definition parse_i64 :: "string \<Rightarrow> int option" where
  "parse_i64 s = parse_signed (- (2 ^ 63)) (2 ^ 63 - 1) s"

definition parse_i32 :: "string \<Rightarrow> int option" where
  "parse_i32 s = parse_signed (- (2 ^ 31)) (2 ^ 31 - 1) s"

text \<open>For an unsigned type a leading \<open>-\<close> is no digit.\<close>

definition parse_u32 :: "string \<Rightarrow> nat option" where
  "parse_u32 s =
     (let t = (case s of [] \<Rightarrow> [] | c # cs \<Rightarrow> if c = CHR ''+'' then cs else s)
      in case parse_nat t of Some n \<Rightarrow> if n < 2 ^ 32 then Some n else None | None \<Rightarrow> None)"

lemma show_nat_first:
  assumes "show_nat n = c # cs"
  shows "c \<noteq> CHR ''-'' \<and> c \<noteq> CHR ''+''"
proof -
  have "is_digit c" using assms show_nat_digits [of c n] by simp
  then show ?thesis by (auto simp: is_digit_def)
qed

lemma parse_signed_show_int:
  assumes "lo \<le> i" and "i \<le> hi"
  shows "parse_signed lo hi (show_int i) = Some i"
proof (cases "i < 0")
  case True
  with assms show ?thesis by (simp add: parse_signed_def show_int_def)
next
  case False
  obtain c cs where c: "show_nat (nat i) = c # cs"
    by (cases "show_nat (nat i)") auto
  with show_nat_first [OF c] False assms parse_nat_show_nat [of "nat i"] show ?thesis
    by (simp add: parse_signed_def show_int_def)
qed

lemma parse_i64_show_int [str_simps]: "in_i64 i \<Longrightarrow> parse_i64 (show_int i) = Some i"
  by (simp add: parse_i64_def parse_signed_show_int in_i64_def)

lemma parse_i32_show_int [str_simps]: "in_i32 i \<Longrightarrow> parse_i32 (show_int i) = Some i"
  by (simp add: parse_i32_def parse_signed_show_int in_i32_def)

lemma parse_i64_range: "parse_i64 s = Some i \<Longrightarrow> in_i64 i"
  by (auto simp: parse_i64_def parse_signed_def in_i64_def Let_def split: option.splits if_splits)

lemma parse_i32_range: "parse_i32 s = Some i \<Longrightarrow> in_i32 i"
  by (auto simp: parse_i32_def parse_signed_def in_i32_def Let_def split: option.splits if_splits)

lemma parse_u32_show_nat: "n < 2 ^ 32 \<Longrightarrow> parse_u32 (show_nat n) = Some n"
proof -
  assume n: "n < 2 ^ 32"
  obtain c cs where c: "show_nat n = c # cs"
    by (cases "show_nat n") auto
  with show_nat_first [OF c] n parse_nat_show_nat [of n] show ?thesis
    by (simp add: parse_u32_def)
qed

subsection \<open>IPv4 addresses\<close>

text \<open>\<open>std::net::Ipv4Addr\<close>: four octets, \<open>Display\<close> and \<open>FromStr\<close> (no leading zero, at most three digits).\<close>

datatype ipv4 = Ipv4 (oct0: u8) (oct1: u8) (oct2: u8) (oct3: u8)

definition show_ipv4 :: "ipv4 \<Rightarrow> string" where
  "show_ipv4 ip = join_str ''.'' (map (\<lambda>w. show_nat (unat w)) [oct0 ip, oct1 ip, oct2 ip, oct3 ip])"

definition parse_octet :: "string \<Rightarrow> u8 option" where
  "parse_octet s =
     (if length s > 3 \<or> (length s > 1 \<and> hd s = CHR ''0'') then None
      else (case parse_nat s of Some n \<Rightarrow> if n < 256 then Some (of_nat n) else None | None \<Rightarrow> None))"

definition parse_ipv4 :: "string \<Rightarrow> ipv4 option" where
  "parse_ipv4 s =
     (case split_char (CHR ''.'') s of
        [a, b, c, d] \<Rightarrow>
          (case (parse_octet a, parse_octet b, parse_octet c, parse_octet d) of
             (Some a', Some b', Some c', Some d') \<Rightarrow> Some (Ipv4 a' b' c' d')
           | _ \<Rightarrow> None)
      | _ \<Rightarrow> None)"

lemma unat_u8_less: "unat (w :: u8) < 256"
proof -
  have "unat w < 2 ^ LENGTH(8)" by (rule unsigned_less)
  then show ?thesis by simp
qed

lemma parse_octet_show [simp]: "parse_octet (show_nat (unat (w :: u8))) = Some w"
proof -
  let ?n = "unat w"
  have n: "?n < 256" by (rule unat_u8_less)
  then have len: "length (show_nat ?n) \<le> 3"
    by (intro show_nat_length) auto
  have "hd (show_nat ?n) \<noteq> CHR ''0''" if "length (show_nat ?n) > 1"
  proof -
    have "10 \<le> ?n"
      using that by (rule contrapos_pp) (subst show_nat.simps, simp)
    then show ?thesis
      using show_nat_hd [of ?n] by (simp add: digit_char_0)
  qed
  with n len show ?thesis
    by (auto simp: parse_octet_def)
qed

lemma show_nat_no_dot: "CHR ''.'' \<notin> set (show_nat n)"
  using show_nat_digits [of "CHR ''.''" n] by (auto simp: is_digit_def)

lemma split_show_ipv4:
  "split_char (CHR ''.'') (show_ipv4 ip) =
     map (\<lambda>w. show_nat (unat w)) [oct0 ip, oct1 ip, oct2 ip, oct3 ip]"
  unfolding show_ipv4_def by (rule split_join) (auto simp: show_nat_no_dot)

lemma parse_ipv4_show_ipv4 [str_simps, simp]: "parse_ipv4 (show_ipv4 ip) = Some ip"
  by (simp add: parse_ipv4_def split_show_ipv4)

lemma show_ipv4_inject [simp]: "show_ipv4 a = show_ipv4 b \<longleftrightarrow> a = b"
  by (metis option.inject parse_ipv4_show_ipv4)

lemma show_ipv4_chars: "c \<in> set (show_ipv4 ip) \<Longrightarrow> is_digit c \<or> c = CHR ''.''"
  by (auto simp: show_ipv4_def dest: show_nat_digits)

lemma show_ipv4_neq_Nil [simp]: "show_ipv4 ip \<noteq> []"
  by (simp add: show_ipv4_def)

end
