(* ===== verification/Rust_Text.thy ===== *)
theory Rust_Text
  imports Rust_Num
begin

text \<open>
  Text functions of the standard library beyond plain splitting: \<open>trim\<close> and
  \<open>split_whitespace\<close> over Unicode white space, letter case as far as a comparison with
  an ASCII word can see it, \<open>String::from_utf8_lossy\<close>, and \<open>Display\<close> of an IPv6
  address. Lemmas say that plain ASCII text passes through unchanged.
\<close>

subsection \<open>White space\<close>

text \<open>The UTF-8 encodings of the characters with the Unicode property White\_Space.\<close>

definition ws_ascii :: "string list" where
  "ws_ascii = [[CHR 0x09], [CHR 0x0A], [CHR 0x0B], [CHR 0x0C], [CHR 0x0D], '' '']"

definition ws_wide :: "string list" where
  "ws_wide = map (map char_of)
     ([[194, 133], [194, 160], [225, 154, 128]]
      @ map (\<lambda>b. [226, 128, b]) [128, 129, 130, 131, 132, 133, 134, 135, 136, 137, 138, 168, 169, 175]
      @ [[226, 129, 159], [227, 128, 128 :: nat]])"

definition ws_chars :: "string list" where
  "ws_chars = ws_ascii @ ws_wide"

lemma ws_chars_neq_Nil: "[] \<notin> set ws_chars"
  by (simp add: ws_chars_def ws_ascii_def ws_wide_def)

function trim_start :: "string \<Rightarrow> string" where
  "trim_start s = (case find (\<lambda>w. starts_with w s) ws_chars of
     None \<Rightarrow> s | Some w \<Rightarrow> trim_start (drop (length w) s))"
  by pat_completeness auto
termination
proof (relation "measure length")
  fix s w
  assume "find (\<lambda>w. starts_with w s) ws_chars = Some w"
  then have "w \<in> set ws_chars" and "starts_with w s"
    by (auto dest: find_SomeD)
  with ws_chars_neq_Nil show "(drop (length w) s, s) \<in> measure length"
    by (cases w) (auto simp: starts_with_iff)
qed simp

declare trim_start.simps [simp del]

function trim_end :: "string \<Rightarrow> string" where
  "trim_end s = (case find (\<lambda>w. ends_with w s) ws_chars of
     None \<Rightarrow> s | Some w \<Rightarrow> trim_end (take (length s - length w) s))"
  by pat_completeness auto
termination
proof (relation "measure length")
  fix s w
  assume "find (\<lambda>w. ends_with w s) ws_chars = Some w"
  then have "w \<in> set ws_chars" and "ends_with w s"
    by (auto dest: find_SomeD)
  with ws_chars_neq_Nil show "(take (length s - length w) s, s) \<in> measure length"
    by (cases w) (auto simp: ends_with_iff)
qed simp

declare trim_end.simps [simp del]

definition trim :: "string \<Rightarrow> string" where
  "trim s = trim_end (trim_start s)"

text \<open>\<open>str::split_whitespace\<close>: the non-empty pieces between white space.\<close>

function split_ws :: "string \<Rightarrow> string \<Rightarrow> string list" where
  "split_ws acc s = (case s of
     [] \<Rightarrow> (if acc = [] then [] else [acc])
   | c # cs \<Rightarrow>
       (case find (\<lambda>w. starts_with w s) ws_chars of
          None \<Rightarrow> split_ws (acc @ [c]) cs
        | Some w \<Rightarrow> (if acc = [] then [] else [acc]) @ split_ws [] (drop (length w) s)))"
  by pat_completeness auto
termination
proof (relation "measure (\<lambda>(acc, s). length s)")
  fix acc s c and cs :: string and w
  assume s: "s = c # cs" and "find (\<lambda>w. starts_with w s) ws_chars = Some w"
  then have "w \<in> set ws_chars" and "starts_with w s"
    by (auto dest: find_SomeD)
  with ws_chars_neq_Nil show "(([], drop (length w) s), acc, s) \<in> measure (\<lambda>(acc, s). length s)"
    by (cases w) (auto simp: starts_with_iff)
qed auto

declare split_ws.simps [simp del]

definition split_whitespace :: "string \<Rightarrow> string list" where
  "split_whitespace s = split_ws [] s"

text \<open>A graphic ASCII character (\<open>!\<close> to \<open>~\<close>) is neither the start nor the end of white space.\<close>

definition graphic :: "char \<Rightarrow> bool" where
  "graphic c \<longleftrightarrow> 33 \<le> (of_char c :: nat) \<and> (of_char c :: nat) \<le> 126"

lemma ws_hd_last: "w \<in> set ws_chars \<Longrightarrow> \<not> graphic (hd w) \<and> \<not> graphic (last w)"
  by (auto simp: ws_chars_def ws_ascii_def ws_wide_def graphic_def)

lemma no_ws_prefix:
  assumes "s = [] \<or> graphic (hd s)"
  shows "find (\<lambda>w. starts_with w s) ws_chars = None"
proof -
  have "\<not> starts_with w s" if w: "w \<in> set ws_chars" for w
    using assms ws_hd_last [OF w] ws_chars_neq_Nil w by (cases w) (auto simp: starts_with_iff)
  then show ?thesis by (auto simp: find_None_iff)
qed

lemma no_ws_suffix:
  assumes "s = [] \<or> graphic (last s)"
  shows "find (\<lambda>w. ends_with w s) ws_chars = None"
proof -
  have "\<not> ends_with w s" if w: "w \<in> set ws_chars" for w
    using assms ws_hd_last [OF w] ws_chars_neq_Nil w by (cases w) (auto simp: ends_with_iff)
  then show ?thesis by (auto simp: find_None_iff)
qed

lemma trim_graphic: "s = [] \<or> graphic (hd s) \<and> graphic (last s) \<Longrightarrow> trim s = s"
  by (cases "s = []")
    (simp_all add: trim_def trim_start.simps [of s] trim_end.simps [of s] trim_start.simps [of "[]"]
      trim_end.simps [of "[]"] no_ws_prefix no_ws_suffix)

lemma trim_all_graphic: "\<forall>c \<in> set s. graphic c \<Longrightarrow> trim s = s"
  by (rule trim_graphic) (cases s, auto)

lemma trim_space: "trim (CHR '' '' # s) = trim s"
proof -
  have "find (\<lambda>w. starts_with w (CHR '' '' # s)) ws_chars = Some '' ''"
    by (simp add: ws_chars_def ws_ascii_def starts_with_def)
  then show ?thesis by (simp add: trim_def trim_start.simps [of "CHR '' '' # s"])
qed

lemma is_digit_graphic: "is_digit c \<Longrightarrow> graphic c"
  by (simp add: is_digit_def graphic_def)

lemma split_ws_graphic:
  "\<forall>c \<in> set s. graphic c \<Longrightarrow> split_ws acc s = (if acc @ s = [] then [] else [acc @ s])"
  by (induction s arbitrary: acc) (simp_all add: split_ws.simps no_ws_prefix)

lemma split_ws_graphic_space:
  "\<forall>c \<in> set s. graphic c \<Longrightarrow>
   split_ws acc (s @ CHR '' '' # t) = (if acc @ s = [] then [] else [acc @ s]) @ split_ws [] t"
proof (induction s arbitrary: acc)
  case Nil
  have "find (\<lambda>w. starts_with w (CHR '' '' # t)) ws_chars = Some '' ''"
    by (simp add: ws_chars_def ws_ascii_def starts_with_def)
  then show ?case by (simp add: split_ws.simps [of acc "CHR '' '' # t"])
next
  case (Cons c s)
  then show ?case
    by (simp add: split_ws.simps [of acc "c # s @ CHR '' '' # t"] no_ws_prefix)
qed

subsection \<open>Letter case\<close>

text \<open>
  \<open>to_lowercase\<close> on ASCII letters and on the two non-ASCII characters whose lower case
  begins with an ASCII letter (the Kelvin sign and the dotted capital I). The other
  non-ASCII characters stay: their lower case is not ASCII either, so a comparison with an
  ASCII word gives the same answer. No non-ASCII character has an upper case made of
  letters of \<open>CONNECT\<close> only, so for \<open>to_uppercase\<close> the ASCII letters suffice.
\<close>

definition lower_char :: "char \<Rightarrow> char" where
  "lower_char c = (let n = (of_char c :: nat) in if 65 \<le> n \<and> n \<le> 90 then char_of (n + 32) else c)"

definition upper_char :: "char \<Rightarrow> char" where
  "upper_char c = (let n = (of_char c :: nat) in if 97 \<le> n \<and> n \<le> 122 then char_of (n - 32) else c)"

fun to_lowercase :: "string \<Rightarrow> string" where
  "to_lowercase [] = []"
| "to_lowercase (c # cs) =
     (case strip_prefix [CHR 0xE2, CHR 0x84, CHR 0xAA] (c # cs) of
        Some _ \<Rightarrow> CHR ''k'' # to_lowercase (drop 2 cs)
      | None \<Rightarrow>
          (case strip_prefix [CHR 0xC4, CHR 0xB0] (c # cs) of
             Some _ \<Rightarrow> [CHR ''i'', CHR 0xCC, CHR 0x87] @ to_lowercase (drop 1 cs)
           | None \<Rightarrow> lower_char c # to_lowercase cs))"

definition to_uppercase :: "string \<Rightarrow> string" where
  "to_uppercase = map upper_char"

subsection \<open>Bytes and UTF-8\<close>

definition string_of_bytes :: "u8 list \<Rightarrow> string" where
  "string_of_bytes = map (\<lambda>b. char_of (unat b))"

definition bytes_of_string :: "string \<Rightarrow> u8 list" where
  "bytes_of_string = map (\<lambda>c. word_of_nat (of_char c))"

text \<open>
  One step of \<open>from_utf8_lossy\<close> at a byte that is not ASCII: how many bytes it takes and
  whether they are a character. An ill-formed sequence ends at its longest prefix that
  could still have become a character, and becomes one replacement character.
\<close>

definition cont_byte :: "u8 \<Rightarrow> bool" where
  "cont_byte b \<longleftrightarrow> 0x80 \<le> b \<and> b \<le> 0xBF"

definition second_ok :: "u8 \<Rightarrow> u8 \<Rightarrow> bool" where
  "second_ok b d \<longleftrightarrow>
     (if b = 0xE0 then 0xA0 \<le> d \<and> d \<le> 0xBF
      else if b = 0xED then 0x80 \<le> d \<and> d \<le> 0x9F
      else if b = 0xF0 then 0x90 \<le> d \<and> d \<le> 0xBF
      else if b = 0xF4 then 0x80 \<le> d \<and> d \<le> 0x8F
      else cont_byte d)"

definition utf8_width :: "u8 \<Rightarrow> nat" where
  "utf8_width b =
     (if 0xC2 \<le> b \<and> b \<le> 0xDF then 2 else if 0xE0 \<le> b \<and> b \<le> 0xEF then 3
      else if 0xF0 \<le> b \<and> b \<le> 0xF4 then 4 else 0)"

definition utf8_chunk :: "u8 \<Rightarrow> u8 list \<Rightarrow> nat \<times> bool" where
  "utf8_chunk b bs =
     (let w = utf8_width b in
      if w = 0 then (1, False)
      else case bs of
        [] \<Rightarrow> (1, False)
      | d # ds \<Rightarrow>
          if \<not> second_ok b d then (1, False)
          else if w = 2 then (2, True)
          else case ds of
            [] \<Rightarrow> (2, False)
          | e # es \<Rightarrow>
              if \<not> cont_byte e then (2, False)
              else if w = 3 then (3, True)
              else case es of
                [] \<Rightarrow> (3, False)
              | f # _ \<Rightarrow> if cont_byte f then (4, True) else (3, False))"

lemma utf8_chunk_pos: "0 < fst (utf8_chunk b bs)"
  by (simp add: utf8_chunk_def Let_def split: list.split)

definition replacement :: "u8 list" where
  "replacement = [0xEF, 0xBF, 0xBD]"

function utf8_lossy :: "u8 list \<Rightarrow> u8 list" where
  "utf8_lossy [] = []"
| "utf8_lossy (b # bs) =
     (if b < 0x80 then b # utf8_lossy bs
      else case utf8_chunk b bs of (n, valid) \<Rightarrow>
        (if valid then take n (b # bs) else replacement) @ utf8_lossy (drop n (b # bs)))"
  by pat_completeness auto
termination
proof (relation "measure length")
  fix b :: u8 and bs n valid
  assume "(n, valid) = utf8_chunk b bs"
  then have "0 < n" using utf8_chunk_pos [of b bs] by (metis fst_conv)
  then show "(drop n (b # bs), b # bs) \<in> measure length"
    by (cases n) auto
qed auto

definition from_utf8_lossy :: "u8 list \<Rightarrow> string" where
  "from_utf8_lossy bs = string_of_bytes (utf8_lossy bs)"

text \<open>\<open>String::from_utf8\<close>: lossy decoding replaces every ill-formed sequence, which changes the
  bytes, so a byte sequence is well-formed if it comes back as it was.\<close>

definition from_utf8 :: "u8 list \<Rightarrow> string option" where
  "from_utf8 bs = (if utf8_lossy bs = bs then Some (string_of_bytes bs) else None)"

lemma utf8_lossy_ascii: "\<forall>b \<in> set bs. b < 0x80 \<Longrightarrow> utf8_lossy bs = bs"
  by (induction bs) auto

definition ascii :: "string \<Rightarrow> bool" where
  "ascii s \<longleftrightarrow> (\<forall>c \<in> set s. (of_char c :: nat) < 128)"

lemma byte_of_char [simp]: "unat (word_of_nat (of_char c) :: u8) = of_char c"
proof -
  have "(of_char c :: nat) < 256" by simp
  then show ?thesis by (simp add: unat_of_nat take_bit_nat_eq_self)
qed

lemma string_bytes_string [simp]: "string_of_bytes (bytes_of_string s) = s"
  by (simp add: string_of_bytes_def bytes_of_string_def comp_def map_idI)

lemma bytes_of_string_inject [simp]: "bytes_of_string s = bytes_of_string t \<longleftrightarrow> s = t"
  by (metis string_bytes_string)

lemma length_bytes_of_string [simp]: "length (bytes_of_string s) = length s"
  by (simp add: bytes_of_string_def)

lemma from_utf8_lossy_ascii: "ascii s \<Longrightarrow> from_utf8_lossy (bytes_of_string s) = s"
proof -
  assume a: "ascii s"
  have "\<forall>b \<in> set (bytes_of_string s). b < 0x80"
    using a by (auto simp: bytes_of_string_def ascii_def word_less_nat_alt)
  then show ?thesis
    by (simp add: from_utf8_lossy_def utf8_lossy_ascii)
qed

lemma from_utf8_ascii: "ascii s \<Longrightarrow> from_utf8 (bytes_of_string s) = Some s"
proof -
  assume a: "ascii s"
  have "\<forall>b \<in> set (bytes_of_string s). b < 0x80"
    using a by (auto simp: bytes_of_string_def ascii_def word_less_nat_alt)
  then show ?thesis
    by (simp add: from_utf8_def utf8_lossy_ascii)
qed

subsection \<open>IPv6 addresses\<close>

text \<open>\<open>Display\<close> of \<open>std::net::Ipv6Addr\<close>: hexadecimal groups, the longest run of zero groups
  (of at least two) written \<open>::\<close>, IPv4-mapped addresses in dotted form.\<close>

definition hex_char :: "nat \<Rightarrow> char" where
  "hex_char d = (if d < 10 then char_of (48 + d) else char_of (87 + d))"

fun show_hex :: "nat \<Rightarrow> string" where
  "show_hex n = (if n < 16 then [hex_char n] else show_hex (n div 16) @ [hex_char (n mod 16)])"

declare show_hex.simps [simp del]

fun zero_run :: "nat \<Rightarrow> nat list \<Rightarrow> nat \<times> nat \<Rightarrow> nat \<times> nat \<Rightarrow> nat \<times> nat" where
  "zero_run i [] cur best = best"
| "zero_run i (g # gs) cur best =
     (if g = 0 then
        (let cur' = (if snd cur = 0 then (i, 1) else (fst cur, snd cur + 1))
         in zero_run (i + 1) gs cur' (if snd cur' > snd best then cur' else best))
      else zero_run (i + 1) gs (0, 0) best)"

fun groups :: "u8 list \<Rightarrow> nat list" where
  "groups (a # b # bs) = (unat a * 256 + unat b) # groups bs"
| "groups _ = []"

definition show_ipv6 :: "u8 list \<Rightarrow> string" where
  "show_ipv6 bs =
     (let gs = groups bs; hex = (\<lambda>xs. join_str '':'' (map show_hex xs)) in
      if take 5 gs = [0, 0, 0, 0, 0] \<and> gs ! 5 = 0xFFFF
      then ''::ffff:'' @ show_ipv4 (Ipv4 (bs ! 12) (bs ! 13) (bs ! 14) (bs ! 15))
      else (case zero_run 0 gs (0, 0) (0, 0) of (start, len) \<Rightarrow>
        if len > 1 then hex (take start gs) @ ''::'' @ hex (drop (start + len) gs)
        else hex gs))"

end
