(* ===== verification/App_Error.thy ===== *)
theory App_Error
  imports Rust_Text
begin

text \<open>
  The values that cross component borders: JSON documents (\<open>serde_json::Value\<close>), the
  unified error type of \<open>src/src/error.rs\<close> with its HTTP rendering, and HTTP responses.
\<close>

subsection \<open>JSON\<close>

datatype json =
    JNull
  | JBool bool
  | JInt int
  | JFloat string
  | JStr string
  | JArr "json list"
  | JObj "(string \<times> json) list"

text \<open>\<open>Value::get(key)\<close>, \<open>as_bool\<close>, \<open>as_str\<close>, and assignment of a member \<open>v[key] = x\<close>.\<close>

fun json_get :: "string \<Rightarrow> json \<Rightarrow> json option" where
  "json_get k (JObj ms) = map_of ms k"
| "json_get k _ = None"

fun as_bool :: "json \<Rightarrow> bool option" where
  "as_bool (JBool b) = Some b"
| "as_bool _ = None"

fun as_str :: "json \<Rightarrow> string option" where
  "as_str (JStr s) = Some s"
| "as_str _ = None"

fun set_member :: "string \<Rightarrow> json \<Rightarrow> (string \<times> json) list \<Rightarrow> (string \<times> json) list" where
  "set_member k v [] = [(k, v)]"
| "set_member k v ((j, w) # ms) = (if j = k then (k, v) # ms else (j, w) # set_member k v ms)"

fun json_set :: "string \<Rightarrow> json \<Rightarrow> json \<Rightarrow> json" where
  "json_set k v (JObj ms) = JObj (set_member k v ms)"
| "json_set k v j = j"

lemma map_of_set_member [simp]: "map_of (set_member k v ms) = (map_of ms)(k \<mapsto> v)"
  by (induction ms) auto

lemma json_get_set: "json_get j (json_set k v (JObj ms)) = (if j = k then Some v else json_get j (JObj ms))"
  by simp

subsection \<open>Errors\<close>

text \<open>
  \<open>enum AppError\<close>. The two foreign errors (\<open>sqlx::Error\<close>, \<open>std::io::Error\<close>) carry
  what their \<open>to_string\<close> gives.
\<close>

datatype app_error =
    Validation string
  | Unauthorized string
  | Internal string
  | Db string
  | LeaseUnavailable string
  | Io string

text \<open>\<open>#[error("{0}")]\<close>: every variant displays its message.\<close>

fun error_message :: "app_error \<Rightarrow> string" where
  "error_message (Validation m) = m"
| "error_message (Unauthorized m) = m"
| "error_message (Internal m) = m"
| "error_message (Db m) = m"
| "error_message (LeaseUnavailable m) = m"
| "error_message (Io m) = m"

datatype body = NoBody | Text string | Html string | Json json

record response =
  status :: nat
  headers :: "(string \<times> string) list"
  body :: body

text \<open>\<open>impl IntoResponse for AppError\<close>.\<close>

fun error_status :: "app_error \<Rightarrow> nat" where
  "error_status (Validation m) = 400"
| "error_status (Unauthorized m) = 403"
| "error_status (Internal m) = 500"
| "error_status (Db m) = 500"
| "error_status (LeaseUnavailable m) = 500"
| "error_status (Io m) = 500"

definition into_response :: "app_error \<Rightarrow> response" where
  "into_response e =
     \<lparr>status = error_status e, headers = [],
      body = Json (JObj [(''error'', JStr (''Error handling new lease route: '' @ error_message e))])\<rparr>"

lemma error_status_classes: "error_status e \<in> {400, 403, 500}"
  by (cases e) auto

end
