(* ===== verification/Config.thy ===== *)
theory Config
  imports App_Error
begin

text \<open>
  The configuration of \<open>src/src/config.rs\<close>: run modes with their parser and printer,
  the settings the modelled components read, and the effective values derived from them.
  How \<open>clap\<close> fills the record from the environment is not modelled.
\<close>

subsection \<open>Run modes\<close>

datatype run_mode = Validator | Miner | Worker

fun show_run_mode :: "run_mode \<Rightarrow> string" where
  "show_run_mode Validator = ''validator''"
| "show_run_mode Miner = ''miner''"
| "show_run_mode Worker = ''worker''"

definition parse_run_mode :: "string \<Rightarrow> string + run_mode" where
  "parse_run_mode s =
     (let t = to_lowercase s in
      if t = ''validator'' then Inr Validator
      else if t = ''miner'' then Inr Miner
      else if t = ''worker'' then Inr Worker
      else Inl (''Invalid RUN_MODE: '' @ [CHR 0x27] @ s @ [CHR 0x27]
                @ ''. Must be one of: validator, miner, worker''))"

lemma parse_show_run_mode: "parse_run_mode (show_run_mode m) = Inr m"
proof (cases m)
  case Validator
  have "parse_run_mode (show_run_mode Validator) = Inr Validator" by code_simp
  with Validator show ?thesis by simp
next
  case Miner
  have "parse_run_mode (show_run_mode Miner) = Inr Miner" by code_simp
  with Miner show ?thesis by simp
next
  case Worker
  have "parse_run_mode (show_run_mode Worker) = Inr Worker" by code_simp
  with Worker show ?thesis by simp
qed

subsection \<open>Settings\<close>

text \<open>\<open>struct AppConfig\<close>.\<close>

record config =
  run_mode :: run_mode
  server_port :: u16
  server_public_host :: string
  server_public_protocol :: string
  server_public_url :: string
  mining_pool_url :: string
  mining_pool_name :: string
  mining_pool_rewards :: string
  mining_pool_website_url :: string
  wireguard_peer_count :: u16
  wireguard_server_port :: u16
  wg_interface_name :: string
  wg_subnet :: string
  wg_dns :: string
  wg_public_reachability_check :: bool
  wg_public_reachability_timeout_ms :: nat
  socks5_port :: u16
  http_proxy_port :: u16
  proxy_credential_count :: nat
  dante_port :: u16
  password_dir :: string
  dante_regen_dir :: string
  priority_slots :: int
  payment_address_evm :: string
  payment_address_bittensor :: string
  sqlite_path :: string
  ci_mode :: bool
  ci_mock_wg_container :: bool
  ci_mock_worker_responses :: bool
  ci_mock_mining_pool_responses :: bool
  force_destroy_database :: bool
  beta_refresh_lease :: bool
  lease_token_secret :: string
  admin_api_key :: string
  validator_lease_api_keys :: string
  login_password :: string
  jwt_secret :: string
  github_repo :: string
  daemon_interval_s :: nat
  log_level :: string
  broadcast_message :: string
  contact_method :: string
  tpn_internal_subnet :: string
  tpn_external_subnet :: string

text \<open>\<open>str::trim_end_matches(c)\<close>.\<close>

definition trim_end_matches :: "char \<Rightarrow> string \<Rightarrow> string" where
  "trim_end_matches c s = rev (dropWhile (\<lambda>x. x = c) (rev s))"

definition show_u16 :: "u16 \<Rightarrow> string" where
  "show_u16 p = show_nat (unat p)"

definition base_url :: "config \<Rightarrow> string" where
  "base_url c =
     (if server_public_url c \<noteq> [] then trim_end_matches (CHR ''/'') (server_public_url c)
      else server_public_protocol c @ ''://'' @ server_public_host c @ '':'' @ show_u16 (server_port c))"

definition effective_mining_pool_url :: "config \<Rightarrow> string" where
  "effective_mining_pool_url c =
     (let url = trim_end_matches (CHR ''/'') (mining_pool_url c)
      in if url = [] then ''http://165.227.133.192:3000'' else url)"

definition effective_peer_count :: "config \<Rightarrow> u16" where
  "effective_peer_count c = min (max (wireguard_peer_count c) 1) 253"

definition is_worker :: "config \<Rightarrow> bool" where
  "is_worker c \<longleftrightarrow> run_mode c = Worker"

lemma trim_end_matches_last: "t = trim_end_matches c s \<Longrightarrow> t = [] \<or> last t \<noteq> c"
proof -
  assume t: "t = trim_end_matches c s"
  have "dropWhile (\<lambda>x. x = c) (rev s) = [] \<or> hd (dropWhile (\<lambda>x. x = c) (rev s)) \<noteq> c"
    using hd_dropWhile [of "\<lambda>x. x = c" "rev s"] by blast
  then show ?thesis
    unfolding t trim_end_matches_def by (simp only: last_rev rev_is_Nil_conv)
qed

lemma effective_mining_pool_url_shape:
  "effective_mining_pool_url c \<noteq> [] \<and> last (effective_mining_pool_url c) \<noteq> CHR ''/''"
  using trim_end_matches_last [OF refl, of "CHR ''/''" "mining_pool_url c"]
  by (auto simp: effective_mining_pool_url_def Let_def)

lemma effective_peer_count_bounds:
  "1 \<le> effective_peer_count c" "effective_peer_count c \<le> 253"
  by (auto simp: effective_peer_count_def min_def max_def)

lemma unat_effective_peer_count:
  "1 \<le> unat (effective_peer_count c) \<and> unat (effective_peer_count c) \<le> 253"
  using effective_peer_count_bounds [of c] by (simp add: word_le_nat_alt)

end
