(* ===== verification/State.thy ===== *)
theory State
  imports Config
begin

text \<open>
  The state the worker's operations run on. \<open>externals\<close> gathers the functions of
  crates that are not under \<open>src/\<close> as parameters. \<open>env_st\<close> is the environment: the
  clock, whose \<open>n\<close>-th reading is \<open>clock s n\<close>, the outcome of the \<open>n\<close>-th SQL
  statement (\<open>None\<close>, or the message of an \<open>sqlx::Error\<close>), the outcome of the
  \<open>n\<close>-th wait for a named lock, and the draws of the random generator. \<open>db_st\<close> adds the
  tables that \<open>src/src/db/init.rs\<close> creates, a table being the list of its rows. Components
  with state of their own extend \<open>db_st\<close>.
\<close>

subsection \<open>Functions of other crates\<close>

record externals =
  ext_rfc3339 :: "nat \<Rightarrow> string" \<comment> \<open>chrono: text of the n-th clock reading\<close>
  ext_b64_encode :: "u8 list \<Rightarrow> string" \<comment> \<open>base64 STANDARD\<close>
  ext_b64_decode :: "string \<Rightarrow> string + u8 list"
  ext_b64_url_encode :: "u8 list \<Rightarrow> string" \<comment> \<open>base64 URL\_SAFE\_NO\_PAD\<close>
  ext_hmac_sha256 :: "u8 list \<Rightarrow> u8 list \<Rightarrow> u8 list" \<comment> \<open>key, message\<close>
  ext_x25519_public :: "u8 list \<Rightarrow> u8 list" \<comment> \<open>public key of a secret\<close>
  ext_wg_key :: "u8 list \<Rightarrow> string + u8 list" \<comment> \<open>defguard: Key::try\_from\<close>
  ext_ip_mask :: "string \<Rightarrow> string + string" \<comment> \<open>defguard: IpAddrMask::from\_str, printed back\<close>
  ext_ct_eq :: "u8 list \<Rightarrow> u8 list \<Rightarrow> bool" \<comment> \<open>subtle: constant-time comparison\<close>
  ext_header_value :: "string \<Rightarrow> bool" \<comment> \<open>http: HeaderValue::from\_str accepts the text\<close>
  ext_parse_json :: "string \<Rightarrow> string + json" \<comment> \<open>serde\_json::from\_str\<close>
  ext_jwt_encode :: "u8 list \<Rightarrow> string \<Rightarrow> int \<Rightarrow> string + string" \<comment> \<open>jsonwebtoken: secret, sub, exp\<close>
  ext_jwt_ok :: "u8 list \<Rightarrow> int \<Rightarrow> string \<Rightarrow> bool" \<comment> \<open>decode succeeds: secret, time in seconds, token\<close>
  ext_dashboard_page :: string \<comment> \<open>the file \<open>dashboard.html\<close> that \<open>include_str!\<close> builds in\<close>

subsection \<open>Environment\<close>

record env_st =
  ext :: externals
  clock :: "nat \<Rightarrow> int"
  clock_pos :: nat
  db_fault :: "nat \<Rightarrow> string option"
  db_pos :: nat
  lock_timeout :: "nat \<Rightarrow> bool"
  lock_pos :: nat
  lock_names :: "string list"
  rand_bytes :: "nat \<Rightarrow> u8 list" \<comment> \<open>32 random bytes\<close>
  rand_below :: "nat \<Rightarrow> nat \<Rightarrow> nat" \<comment> \<open>n-th draw, below the bound\<close>
  rand_pos :: nat

subsection \<open>Tables\<close>

text \<open>\<open>worker_wireguard_configs\<close>\<close>

record wg_row =
  wg_id :: int
  wg_expires_at :: int
  wg_updated_at :: string
  wg_private_key :: "string option"
  wg_public_key :: "string option"
  wg_preshared_key :: "string option"
  wg_allowed_ip :: "string option"

text \<open>\<open>worker_wg_server\<close>\<close>

record server_key_row =
  sk_id :: int
  sk_private_key :: string
  sk_public_key :: string

text \<open>\<open>worker_socks5_configs\<close>, \<open>struct Socks5Config\<close>\<close>

record socks5_config =
  sock_id :: int
  ip_address :: string
  port :: int
  username :: string
  password :: string
  available :: bool
  expires_at :: int
  updated :: int

text \<open>\<open>timestamps\<close>\<close>

record ts_row =
  ts_label :: string
  ts_timestamp :: int
  ts_updated :: int

text \<open>\<open>worker_registration_log\<close>\<close>

record reg_row =
  reg_id :: int
  reg_url :: string
  reg_success :: int
  reg_status_code :: int
  reg_response_body :: string
  reg_error_message :: string
  reg_created_at :: string

record db_st = env_st +
  wg_configs :: "wg_row list"
  wg_servers :: "server_key_row list"
  socks_configs :: "socks5_config list"
  socks_seq :: int \<comment> \<open>largest id ever given by AUTOINCREMENT\<close>
  ts_rows :: "ts_row list"
  reg_log :: "reg_row list"
  reg_seq :: int

text \<open>A computation over any state that extends the environment, or the database.\<close>

type_synonym ('z, 'a) env_op = "('z env_st_scheme, app_error, 'a) rm"
type_synonym ('z, 'a) db_op = "('z db_st_scheme, app_error, 'a) rm"

subsection \<open>Clock, randomness and statements\<close>

text \<open>\<open>chrono::Utc::now().timestamp_millis()\<close> and \<open>chrono::Utc::now().to_rfc3339()\<close>.\<close>

definition now_ms :: "('z, int) env_op" where
  "now_ms s = (Inr (clock s (clock_pos s)), s\<lparr>clock_pos := Suc (clock_pos s)\<rparr>)"

definition now_rfc3339 :: "('z, string) env_op" where
  "now_rfc3339 s = (Inr (ext_rfc3339 (ext s) (clock_pos s)), s\<lparr>clock_pos := Suc (clock_pos s)\<rparr>)"

definition random_32 :: "('z, u8 list) env_op" where
  "random_32 s = (Inr (rand_bytes s (rand_pos s)), s\<lparr>rand_pos := Suc (rand_pos s)\<rparr>)"

definition random_below :: "nat \<Rightarrow> ('z, nat) env_op" where
  "random_below n s = (Inr (rand_below s (rand_pos s) n), s\<lparr>rand_pos := Suc (rand_pos s)\<rparr>)"

text \<open>One SQL statement: it fails without effect, or computes a value and the next tables.\<close>

definition sql :: "('z env_st_scheme \<Rightarrow> 'a \<times> 'z env_st_scheme) \<Rightarrow> ('z, 'a) env_op" where
  "sql f s =
     (let t = s\<lparr>db_pos := Suc (db_pos s)\<rparr> in
      case db_fault s (db_pos s) of
        Some e \<Rightarrow> (Inl (Db e), t)
      | None \<Rightarrow> (Inr (fst (f t)), snd (f t)))"

abbreviation sql_query :: "('z env_st_scheme \<Rightarrow> 'a) \<Rightarrow> ('z, 'a) env_op" where
  "sql_query q \<equiv> sql (\<lambda>s. (q s, s))"

abbreviation sql_exec :: "('z env_st_scheme \<Rightarrow> 'z env_st_scheme) \<Rightarrow> ('z, unit) env_op" where
  "sql_exec u \<equiv> sql (\<lambda>s. ((), u s))"

definition no_faults :: "'z env_st_scheme \<Rightarrow> bool" where
  "no_faults s \<longleftrightarrow> (\<forall>n. db_fault s n = None)"

text \<open>The clock never runs backwards.\<close>

definition clock_mono :: "'z env_st_scheme \<Rightarrow> bool" where
  "clock_mono s \<longleftrightarrow> (\<forall>m n. m \<le> n \<longrightarrow> clock s m \<le> clock s n)"

lemma clock_monoD: "clock_mono s \<Longrightarrow> m \<le> n \<Longrightarrow> clock s m \<le> clock s n"
  by (simp add: clock_mono_def)

lemma run_now_ms [run_simps, inv_simps]:
  "now_ms s = (Inr (clock s (clock_pos s)), s\<lparr>clock_pos := Suc (clock_pos s)\<rparr>)"
  by (simp add: now_ms_def)

lemma run_now_rfc3339 [run_simps, inv_simps]:
  "now_rfc3339 s = (Inr (ext_rfc3339 (ext s) (clock_pos s)), s\<lparr>clock_pos := Suc (clock_pos s)\<rparr>)"
  by (simp add: now_rfc3339_def)

lemma run_random_32 [run_simps, inv_simps]:
  "random_32 s = (Inr (rand_bytes s (rand_pos s)), s\<lparr>rand_pos := Suc (rand_pos s)\<rparr>)"
  by (simp add: random_32_def)

lemma run_random_below [run_simps, inv_simps]:
  "random_below n s = (Inr (rand_below s (rand_pos s) n), s\<lparr>rand_pos := Suc (rand_pos s)\<rparr>)"
  by (simp add: random_below_def)

lemma run_sql_ok [run_simps]:
  "db_fault s (db_pos s) = None \<Longrightarrow>
   sql f s = (Inr (fst (f (s\<lparr>db_pos := Suc (db_pos s)\<rparr>))), snd (f (s\<lparr>db_pos := Suc (db_pos s)\<rparr>)))"
  by (simp add: sql_def Let_def)

lemma run_sql_fault [run_simps]:
  "db_fault s (db_pos s) = Some e \<Longrightarrow> sql f s = (Inl (Db e), s\<lparr>db_pos := Suc (db_pos s)\<rparr>)"
  by (simp add: sql_def Let_def)

lemma sql_Inr [inv_simps]:
  "sql f s = (Inr x, t) \<longleftrightarrow>
     db_fault s (db_pos s) = None \<and> x = fst (f (s\<lparr>db_pos := Suc (db_pos s)\<rparr>)) \<and>
     t = snd (f (s\<lparr>db_pos := Suc (db_pos s)\<rparr>))"
  by (auto simp: sql_def Let_def split: option.splits)

lemma sql_Inl [inv_simps]:
  "sql f s = (Inl e, t) \<longleftrightarrow>
     (\<exists>m. db_fault s (db_pos s) = Some m \<and> e = Db m \<and> t = s\<lparr>db_pos := Suc (db_pos s)\<rparr>)"
  by (auto simp: sql_def Let_def split: option.splits)

text \<open>Invariants of the tables do not see the counters or the random draws, and outlive a reading of the clock.\<close>

definition env_blind :: "('z env_st_scheme \<Rightarrow> bool) \<Rightarrow> bool" where
  "env_blind I \<longleftrightarrow>
     (\<forall>s n. I (s\<lparr>db_pos := n\<rparr>) = I s) \<and> (\<forall>s. I s \<longrightarrow> I (s\<lparr>clock_pos := Suc (clock_pos s)\<rparr>)) \<and>
     (\<forall>s n. I (s\<lparr>rand_pos := n\<rparr>) = I s) \<and> (\<forall>s n. I (s\<lparr>lock_pos := n\<rparr>) = I s) \<and>
     (\<forall>s n. I (s\<lparr>lock_names := n\<rparr>) = I s)"

lemma env_blindD:
  assumes "env_blind I"
  shows "I (s\<lparr>db_pos := n\<rparr>) = I s" "I s \<Longrightarrow> I (s\<lparr>clock_pos := Suc (clock_pos s)\<rparr>)" "I (s\<lparr>rand_pos := n\<rparr>) = I s"
    "I (s\<lparr>lock_pos := n\<rparr>) = I s" "I (s\<lparr>lock_names := ns\<rparr>) = I s"
  using assms by (simp_all add: env_blind_def)

lemma keeps_now_ms [keeps_rules]: "env_blind I \<Longrightarrow> keeps I now_ms"
  by (simp add: keeps_def run_simps env_blindD)

lemma keeps_now_rfc3339 [keeps_rules]: "env_blind I \<Longrightarrow> keeps I now_rfc3339"
  by (simp add: keeps_def run_simps env_blindD)

lemma keeps_random_32 [keeps_rules]: "env_blind I \<Longrightarrow> keeps I random_32"
  by (simp add: keeps_def run_simps env_blindD)

lemma keeps_random_below [keeps_rules]: "env_blind I \<Longrightarrow> keeps I (random_below n)"
  by (simp add: keeps_def run_simps env_blindD)

lemma keeps_sql [keeps_rules]:
  assumes "env_blind I" and "\<And>s. I s \<Longrightarrow> I (snd (f s))"
  shows "keeps I (sql f)"
proof (rule keepsI)
  fix s
  assume "I s"
  then have "I (s\<lparr>db_pos := Suc (db_pos s)\<rparr>)"
    by (simp add: env_blindD [OF assms(1)])
  then show "I (snd (sql f s))"
    using assms(2) by (auto simp: sql_def Let_def split: option.split)
qed

subsection \<open>A concrete state\<close>

text \<open>
  An empty database on a healthy environment, used wherever a property is applied to
  concrete data: base64 and the curve are replaced by functions that keep the laws the code
  relies on (decoding inverts encoding), the clock advances by one millisecond per reading.
\<close>

definition demo_ext :: externals where
  "demo_ext =
     \<lparr>ext_rfc3339 = (\<lambda>n. ''t'' @ show_nat n), ext_b64_encode = string_of_bytes,
      ext_b64_decode = (\<lambda>s. Inr (bytes_of_string s)), ext_b64_url_encode = string_of_bytes,
      ext_hmac_sha256 = (\<lambda>k m. m @ k), ext_x25519_public = map (\<lambda>b. b + 1),
      ext_wg_key = (\<lambda>bs. if length bs = 32 then Inr bs else Inl ''InvalidLength''),
      ext_ip_mask = (\<lambda>s. Inr (before_str ''/'' s)), ext_ct_eq = (\<lambda>a b. a = b),
      ext_header_value = list_all graphic,
      ext_parse_json = (\<lambda>s. if s = ''{}'' then Inr (JObj [])
        else if s = ''true'' then Inr (JObj [(''registered'', JBool True)]) else Inl ''syntax''),
      ext_jwt_encode = (\<lambda>k sub exp. Inr (show_int exp @ '':'' @ string_of_bytes k)),
      ext_jwt_ok = (\<lambda>k now token. case split_once (CHR '':'') token of
          None \<Rightarrow> False
        | Some (e, k') \<Rightarrow> (case parse_i64 e of None \<Rightarrow> False | Some x \<Rightarrow> now \<le> x + 60 \<and> bytes_of_string k' = k)),
      ext_dashboard_page = ''<!DOCTYPE html>''\<rparr>"

definition demo_db :: db_st where
  "demo_db =
     \<lparr>ext = demo_ext, clock = (\<lambda>n. 1000 + int n), clock_pos = 0, db_fault = (\<lambda>n. None), db_pos = 0,
      lock_timeout = (\<lambda>n. False), lock_pos = 0, lock_names = [],
      rand_bytes = (\<lambda>n. replicate 32 (word_of_nat n)), rand_below = (\<lambda>n k. n mod k), rand_pos = 0,
      wg_configs = [], wg_servers = [], socks_configs = [], socks_seq = 0, ts_rows = [],
      reg_log = [], reg_seq = 0\<rparr>"

lemma demo_db_env [simp]:
  "clock demo_db = (\<lambda>n. 1000 + int n)" "clock_pos demo_db = 0" "db_pos demo_db = 0"
  "db_fault demo_db = (\<lambda>n. None)" "lock_timeout demo_db = (\<lambda>n. False)" "lock_pos demo_db = 0"
  "ext demo_db = demo_ext" "rand_pos demo_db = 0"
  "rand_bytes demo_db = (\<lambda>n. replicate 32 (word_of_nat n))" "rand_below demo_db = (\<lambda>n k. n mod k)"
  "wg_configs demo_db = []" "socks_configs demo_db = []" "socks_seq demo_db = 0"
  "wg_servers demo_db = []" "reg_log demo_db = []" "reg_seq demo_db = 0" "ts_rows demo_db = []"
  by (simp_all add: demo_db_def)

definition demo_row :: "int \<Rightarrow> int \<Rightarrow> wg_row" where
  "demo_row i e =
     \<lparr>wg_id = i, wg_expires_at = e, wg_updated_at = ''t'', wg_private_key = None,
      wg_public_key = None, wg_preshared_key = None, wg_allowed_ip = None\<rparr>"

end
