(* ===== verification/Locks.thy ===== *)
theory Locks
  imports State
begin

text \<open>
  The named lock manager of \<open>src/src/sync/locks.rs\<close>, seen from one task: the mutex is
  created on first use, the wait for it may time out, and the guarded operation runs only
  after the wait succeeded. What other tasks do meanwhile is the subject of
  \<open>Lease_Race\<close>.
\<close>

text \<open>\<open>get_lock\<close>: \<open>entry(name).or_insert_with(\<dots>)\<close>.\<close>

definition get_lock :: "string \<Rightarrow> ('z, unit) env_op" where
  "get_lock name =
     modify (\<lambda>s. if name \<in> set (lock_names s) then s else s\<lparr>lock_names := name # lock_names s\<rparr>)"

definition timeout_message :: "string \<Rightarrow> nat \<Rightarrow> string" where
  "timeout_message name secs =
     ''Lock acquisition timeout after '' @ show_nat secs @ ''s: '' @ name"

definition wait_lock :: "string \<Rightarrow> nat \<Rightarrow> ('z, unit) env_op" where
  "wait_lock name secs =
     and_then (gets (\<lambda>s. lock_timeout s (lock_pos s))) (\<lambda>late.
     and_then (modify (\<lambda>s. s\<lparr>lock_pos := Suc (lock_pos s)\<rparr>)) (\<lambda>_.
     if late then err (Internal (timeout_message name secs)) else ok ()))"

definition with_lock :: "string \<Rightarrow> nat \<Rightarrow> ('z, 'a) env_op \<Rightarrow> ('z, 'a) env_op" where
  "with_lock name secs f =
     and_then (get_lock name) (\<lambda>_.
     and_then (wait_lock name secs) (\<lambda>_. f))"

lemma keeps_get_lock [keeps_rules]: "env_blind I \<Longrightarrow> keeps I (get_lock name)"
  by (simp add: keeps_def get_lock_def run_simps seq_simps env_blindD)

lemma keeps_wait_lock [keeps_rules]: "env_blind I \<Longrightarrow> keeps I (wait_lock name secs)"
  by (simp add: keeps_def wait_lock_def run_simps seq_simps env_blindD)

lemma keeps_with_lock [keeps_rules]:
  "env_blind I \<Longrightarrow> keeps I f \<Longrightarrow> keeps I (with_lock name secs f)"
  by (simp add: with_lock_def keeps_rules)

text \<open>The state in which the guarded operation starts: only the lock bookkeeping differs.\<close>

definition locked_state :: "string \<Rightarrow> 'z env_st_scheme \<Rightarrow> 'z env_st_scheme" where
  "locked_state name s = snd (and_then (get_lock name) (\<lambda>_. modify (\<lambda>s. s\<lparr>lock_pos := Suc (lock_pos s)\<rparr>)) s)"

lemma run_with_lock:
  "with_lock name secs f s =
     (if lock_timeout s (lock_pos s)
      then (Inl (Internal (timeout_message name secs)), locked_state name s)
      else f (locked_state name s))"
  by (simp add: with_lock_def wait_lock_def get_lock_def locked_state_def run_simps seq_simps)

lemma locked_state_env [simp]:
  "ext (locked_state name s) = ext s" "clock (locked_state name s) = clock s"
  "clock_pos (locked_state name s) = clock_pos s" "db_fault (locked_state name s) = db_fault s"
  "db_pos (locked_state name s) = db_pos s" "rand_pos (locked_state name s) = rand_pos s"
  by (simp_all add: locked_state_def get_lock_def run_simps seq_simps)

lemma locked_state_db [simp]:
  "wg_configs (locked_state name s) = wg_configs s"
  "socks_configs (locked_state name s) = socks_configs s"
  by (simp_all add: locked_state_def get_lock_def run_simps seq_simps)

end
