(* ===== verification/Lock_Protocol.thy ===== *)
theory Lock_Protocol
  imports Locks
begin

text \<open>
  The named lock manager of \<open>src/src/sync/locks.rs\<close> as many tasks see it. Its state is the map from
  names to mutexes; a mutex has at most one holder, which is what \<open>tokio\<close> documents of it. A task
  inside \<open>with_lock\<close> waits for the mutex of a name, may give up when the time is over, holds the mutex
  while the guarded future runs, and drops it at the end, whatever the result. Users of the manager
  that follow this protocol, whatever else they do, are the subject of the locale \<open>lock_users\<close>.
\<close>

subsection \<open>The manager and its tasks\<close>

type_synonym mutexes = "string \<rightharpoonup> nat option" \<comment> \<open>the holder of each mutex that exists\<close>

definition lock_entry :: "string \<Rightarrow> mutexes \<Rightarrow> mutexes" where
  "lock_entry name m = (case m name of None \<Rightarrow> m(name \<mapsto> None) | Some mutex \<Rightarrow> m)"

text \<open>\<open>is_locked\<close>: no mutex of that name, or \<open>try_lock\<close> fails. The mutex tried is given back at once.\<close>

definition try_lock_fails :: "nat option \<Rightarrow> bool" where
  "try_lock_fails mutex \<longleftrightarrow> mutex \<noteq> None"

definition is_locked :: "string \<Rightarrow> mutexes \<Rightarrow> bool" where
  "is_locked name m = (case m name of Some mutex \<Rightarrow> try_lock_fails mutex | None \<Rightarrow> False)"

datatype phase = Away | Wanting string | Within string

record lock_st =
  mutexes :: mutexes
  phase :: "nat \<Rightarrow> phase"

definition no_locks :: lock_st where
  "no_locks = \<lparr>mutexes = Map.empty, phase = (\<lambda>k. Away)\<rparr>"

inductive lock_step :: "lock_st \<Rightarrow> lock_st \<Rightarrow> bool" where
  ask: "phase s k = Away \<Longrightarrow>
    lock_step s (s\<lparr>mutexes := lock_entry name (mutexes s), phase := (phase s)(k := Wanting name)\<rparr>)"
| lock: "phase s k = Wanting name \<Longrightarrow> mutexes s name = Some None \<Longrightarrow>
    lock_step s (s\<lparr>mutexes := (mutexes s)(name \<mapsto> Some k), phase := (phase s)(k := Within name)\<rparr>)"
| give_up: "phase s k = Wanting name \<Longrightarrow> lock_step s (s\<lparr>phase := (phase s)(k := Away)\<rparr>)"
| drop_guard: "phase s k = Within name \<Longrightarrow>
    lock_step s (s\<lparr>mutexes := (mutexes s)(name \<mapsto> None), phase := (phase s)(k := Away)\<rparr>)"

inductive_cases lock_step_elims: "lock_step s t"

text \<open>The map of names is the list the view of one task keeps (\<open>Locks\<close>).\<close>

lemma lock_entry_dom: "dom (lock_entry name m) = insert name (dom m)"
  by (auto simp: lock_entry_def split: option.split)

lemma get_lock_entry:
  "dom m = set (lock_names s) \<Longrightarrow> dom (lock_entry name m) = set (lock_names (snd (get_lock name s)))"
  by (auto simp: lock_entry_dom get_lock_def run_simps)

subsection \<open>The invariant\<close>

definition lock_ok :: "lock_st \<Rightarrow> bool" where
  "lock_ok s \<longleftrightarrow>
     (\<forall>k name. mutexes s name = Some (Some k) \<longleftrightarrow> phase s k = Within name) \<and>
     (\<forall>k name. phase s k = Wanting name \<longrightarrow> mutexes s name \<noteq> None)"

lemma lock_ok_holder: "lock_ok s \<Longrightarrow> phase s k = Within name \<Longrightarrow> mutexes s name = Some (Some k)"
  by (simp add: lock_ok_def)

lemma lock_exclusive: "lock_ok s \<Longrightarrow> phase s j = Within name \<Longrightarrow> phase s k = Within name \<Longrightarrow> j = k"
  using lock_ok_holder [of s j name] lock_ok_holder [of s k name] by simp

lemma lock_ok_start [simp]: "lock_ok no_locks"
  by (simp add: lock_ok_def no_locks_def)

lemma lock_ok_step:
  assumes "lock_step s t" and ok: "lock_ok s"
  shows "lock_ok t"
  using assms(1)
proof cases
  case (ask k name)
  have "mutexes s x \<noteq> Some (Some k)" for x using ok ask by (metis lock_ok_def phase.distinct(3))
  moreover have "mutexes s x = None \<Longrightarrow> phase s j \<noteq> Within x" for j x using lock_ok_holder [OF ok] by fastforce
  ultimately show ?thesis using ok unfolding ask lock_ok_def by (auto simp: lock_entry_def split: option.splits)
next
  case (lock k name)
  have "phase s j \<noteq> Within name" for j using lock_ok_holder [OF ok] lock by fastforce
  with lock ok show ?thesis by (simp add: lock_ok_def)
next
  case (give_up k name)
  with ok show ?thesis by (simp add: lock_ok_def)
next
  case (drop_guard k name)
  have "phase s j \<noteq> Within name" if "j \<noteq> k" for j using lock_exclusive [OF ok] drop_guard that by blast
  with drop_guard ok show ?thesis by (auto simp: lock_ok_def)
qed

lemma lock_ok_path: "lock_step\<^sup>*\<^sup>* s t \<Longrightarrow> lock_ok s \<Longrightarrow> lock_ok t"
  by (induction rule: rtranclp_induct) (auto intro: lock_ok_step)

lemma is_locked_within: "lock_ok s \<Longrightarrow> is_locked name (mutexes s) \<longleftrightarrow> (\<exists>k. phase s k = Within name)"
proof -
  assume ok: "lock_ok s"
  have "is_locked name (mutexes s) \<longleftrightarrow> (\<exists>k. mutexes s name = Some (Some k))"
    by (auto simp: is_locked_def try_lock_fails_def split: option.split)
  with ok show ?thesis by (simp add: lock_ok_def)
qed

subsection \<open>Users of the manager\<close>

text \<open>
  A transition system of tasks uses the manager if, seen through \<open>view\<close>, each of its steps is a step
  of the protocol or no concern of it. In particular nothing but the guard of a section protects it.
\<close>

locale lock_users =
  fixes next_step :: "'s \<Rightarrow> 's \<Rightarrow> bool" and view :: "'s \<Rightarrow> lock_st"
  assumes protocol: "next_step s t \<Longrightarrow> view t = view s \<or> lock_step (view s) (view t)"
begin

definition sound :: "'s \<Rightarrow> bool" where
  "sound s \<longleftrightarrow> lock_ok (view s)"

lemma sound_step: "next_step s t \<Longrightarrow> sound s \<Longrightarrow> sound t"
  using protocol [of s t] lock_ok_step by (auto simp: sound_def)

lemma sound_path: "next_step\<^sup>*\<^sup>* s t \<Longrightarrow> sound s \<Longrightarrow> sound t"
  by (induction rule: rtranclp_induct) (auto intro: sound_step)

lemma exclusive: "sound s \<Longrightarrow> phase (view s) j = Within name \<Longrightarrow> phase (view s) k = Within name \<Longrightarrow> j = k"
  unfolding sound_def by (rule lock_exclusive)

end

interpretation manager: lock_users lock_step "\<lambda>s. s"
  by unfold_locales simp

subsection \<open>Property\<close>


text \<open>Task 1 is inside ''a'', task 2 waits for it, task 3 waits for ''b''.\<close>

definition demo_locks :: lock_st where
  "demo_locks = \<lparr>mutexes = [''a'' \<mapsto> Some 1, ''b'' \<mapsto> None],
     phase = (\<lambda>k. Away)(1 := Within ''a'', 2 := Wanting ''a'', 3 := Wanting ''b'')\<rparr>"

lemma demo_locks_reachable: "lock_step\<^sup>*\<^sup>* no_locks demo_locks"
proof -
  let ?s = "\<lambda>m p. \<lparr>mutexes = m, phase = p\<rparr>" and ?a = "''a''" and ?b = "''b''"
  let ?p1 = "(\<lambda>k. Away)(1 := Wanting ?a)" and ?p2 = "(\<lambda>k. Away)(1 := Within ?a)"
  let ?p3 = "(\<lambda>k. Away)(1 := Within ?a, 2 := Wanting ?a)"
  have "lock_step no_locks (?s [?a \<mapsto> None] ?p1)"
    using ask [of no_locks 1 ?a] by (simp add: no_locks_def lock_entry_def)
  moreover have "lock_step (?s [?a \<mapsto> None] ?p1) (?s [?a \<mapsto> Some 1] ?p2)"
    using lock [of "?s [?a \<mapsto> None] ?p1" 1 ?a] by simp
  moreover have "lock_step (?s [?a \<mapsto> Some 1] ?p2) (?s [?a \<mapsto> Some 1] ?p3)"
    using ask [of "?s [?a \<mapsto> Some 1] ?p2" 2 ?a] by (simp add: lock_entry_def)
  moreover have "lock_step (?s [?a \<mapsto> Some 1] ?p3) demo_locks"
    using ask [of "?s [?a \<mapsto> Some 1] ?p3" 3 ?b] by (simp add: lock_entry_def demo_locks_def)
  ultimately show ?thesis by (meson rtranclp.rtrancl_refl rtranclp.rtrancl_into_rtrancl)
qed


end
