(* ===== verification/Lease_Store.thy ===== *)
theory Lease_Store
  imports State
begin

text \<open>
  The contract both lease tables promise to the lease manager: a lease has an expiry time
  under its key, and \<open>extend k old new\<close> replaces it only if it still is \<open>old\<close> and lies
  in the future (optimistic locking). What a client may conclude from the contract is
  proved here once, for any table that keeps it.
\<close>

locale lease_store =
  fixes expiry :: "'s \<Rightarrow> 'k \<rightharpoonup> int"
    and extend :: "'k \<Rightarrow> int \<Rightarrow> int \<Rightarrow> ('s, app_error, 'r) rm"
    and well_formed :: "'s \<Rightarrow> bool"
    and healthy :: "'s \<Rightarrow> bool"
    and today :: "'s \<Rightarrow> int"
  assumes extend_hit:
      "well_formed s \<Longrightarrow> healthy s \<Longrightarrow> expiry s k = Some old \<Longrightarrow> today s < old \<Longrightarrow>
       (\<exists>r t. extend k old new s = (Inr r, t) \<and> expiry t = (expiry s)(k \<mapsto> new))"
    and extend_miss:
      "well_formed s \<Longrightarrow> healthy s \<Longrightarrow> expiry s k \<noteq> Some old \<or> old \<le> today s \<Longrightarrow>
       (\<exists>m t. extend k old new s = (Inl (LeaseUnavailable m), t) \<and> expiry t = expiry s)"
    and extend_fault:
      "well_formed s \<Longrightarrow> \<not> healthy s \<Longrightarrow>
       (\<exists>m t. extend k old new s = (Inl (Db m), t) \<and> expiry t = expiry s)"
    and extend_well_formed: "well_formed s \<Longrightarrow> well_formed (snd (extend k old new s))"
begin

lemma extend_InrD:
  assumes "well_formed s" and "extend k old new s = (Inr r, t)"
  shows "healthy s" and "expiry s k = Some old" and "today s < old"
    and "expiry t = (expiry s)(k \<mapsto> new)" and "well_formed t"
proof -
  show h: "healthy s"
    using extend_fault [OF assms(1), of k old new] assms(2) by auto
  show e: "expiry s k = Some old" and l: "today s < old"
    using extend_miss [OF assms(1) h, of k old new] assms(2) by force+
  show "expiry t = (expiry s)(k \<mapsto> new)"
    using extend_hit [OF assms(1) h e l, of new] assms(2) by auto
  show "well_formed t"
    using extend_well_formed [OF assms(1), of k old new] assms(2) by simp
qed

text \<open>A failed extension changes no lease at all.\<close>

lemma extend_InlD:
  assumes "well_formed s" and "extend k old new s = (Inl e, t)"
  shows "expiry t = expiry s"
proof (cases "healthy s")
  case False
  then show ?thesis using extend_fault [OF assms(1), of k old new] assms(2) by auto
next
  case True
  show ?thesis
  proof (cases "expiry s k = Some old \<and> today s < old")
    case True
    with \<open>healthy s\<close> show ?thesis
      using extend_hit [OF assms(1), of k old new] assms(2) by auto
  next
    case False
    with \<open>healthy s\<close> show ?thesis
      using extend_miss [OF assms(1), of k old new] assms(2) by force
  qed
qed

text \<open>
  No lost update: once a holder has moved the expiry to another time, a second request that
  still carries the old time fails and changes nothing.
\<close>

lemma stale_extend_fails:
  assumes "well_formed s" and "extend k old new s = (Inr r, t)" and "new \<noteq> old"
  shows "\<exists>e u. extend k old new' t = (Inl e, u) \<and> expiry u = expiry t"
proof -
  note t = extend_InrD [OF assms(1,2)]
  then have ne: "expiry t k \<noteq> Some old" using assms(3) by simp
  show ?thesis
  proof (cases "healthy t")
    case True
    then show ?thesis using extend_miss [OF t(5)] ne by blast
  next
    case False
    then show ?thesis using extend_fault [OF t(5)] by blast
  qed
qed

text \<open>An expired lease cannot be revived, and nobody else's lease is touched.\<close>

lemma expired_extend_fails:
  assumes "well_formed s" and "old \<le> today s"
  shows "\<nexists>r t. extend k old new s = (Inr r, t)"
  using extend_InrD(3) [OF assms(1)] assms(2) by force

lemma extend_frame:
  assumes "well_formed s" and "k' \<noteq> k"
  shows "expiry (snd (extend k old new s)) k' = expiry s k'"
proof (cases "extend k old new s")
  case (Pair r t)
  then show ?thesis
    using extend_InrD(4) [OF assms(1)] extend_InlD [OF assms(1)] assms(2)
    by (cases r) auto
qed

end

end
