(* ===== verification/Db_Wireguard.thy ===== *)
theory Db_Wireguard
  imports Locks Lease_Store "HOL-Library.Multiset"
begin

text \<open>
  The WireGuard lease table of \<open>src/src/db/wireguard.rs\<close>: every SQL statement is a
  function on the rows, every operation runs its statements, clock readings and lock waits
  in the order of the source. The abstract view of the table is the map from peer ids to
  expiry times (\<open>lease_map\<close>).
\<close>

record wg_lease =
  peer_id :: int
  lease_expires :: int

subsection \<open>Statements\<close>

text \<open>
  \<open>WITH RECURSIVE ids(id) AS (SELECT $1 UNION ALL SELECT id + 1 FROM ids WHERE id < $2)\<close>
  enumerates \<open>$1, \<dots>, $2\<close>, and \<open>$1\<close> even if it is above \<open>$2\<close>; the first id with no
  row is selected.
\<close>

definition id_range :: "int \<Rightarrow> int \<Rightarrow> int list" where
  "id_range start_id end_id = [start_id..max start_id end_id]"

definition first_free :: "int \<Rightarrow> int \<Rightarrow> wg_row list \<Rightarrow> int option" where
  "first_free start_id end_id rows =
     find (\<lambda>i. i \<notin> set (map wg_id rows)) (id_range start_id end_id)"

text \<open>\<open>INSERT \<dots> ON CONFLICT (id) DO UPDATE SET expires_at = $2, updated_at = $3\<close>\<close>

definition upsert_lease :: "int \<Rightarrow> int \<Rightarrow> string \<Rightarrow> wg_row list \<Rightarrow> wg_row list" where
  "upsert_lease i e u rows =
     (if i \<in> set (map wg_id rows)
      then map (\<lambda>r. if wg_id r = i then r\<lparr>wg_expires_at := e, wg_updated_at := u\<rparr> else r) rows
      else rows @ [\<lparr>wg_id = i, wg_expires_at = e, wg_updated_at = u, wg_private_key = None,
                    wg_public_key = None, wg_preshared_key = None, wg_allowed_ip = None\<rparr>])"

definition extend_rows :: "int \<Rightarrow> int \<Rightarrow> int \<Rightarrow> int \<Rightarrow> string \<Rightarrow> wg_row list \<Rightarrow> wg_row list" where
  "extend_rows i expected new now u rows =
     map (\<lambda>r. if wg_id r = i \<and> wg_expires_at r = expected \<and> wg_expires_at r > now
              then r\<lparr>wg_expires_at := new, wg_updated_at := u\<rparr> else r) rows"

definition extend_count :: "int \<Rightarrow> int \<Rightarrow> int \<Rightarrow> wg_row list \<Rightarrow> nat" where
  "extend_count i expected now rows =
     length (filter (\<lambda>r. wg_id r = i \<and> wg_expires_at r = expected \<and> wg_expires_at r > now) rows)"

definition delete_expired :: "int \<Rightarrow> wg_row list \<Rightarrow> wg_row list" where
  "delete_expired now rows = filter (\<lambda>r. \<not> wg_expires_at r < now) rows"

definition delete_lease :: "int \<Rightarrow> int option \<Rightarrow> wg_row list \<Rightarrow> wg_row list" where
  "delete_lease i expected rows =
     filter (\<lambda>r. \<not> (wg_id r = i \<and> (case expected of Some e \<Rightarrow> wg_expires_at r = e | None \<Rightarrow> True))) rows"

text \<open>\<open>SELECT MIN(expires_at)\<close> is NULL on an empty table.\<close>

definition min_expiry :: "wg_row list \<Rightarrow> int option" where
  "min_expiry rows = (if rows = [] then None else Some (Min (set (map wg_expires_at rows))))"

subsection \<open>Operations\<close>

definition update_wg :: "(wg_row list \<Rightarrow> wg_row list) \<Rightarrow> 'z db_st_scheme \<Rightarrow> 'z db_st_scheme" where
  "update_wg f s = s\<lparr>wg_configs := f (wg_configs s)\<rparr>"

definition cleanup_expired_wireguard_configs :: "('z, nat) db_op" where
  "cleanup_expired_wireguard_configs =
     and_then now_ms (\<lambda>now.
     sql (\<lambda>s. (length (filter (\<lambda>r. wg_expires_at r < now) (wg_configs s)),
               update_wg (delete_expired now) s)))"

definition try_allocate :: "int \<Rightarrow> int \<Rightarrow> int \<Rightarrow> ('z, wg_lease option) db_op" where
  "try_allocate start_id end_id expires =
     and_then (sql_query (\<lambda>s. first_free start_id end_id (wg_configs s))) (\<lambda>available_id.
     case available_id of
       None \<Rightarrow> ok None
     | Some i \<Rightarrow>
         and_then now_rfc3339 (\<lambda>now_str.
         and_then (sql_exec (update_wg (upsert_lease i expires now_str))) (\<lambda>_.
         ok (Some \<lparr>peer_id = i, lease_expires = expires\<rparr>))))"

text \<open>\<open>{:?}\<close> of an \<open>Option<i64>\<close>.\<close>

definition show_option_int :: "int option \<Rightarrow> string" where
  "show_option_int x = (case x of None \<Rightarrow> ''None'' | Some i \<Rightarrow> ''Some('' @ show_int i @ '')'')"

definition exhausted_message :: "int \<Rightarrow> int \<Rightarrow> int option \<Rightarrow> string" where
  "exhausted_message start_id end_id earliest =
     ''All WireGuard peer slots ('' @ show_int start_id @ ''-'' @ show_int end_id
     @ '') exhausted. Earliest expiry: '' @ show_option_int earliest"

definition register_unlocked :: "int \<Rightarrow> int \<Rightarrow> int \<Rightarrow> ('z, wg_lease) db_op" where
  "register_unlocked start_id end_id expires =
     and_then (try_allocate start_id end_id expires) (\<lambda>first.
     case first of
       Some lease \<Rightarrow> ok lease
     | None \<Rightarrow>
         and_then cleanup_expired_wireguard_configs (\<lambda>_.
         and_then (try_allocate start_id end_id expires) (\<lambda>second.
         case second of
           Some lease \<Rightarrow> ok lease
         | None \<Rightarrow>
             and_then (attempt (sql_query (\<lambda>s. min_expiry (wg_configs s)))) (\<lambda>r.
             err (LeaseUnavailable (exhausted_message start_id end_id
                    (case r of Inl (e :: app_error) \<Rightarrow> None | Inr x \<Rightarrow> x)))))))"

definition register_wireguard_lease :: "int \<Rightarrow> int \<Rightarrow> int \<Rightarrow> ('z, wg_lease) db_op" where
  "register_wireguard_lease start_id end_id expires =
     with_lock ''register_wireguard_lease'' 60 (register_unlocked start_id end_id expires)"

definition extend_wireguard_lease :: "int \<Rightarrow> int \<Rightarrow> int \<Rightarrow> ('z, wg_lease) db_op" where
  "extend_wireguard_lease i expected new =
     and_then now_ms (\<lambda>now.
     and_then now_rfc3339 (\<lambda>now_str.
     and_then (sql (\<lambda>s. (extend_count i expected now (wg_configs s),
                         update_wg (extend_rows i expected new now now_str) s))) (\<lambda>affected.
     if affected = 0
     then err (LeaseUnavailable (''WireGuard lease extension failed for peer '' @ show_int i
                 @ '': lease not found, expired, or reallocated''))
     else ok \<lparr>peer_id = i, lease_expires = new\<rparr>)))"

definition mark_config_as_free :: "int \<Rightarrow> int option \<Rightarrow> ('z, unit) db_op" where
  "mark_config_as_free i expected = sql_exec (update_wg (delete_lease i expected))"

text \<open>\<open>fetch_all(pool).await.unwrap_or_default()\<close>: a failed query is an empty list.\<close>

definition check_open_leases :: "('z, wg_lease list) db_op" where
  "check_open_leases =
     and_then now_ms (\<lambda>now.
     and_then (attempt (sql_query (\<lambda>s. sort_key wg_expires_at
                (filter (\<lambda>r. wg_expires_at r > now) (wg_configs s))))) (\<lambda>r.
     ok (case r of Inl (e :: app_error) \<Rightarrow> []
         | Inr rows \<Rightarrow> map (\<lambda>r. \<lparr>peer_id = wg_id r, lease_expires = wg_expires_at r\<rparr>) rows)))"

definition expired_peer_ids :: "('z, int list) db_op" where
  "expired_peer_ids =
     and_then now_ms (\<lambda>now.
     sql_query (\<lambda>s. map wg_id (filter (\<lambda>r. wg_expires_at r < now) (wg_configs s))))"

subsection \<open>Invariant: one row per peer id\<close>

definition wg_ok :: "'z db_st_scheme \<Rightarrow> bool" where
  "wg_ok s \<longleftrightarrow> distinct (map wg_id (wg_configs s))"

definition lease_map :: "wg_row list \<Rightarrow> int \<rightharpoonup> int" where
  "lease_map rows = key_map wg_id wg_expires_at rows"

lemma map_id_upsert:
  "map wg_id (upsert_lease i e u rows) =
     (if i \<in> set (map wg_id rows) then map wg_id rows else map wg_id rows @ [i])"
  by (simp add: upsert_lease_def comp_def if_distrib [of wg_id] cong: if_cong)

lemma upsert_lease_ids: "set (map wg_id (upsert_lease i e u rows)) = insert i (set (map wg_id rows))"
  by (simp only: map_id_upsert) auto

lemma distinct_upsert: "distinct (map wg_id rows) \<Longrightarrow> distinct (map wg_id (upsert_lease i e u rows))"
  by (simp only: map_id_upsert) auto

lemma map_id_extend: "map wg_id (extend_rows i x n now u rows) = map wg_id rows"
  by (simp add: extend_rows_def comp_def)

lemma distinct_filter_ids: "distinct (map wg_id rows) \<Longrightarrow> distinct (map wg_id (filter P rows))"
  by (simp add: distinct_map_filter)

lemmas wg_distinct = distinct_upsert map_id_extend distinct_filter_ids

lemma env_blind_wg_ok [simp]: "env_blind wg_ok"
  by (simp add: env_blind_def wg_ok_def)

lemma keeps_wg_register [keeps_rules]: "keeps wg_ok (register_wireguard_lease a b e)"
  unfolding register_wireguard_lease_def register_unlocked_def try_allocate_def
    cleanup_expired_wireguard_configs_def
  by (intro keeps_rules env_blind_wg_ok)
    (simp_all add: update_wg_def wg_ok_def wg_distinct delete_expired_def)

lemma keeps_wg_extend [keeps_rules]: "keeps wg_ok (extend_wireguard_lease i x n)"
  unfolding extend_wireguard_lease_def
  by (intro keeps_rules env_blind_wg_ok) (simp_all add: update_wg_def wg_ok_def wg_distinct)

lemma keeps_wg_free [keeps_rules]: "keeps wg_ok (mark_config_as_free i x)"
  unfolding mark_config_as_free_def
  by (intro keeps_rules env_blind_wg_ok)
    (simp_all add: update_wg_def wg_ok_def wg_distinct delete_lease_def)

subsection \<open>The lease map under each statement\<close>

lemma lease_map_None: "lease_map rows i = None \<longleftrightarrow> i \<notin> set (map wg_id rows)"
  unfolding lease_map_def by (rule key_map_None)

lemma lease_map_upsert: "lease_map (upsert_lease i e u rows) = (lease_map rows)(i \<mapsto> e)"
proof (cases "i \<in> set (map wg_id rows)")
  case True
  have "lease_map (upsert_lease i e u rows) =
      key_map wg_id (\<lambda>r. if wg_id r = i then e else wg_expires_at r) rows"
    using True
    by (auto simp: upsert_lease_def lease_map_def key_map_map intro!: key_map_cong)
  with True show ?thesis by (simp add: key_map_update lease_map_def)
next
  case False
  then show ?thesis by (simp add: upsert_lease_def lease_map_def key_map_append_new)
qed

lemma lease_map_delete_expired:
  assumes "distinct (map wg_id rows)"
  shows "lease_map (delete_expired now rows) i =
    (case lease_map rows i of None \<Rightarrow> None | Some e \<Rightarrow> if e < now then None else Some e)"
  unfolding delete_expired_def lease_map_def key_map_filter [OF assms] key_map_find [of _ _ rows]
  by (simp split: option.split)

lemma lease_map_delete_lease:
  assumes "distinct (map wg_id rows)"
  shows "lease_map (delete_lease i x rows) j =
    (if j = i \<and> (x = None \<or> lease_map rows i = x) then None else lease_map rows j)"
proof (cases "j = i")
  case True
  then show ?thesis
    unfolding delete_lease_def lease_map_def key_map_filter [OF assms] key_map_find [of _ _ rows]
    by (auto split: option.split dest: find_SomeD)
next
  case False
  then show ?thesis
    unfolding delete_lease_def lease_map_def key_map_filter [OF assms] key_map_find [of _ _ rows]
    by (auto split: option.split dest: find_SomeD)
qed

lemma lease_map_extend:
  assumes "distinct (map wg_id rows)"
  shows "lease_map (extend_rows i x n now u rows) =
    (if lease_map rows i = Some x \<and> now < x then (lease_map rows)(i \<mapsto> n) else lease_map rows)"
proof -
  have "lease_map (extend_rows i x n now u rows) =
      key_map wg_id (\<lambda>r. if wg_id r = i \<and> (\<lambda>e. e = x \<and> e > now) (wg_expires_at r)
                         then n else wg_expires_at r) rows"
    unfolding extend_rows_def lease_map_def
    by (subst key_map_map) (auto intro!: key_map_cong)
  also have "\<dots> = (case lease_map rows i of
        Some e \<Rightarrow> if e = x \<and> e > now then (lease_map rows)(i \<mapsto> n) else lease_map rows
      | None \<Rightarrow> lease_map rows)"
    unfolding lease_map_def by (rule key_map_update_if [OF assms])
  finally show ?thesis by (auto split: option.split)
qed

lemma extend_count_pos:
  assumes "distinct (map wg_id rows)"
  shows "extend_count i x now rows = 0 \<longleftrightarrow> \<not> (lease_map rows i = Some x \<and> now < x)"
  unfolding extend_count_def lease_map_def
  using filter_count_key [OF assms, of i "\<lambda>e. e = x \<and> e > now" wg_expires_at] by auto

subsection \<open>The table after each operation\<close>

lemma try_allocate_Inr:
  assumes "try_allocate a b e s = (Inr x, t)"
  shows "(x = None \<and> first_free a b (wg_configs s) = None \<and> wg_configs t = wg_configs s \<and>
            clock t = clock s \<and> clock_pos t = clock_pos s) \<or>
         (\<exists>i u. x = Some \<lparr>peer_id = i, lease_expires = e\<rparr> \<and> first_free a b (wg_configs s) = Some i \<and>
            wg_configs t = upsert_lease i e u (wg_configs s))"
  using assms
  by (auto simp: try_allocate_def inv_simps update_wg_def split: option.splits)

lemma try_allocate_Inl:
  assumes "try_allocate a b e s = (Inl x, t)"
  shows "wg_configs t = wg_configs s" and "\<exists>m. x = Db m"
  using assms
  by (auto simp: try_allocate_def inv_simps update_wg_def split: option.splits)

lemma cleanup_Inr:
  assumes "cleanup_expired_wireguard_configs s = (Inr n, t)"
  shows "wg_configs t = delete_expired (clock s (clock_pos s)) (wg_configs s)"
  using assms by (auto simp: cleanup_expired_wireguard_configs_def inv_simps update_wg_def)

text \<open>
  A successful registration inserts one row, at the first free id of the range, either into
  the table as it is or, when no id is free, into the table without its expired rows.
\<close>

lemma register_unlocked_Inr:
  assumes "register_unlocked a b e s = (Inr l, t)"
  shows "\<exists>rows i u. (rows = wg_configs s \<or>
            (first_free a b (wg_configs s) = None \<and>
             rows = delete_expired (clock s (clock_pos s)) (wg_configs s))) \<and>
          first_free a b rows = Some i \<and> l = \<lparr>peer_id = i, lease_expires = e\<rparr> \<and>
          wg_configs t = upsert_lease i e u rows"
proof -
  let ?now = "clock s (clock_pos s)"
  from assms obtain x s1 where 1: "try_allocate a b e s = (Inr x, s1)"
    and rest: "(case x of Some lease \<Rightarrow> ok lease s1 = (Inr l, t) | None \<Rightarrow> True)"
    and retry: "x = None \<Longrightarrow> \<exists>n s2 y. cleanup_expired_wireguard_configs s1 = (Inr n, s2) \<and>
      try_allocate a b e s2 = (Inr y, t) \<and> y = Some l"
    by (fastforce simp: register_unlocked_def inv_simps split: option.splits)
  show ?thesis
  proof (cases x)
    case (Some lease)
    then show ?thesis using try_allocate_Inr [OF 1] rest by (auto simp: run_simps)
  next
    case None
    with try_allocate_Inr [OF 1] have f: "first_free a b (wg_configs s) = None"
      and s1: "wg_configs s1 = wg_configs s" "clock s1 = clock s" "clock_pos s1 = clock_pos s"
      by auto
    from retry [OF None] obtain n s2 where 2: "cleanup_expired_wireguard_configs s1 = (Inr n, s2)"
      and 3: "try_allocate a b e s2 = (Inr (Some l), t)" by blast
    from cleanup_Inr [OF 2] s1 have "wg_configs s2 = delete_expired ?now (wg_configs s)" by simp
    with try_allocate_Inr [OF 3] f show ?thesis by auto
  qed
qed

lemma register_Inr:
  assumes "register_wireguard_lease a b e s = (Inr l, t)"
  shows "\<exists>rows i u. (rows = wg_configs s \<or>
            (first_free a b (wg_configs s) = None \<and>
             rows = delete_expired (clock s (clock_pos s)) (wg_configs s))) \<and>
          first_free a b rows = Some i \<and> l = \<lparr>peer_id = i, lease_expires = e\<rparr> \<and>
          wg_configs t = upsert_lease i e u rows"
proof -
  from assms have "register_unlocked a b e (locked_state ''register_wireguard_lease'' s) = (Inr l, t)"
    by (simp add: register_wireguard_lease_def run_with_lock split: if_splits)
  from register_unlocked_Inr [OF this] show ?thesis by simp
qed

lemma first_free_Some:
  "first_free a b rows = Some i \<longleftrightarrow>
     a \<le> i \<and> i \<le> max a b \<and> i \<notin> set (map wg_id rows) \<and>
     (\<forall>j. a \<le> j \<and> j < i \<longrightarrow> j \<in> set (map wg_id rows))"
  by (auto simp: first_free_def id_range_def find_upto_Some)

lemma first_free_None:
  "first_free a b rows = None \<longleftrightarrow> (\<forall>i. a \<le> i \<and> i \<le> max a b \<longrightarrow> i \<in> set (map wg_id rows))"
  by (auto simp: first_free_def id_range_def find_upto_None)

subsection \<open>Running without faults\<close>

lemma try_allocate_run:
  assumes "no_faults s"
  shows "try_allocate a b e s =
    (case first_free a b (wg_configs s) of
       None \<Rightarrow> (Inr None, s\<lparr>db_pos := Suc (db_pos s)\<rparr>)
     | Some i \<Rightarrow>
         (Inr (Some \<lparr>peer_id = i, lease_expires = e\<rparr>),
          s\<lparr>db_pos := Suc (Suc (db_pos s)), clock_pos := Suc (clock_pos s),
            wg_configs := upsert_lease i e (ext_rfc3339 (ext s) (clock_pos s)) (wg_configs s)\<rparr>))"
  using assms
  by (simp add: try_allocate_def no_faults_def run_simps seq_simps update_wg_def split: option.split)

lemma cleanup_run:
  assumes "no_faults s"
  shows "cleanup_expired_wireguard_configs s =
    (Inr (length (filter (\<lambda>r. wg_expires_at r < clock s (clock_pos s)) (wg_configs s))),
     s\<lparr>clock_pos := Suc (clock_pos s), db_pos := Suc (db_pos s),
       wg_configs := delete_expired (clock s (clock_pos s)) (wg_configs s)\<rparr>)"
  using assms
  by (simp add: cleanup_expired_wireguard_configs_def no_faults_def run_simps seq_simps update_wg_def)

lemma register_unlocked_run:
  assumes "no_faults s"
  shows "register_unlocked a b e s =
    (let now = clock s (clock_pos s); rows = wg_configs s; purged = delete_expired now rows in
     case first_free a b rows of
       Some i \<Rightarrow>
         (Inr \<lparr>peer_id = i, lease_expires = e\<rparr>,
          s\<lparr>db_pos := Suc (Suc (db_pos s)), clock_pos := Suc (clock_pos s),
            wg_configs := upsert_lease i e (ext_rfc3339 (ext s) (clock_pos s)) rows\<rparr>)
     | None \<Rightarrow>
         (case first_free a b purged of
            Some i \<Rightarrow>
              (Inr \<lparr>peer_id = i, lease_expires = e\<rparr>,
               s\<lparr>db_pos := db_pos s + 4, clock_pos := clock_pos s + 2,
                 wg_configs := upsert_lease i e (ext_rfc3339 (ext s) (Suc (clock_pos s))) purged\<rparr>)
          | None \<Rightarrow>
              (Inl (LeaseUnavailable (exhausted_message a b (min_expiry purged))),
               s\<lparr>db_pos := db_pos s + 4, clock_pos := Suc (clock_pos s), wg_configs := purged\<rparr>)))"
proof -
  have nf: "no_faults (s\<lparr>db_pos := k\<rparr>)" "no_faults (s\<lparr>clock_pos := j, db_pos := k, wg_configs := rs\<rparr>)" for k j rs
    using assms by (simp_all add: no_faults_def)
  show ?thesis
    using assms nf
    by (simp add: register_unlocked_def seq_simps run_simps try_allocate_run cleanup_run Let_def
        no_faults_def numeral_eq_Suc split: option.split)
qed

subsection \<open>Abstract specification of slot allocation\<close>

text \<open>
  On the map from peer ids to expiry times: take the first id of the range that has no
  lease; if there is none, drop the leases that have expired and try once more.
\<close>

definition free_slot :: "int \<Rightarrow> int \<Rightarrow> (int \<rightharpoonup> int) \<Rightarrow> int option" where
  "free_slot a b m = find (\<lambda>i. m i = None) (id_range a b)"

definition purge :: "int \<Rightarrow> (int \<rightharpoonup> int) \<Rightarrow> (int \<rightharpoonup> int)" where
  "purge now m = (\<lambda>i. case m i of None \<Rightarrow> None | Some e \<Rightarrow> if e < now then None else Some e)"

definition abs_register :: "int \<Rightarrow> int \<Rightarrow> int \<Rightarrow> int \<Rightarrow> (int \<rightharpoonup> int) \<Rightarrow> int option \<times> (int \<rightharpoonup> int)" where
  "abs_register a b e now m =
     (case free_slot a b m of
        Some i \<Rightarrow> (Some i, m(i \<mapsto> e))
      | None \<Rightarrow>
          (case free_slot a b (purge now m) of
             Some i \<Rightarrow> (Some i, (purge now m)(i \<mapsto> e))
           | None \<Rightarrow> (None, purge now m)))"

lemma free_slot_lease_map: "free_slot a b (lease_map rows) = first_free a b rows"
  by (simp add: free_slot_def first_free_def lease_map_None)

lemma lease_map_purge:
  "distinct (map wg_id rows) \<Longrightarrow> lease_map (delete_expired now rows) = purge now (lease_map rows)"
  by (simp add: fun_eq_iff purge_def lease_map_delete_expired)

interpretation wg_store: lease_store "\<lambda>s. lease_map (wg_configs s)" extend_wireguard_lease wg_ok
    "\<lambda>s. db_fault s (db_pos s) = None" "\<lambda>s. clock s (clock_pos s)"
proof
  fix s :: "'z db_st_scheme" and k old new
  let ?c = "clock s (clock_pos s)"
  assume wf: "wg_ok s"
  then have d: "distinct (map wg_id (wg_configs s))" by (simp add: wg_ok_def)
  show "wg_ok (snd (extend_wireguard_lease k old new s))"
    using keepsD [OF keeps_wg_extend wf] .
  show "\<exists>r t. extend_wireguard_lease k old new s = (Inr r, t) \<and>
      lease_map (wg_configs t) = (lease_map (wg_configs s))(k \<mapsto> new)"
    if "db_fault s (db_pos s) = None" "lease_map (wg_configs s) k = Some old" "?c < old"
    using that d by (simp add: extend_wireguard_lease_def run_simps seq_simps update_wg_def
        extend_count_pos lease_map_extend)
  show "\<exists>m t. extend_wireguard_lease k old new s = (Inl (LeaseUnavailable m), t) \<and>
      lease_map (wg_configs t) = lease_map (wg_configs s)"
    if "db_fault s (db_pos s) = None" "lease_map (wg_configs s) k \<noteq> Some old \<or> old \<le> ?c"
    using that d by (auto simp: extend_wireguard_lease_def run_simps seq_simps update_wg_def
        extend_count_pos lease_map_extend)
  show "\<exists>m t. extend_wireguard_lease k old new s = (Inl (Db m), t) \<and>
      lease_map (wg_configs t) = lease_map (wg_configs s)"
    if "db_fault s (db_pos s) \<noteq> None"
    using that by (auto simp: extend_wireguard_lease_def run_simps seq_simps)
qed

subsection \<open>Properties\<close>

text \<open>C1: Without statement faults and lock timeouts, \<open>register_wireguard_lease\<close> computes the
  abstract allocation on the map from peer ids to expiry times: it takes the least free id of
  the range, or after dropping the expired leases the least id that is free then, and it
  reports \<open>LeaseUnavailable\<close> exactly when every id of the range has a lease that has not
  expired.\<close>

theorem register_refines_spec:
  assumes "wg_ok s" and "no_faults s" and "\<not> lock_timeout s (lock_pos s)"
  shows "case abs_register a b e (clock s (clock_pos s)) (lease_map (wg_configs s)) of
      (Some i, m) \<Rightarrow>
        \<exists>t. register_wireguard_lease a b e s = (Inr \<lparr>peer_id = i, lease_expires = e\<rparr>, t) \<and>
            lease_map (wg_configs t) = m
    | (None, m) \<Rightarrow>
        \<exists>x t. register_wireguard_lease a b e s = (Inl (LeaseUnavailable (exhausted_message a b x)), t) \<and>
            lease_map (wg_configs t) = m"
proof -
  let ?s = "locked_state ''register_wireguard_lease'' s"
  have nf: "no_faults ?s" and d: "distinct (map wg_id (wg_configs s))"
    using assms by (simp_all add: no_faults_def wg_ok_def)
  have purge: "first_free a b (delete_expired now (wg_configs s)) =
      free_slot a b (purge now (lease_map (wg_configs s)))" for now
    using d by (simp add: lease_map_purge [symmetric] free_slot_lease_map)
  show ?thesis
    using assms(3) d
    by (auto simp: register_wireguard_lease_def run_with_lock register_unlocked_run [OF nf] Let_def
        abs_register_def free_slot_lease_map purge lease_map_upsert lease_map_purge split: option.split)
qed

theorem register_refines_spec_witness:
  "\<exists>t. register_wireguard_lease 1 2 9000 (demo_db\<lparr>wg_configs := [demo_row 2 500, demo_row 1 8000]\<rparr>) =
         (Inr \<lparr>peer_id = 2, lease_expires = 9000\<rparr>, t) \<and>
       lease_map (wg_configs t) = [1 \<mapsto> 8000, 2 \<mapsto> 9000]"
proof -
  let ?s = "demo_db\<lparr>wg_configs := [demo_row 2 500, demo_row 1 8000]\<rparr>"
  have "wg_ok ?s" "no_faults ?s" "\<not> lock_timeout ?s (lock_pos ?s)"
    by (simp_all add: wg_ok_def demo_row_def no_faults_def)
  note register_refines_spec [OF this, of 1 2 9000]
  moreover have "abs_register 1 2 9000 (clock ?s (clock_pos ?s)) (lease_map (wg_configs ?s)) =
      (Some 2, [1 \<mapsto> 8000, 2 \<mapsto> 9000])"
    by (auto simp: abs_register_def free_slot_def id_range_def upto_rec1 lease_map_def demo_row_def
        purge_def fun_eq_iff)
  ultimately show ?thesis by simp
qed

text \<open>C21: Whatever statements fail on the way, a lease that is handed out has an id of the
  requested range, carries the requested expiry and is in the table, and no row whose lease is
  still running is given away or altered: all rows that have not expired at the first clock
  reading of the call are in the table afterwards, under other ids.\<close>

theorem register_keeps_live_leases:
  assumes "register_wireguard_lease a b e s = (Inr l, t)"
  shows "a \<le> peer_id l \<and> peer_id l \<le> max a b \<and> lease_expires l = e \<and>
         lease_map (wg_configs t) (peer_id l) = Some e \<and>
         {r \<in> set (wg_configs s). clock s (clock_pos s) \<le> wg_expires_at r} \<subseteq>
         {r \<in> set (wg_configs t). wg_id r \<noteq> peer_id l}"
proof -
  from register_Inr [OF assms] obtain rows i u where
    rows: "rows = wg_configs s \<or> rows = delete_expired (clock s (clock_pos s)) (wg_configs s)"
    and i: "first_free a b rows = Some i" and l: "l = \<lparr>peer_id = i, lease_expires = e\<rparr>"
    and t: "wg_configs t = upsert_lease i e u rows" by blast
  from i have "i \<notin> set (map wg_id rows)" and range: "a \<le> i" "i \<le> max a b"
    by (auto simp: first_free_Some)
  then have "set rows \<subseteq> {r \<in> set (wg_configs t). wg_id r \<noteq> i}"
    by (auto simp: t upsert_lease_def)
  moreover have "{r \<in> set (wg_configs s). clock s (clock_pos s) \<le> wg_expires_at r} \<subseteq> set rows"
    using rows by (auto simp: delete_expired_def)
  ultimately show ?thesis
    using range by (auto simp: l t lease_map_upsert)
qed

theorem register_keeps_live_leases_witness:
  "\<exists>t. register_wireguard_lease 1 2 9000 (demo_db\<lparr>wg_configs := [demo_row 2 500, demo_row 1 8000]\<rparr>) =
         (Inr \<lparr>peer_id = 2, lease_expires = 9000\<rparr>, t) \<and> demo_row 1 8000 \<in> set (wg_configs t)"
proof -
  let ?s = "demo_db\<lparr>wg_configs := [demo_row 2 500, demo_row 1 8000]\<rparr>"
  have free: "first_free 1 2 (wg_configs ?s) = None"
    and purged: "first_free 1 2 (delete_expired 1000 (wg_configs ?s)) = Some 2"
    by (simp_all add: first_free_def id_range_def upto_rec1 demo_row_def delete_expired_def)
  have "no_faults (locked_state ''register_wireguard_lease'' ?s)"
    by (simp add: no_faults_def)
  then have "\<exists>t. register_wireguard_lease 1 2 9000 ?s = (Inr \<lparr>peer_id = 2, lease_expires = 9000\<rparr>, t)"
    using free purged
    by (simp add: register_wireguard_lease_def run_with_lock register_unlocked_run Let_def)
  then obtain t where t: "register_wireguard_lease 1 2 9000 ?s = (Inr \<lparr>peer_id = 2, lease_expires = 9000\<rparr>, t)"
    by blast
  have "demo_row 1 8000 \<in> {r \<in> set (wg_configs ?s). clock ?s (clock_pos ?s) \<le> wg_expires_at r}"
    by (simp add: demo_row_def)
  with register_keeps_live_leases [OF t] have "demo_row 1 8000 \<in> set (wg_configs t)"
    by blast
  with t show ?thesis by blast
qed

text \<open>C27: A WireGuard lease is extended under an optimistic lock: a request that succeeds found
  the lease with exactly the expiry it named, still in the future, and moved it; afterwards a
  second request that names the old expiry fails and changes no lease.\<close>

theorem wg_extend_optimistic:
  assumes "wg_ok s" and "extend_wireguard_lease i old new s = (Inr r, t)" and "new \<noteq> old"
  shows "lease_map (wg_configs s) i = Some old \<and> clock s (clock_pos s) < old \<and>
         lease_map (wg_configs t) = (lease_map (wg_configs s))(i \<mapsto> new) \<and>
         (\<exists>e u. extend_wireguard_lease i old new' t = (Inl e, u) \<and>
                lease_map (wg_configs u) = lease_map (wg_configs t))"
  using wg_store.extend_InrD [OF assms(1,2)] wg_store.stale_extend_fails [OF assms] by blast

theorem wg_extend_optimistic_witness:
  "\<exists>r t. extend_wireguard_lease 4 8000 9000 (demo_db\<lparr>wg_configs := [demo_row 4 8000]\<rparr>) = (Inr r, t) \<and>
     (\<exists>e u. extend_wireguard_lease 4 8000 9500 t = (Inl e, u) \<and>
            lease_map (wg_configs u) = lease_map (wg_configs t))"
proof -
  let ?s = "demo_db\<lparr>wg_configs := [demo_row 4 8000]\<rparr>"
  have ok: "wg_ok ?s" by (simp add: wg_ok_def)
  obtain r t where "extend_wireguard_lease 4 8000 9000 ?s = (Inr r, t)"
    using wg_store.extend_hit [OF ok, of 4 8000 9000]
    by (auto simp: lease_map_def demo_row_def)
  with wg_extend_optimistic [OF ok this, of 9500] show ?thesis by auto
qed

text \<open>\<open>check_open_leases\<close> lists exactly the leases that lie in the future, by increasing
  expiry.\<close>

theorem check_open_leases_spec:
  assumes "db_fault s (db_pos s) = None"
  shows "\<exists>ls t. check_open_leases s = (Inr ls, t) \<and> wg_configs t = wg_configs s \<and>
           sorted (map lease_expires ls) \<and>
           mset ls = {#\<lparr>peer_id = wg_id r, lease_expires = wg_expires_at r\<rparr>.
                       r \<in># filter_mset (\<lambda>r. clock s (clock_pos s) < wg_expires_at r) (mset (wg_configs s))#}"
proof -
  have "check_open_leases s =
    (Inr (map (\<lambda>r. \<lparr>peer_id = wg_id r, lease_expires = wg_expires_at r\<rparr>)
            (sort_key wg_expires_at (filter (\<lambda>r. wg_expires_at r > clock s (clock_pos s)) (wg_configs s)))),
     s\<lparr>clock_pos := Suc (clock_pos s), db_pos := Suc (db_pos s)\<rparr>)"
    using assms by (simp add: check_open_leases_def run_simps seq_simps)
  then show ?thesis
    by (simp add: comp_def)
qed

theorem check_open_leases_witness:
  "\<exists>ls t. check_open_leases (demo_db\<lparr>wg_configs := [demo_row 3 500, demo_row 4 8000]\<rparr>) = (Inr ls, t) \<and>
     mset ls = {#\<lparr>peer_id = 4, lease_expires = 8000\<rparr>#}"
  using check_open_leases_spec [of "demo_db\<lparr>wg_configs := [demo_row 3 500, demo_row 4 8000]\<rparr>"]
  by (auto simp: demo_row_def)

end
