(* ===== verification/Db_Socks5.thy ===== *)
theory Db_Socks5
  imports Locks Lease_Store
begin

text \<open>
  The SOCKS5 credential table of \<open>src/src/db/socks5.rs\<close>: shared priority slots (the
  first \<open>priority_slots\<close> available rows), exclusive allocation behind them, extension under
  an optimistic lock, release of expired leases and the batch upsert.
\<close>

record socks5_lease_extension =
  ext_username :: string
  ext_expires_at :: int

subsection \<open>Statements\<close>

text \<open>
  \<open>WHERE available = TRUE ORDER BY id ASC\<close>, then \<open>LIMIT\<close> (a negative limit is no limit)
  and \<open>OFFSET\<close> (a negative offset is none).
\<close>

definition available_rows :: "socks5_config list \<Rightarrow> socks5_config list" where
  "available_rows rows = sort_key sock_id (filter available rows)"

definition sql_limit :: "int \<Rightarrow> 'a list \<Rightarrow> 'a list" where
  "sql_limit n xs = (if n < 0 then xs else take (nat n) xs)"

definition sql_offset :: "int \<Rightarrow> 'a list \<Rightarrow> 'a list" where
  "sql_offset n xs = drop (nat n) xs"

definition priority_rows :: "int \<Rightarrow> socks5_config list \<Rightarrow> socks5_config list" where
  "priority_rows slots rows = sql_limit slots (available_rows rows)"

definition next_exclusive :: "int \<Rightarrow> socks5_config list \<Rightarrow> socks5_config option" where
  "next_exclusive slots rows =
     (case sql_offset slots (available_rows rows) of [] \<Rightarrow> None | r # _ \<Rightarrow> Some r)"

definition touch_lease :: "int \<Rightarrow> int \<Rightarrow> string \<Rightarrow> socks5_config list \<Rightarrow> socks5_config list" where
  "touch_lease e now u rows =
     map (\<lambda>r. if username r = u then r\<lparr>expires_at := e, updated := now\<rparr> else r) rows"

definition take_exclusive ::
    "int \<Rightarrow> int \<Rightarrow> string \<Rightarrow> string \<Rightarrow> socks5_config list \<Rightarrow> socks5_config list" where
  "take_exclusive e now u p rows =
     map (\<lambda>r. if username r = u \<and> password r = p
              then r\<lparr>available := False, expires_at := e, updated := now\<rparr> else r) rows"

definition extend_hits :: "string \<Rightarrow> int \<Rightarrow> int \<Rightarrow> socks5_config \<Rightarrow> bool" where
  "extend_hits u expected now r \<longleftrightarrow> username r = u \<and> expires_at r = expected \<and> expires_at r > now"

definition extend_socks :: "string \<Rightarrow> int \<Rightarrow> int \<Rightarrow> int \<Rightarrow> socks5_config list \<Rightarrow> socks5_config list" where
  "extend_socks u expected new now rows =
     map (\<lambda>r. if extend_hits u expected now r then r\<lparr>expires_at := new, updated := now\<rparr> else r) rows"

definition release_expired :: "int \<Rightarrow> socks5_config list \<Rightarrow> socks5_config list" where
  "release_expired now rows =
     map (\<lambda>r. if expires_at r > 0 \<and> expires_at r \<le> now then r\<lparr>available := True, expires_at := 0\<rparr> else r) rows"

text \<open>
  \<open>INSERT \<dots> ON CONFLICT (username) DO UPDATE SET password = \<dots>, updated = \<dots>\<close>: an existing
  row keeps its id, host, port, availability and expiry; a new row gets the next id of the
  AUTOINCREMENT sequence.
\<close>

definition upsert_sock :: "int \<Rightarrow> socks5_config \<Rightarrow> 'z db_st_scheme \<Rightarrow> 'z db_st_scheme" where
  "upsert_sock now c s =
     (if username c \<in> set (map username (socks_configs s))
      then s\<lparr>socks_configs := map (\<lambda>r. if username r = username c
                                      then r\<lparr>password := password c, updated := now\<rparr> else r)
                                 (socks_configs s)\<rparr>
      else s\<lparr>socks_configs := socks_configs s @ [c\<lparr>sock_id := socks_seq s + 1, updated := now\<rparr>],
             socks_seq := socks_seq s + 1\<rparr>)"

definition keep_usernames :: "string list \<Rightarrow> socks5_config list \<Rightarrow> socks5_config list" where
  "keep_usernames us rows = filter (\<lambda>r. username r \<in> set us) rows"

definition update_socks ::
    "(socks5_config list \<Rightarrow> socks5_config list) \<Rightarrow> 'z db_st_scheme \<Rightarrow> 'z db_st_scheme" where
  "update_socks f s = s\<lparr>socks_configs := f (socks_configs s)\<rparr>"

subsection \<open>Operations\<close>

definition cleanup_expired_socks5_configs :: "('z, nat) db_op" where
  "cleanup_expired_socks5_configs =
     and_then now_ms (\<lambda>now.
     sql (\<lambda>s. (length (filter (\<lambda>r. expires_at r > 0 \<and> expires_at r \<le> now) (socks_configs s)),
               update_socks (release_expired now) s)))"

text \<open>\<open>configs.choose(&mut rng).unwrap()\<close> draws an index of the non-empty list.\<close>

definition get_socks5_config_priority :: "int \<Rightarrow> int \<Rightarrow> ('z, socks5_config) db_op" where
  "get_socks5_config_priority e slots =
     and_then (sql_query (\<lambda>s. priority_rows slots (socks_configs s))) (\<lambda>configs.
     if configs = [] then err (LeaseUnavailable ''No priority SOCKS5 configs available'')
     else
       and_then (random_below (length configs)) (\<lambda>k.
       let config = configs ! k in
       and_then now_ms (\<lambda>now.
       and_then (sql_exec (update_socks (touch_lease e now (username config)))) (\<lambda>_.
       ok config))))"

text \<open>The guarded part of the non-priority path: find a row, releasing expired leases if there is none.\<close>

definition find_exclusive :: "int \<Rightarrow> ('z, socks5_config) db_op" where
  "find_exclusive slots =
     and_then (sql_query (\<lambda>s. next_exclusive slots (socks_configs s))) (\<lambda>first.
     case first of
       Some c \<Rightarrow> ok c
     | None \<Rightarrow>
         and_then cleanup_expired_socks5_configs (\<lambda>_.
         and_then (sql_query (\<lambda>s. next_exclusive slots (socks_configs s))) (\<lambda>retried.
         ok_or (LeaseUnavailable ''No non-priority SOCKS5 configs available'') retried)))"

definition get_socks5_config_non_priority :: "int \<Rightarrow> int \<Rightarrow> ('z, socks5_config) db_op" where
  "get_socks5_config_non_priority e slots =
     with_lock ''get_socks5_config'' 30
       (and_then (find_exclusive slots) (\<lambda>config.
        and_then now_ms (\<lambda>now.
        and_then (sql_exec (update_socks (take_exclusive e now (username config) (password config)))) (\<lambda>_.
        ok config))))"

definition get_socks5_config :: "int \<Rightarrow> bool \<Rightarrow> int \<Rightarrow> ('z, socks5_config) db_op" where
  "get_socks5_config e priority slots =
     (if priority then get_socks5_config_priority e slots
      else get_socks5_config_non_priority e slots)"

definition extend_socks5_lease :: "string \<Rightarrow> int \<Rightarrow> int \<Rightarrow> ('z, socks5_lease_extension) db_op" where
  "extend_socks5_lease u expected new =
     and_then now_ms (\<lambda>now.
     and_then (sql (\<lambda>s. (length (filter (extend_hits u expected now) (socks_configs s)),
                         update_socks (extend_socks u expected new now) s))) (\<lambda>affected.
     if affected = 0
     then err (LeaseUnavailable (''SOCKS5 lease extension failed for '' @ u
                 @ '': not found, expired, or reallocated''))
     else ok \<lparr>ext_username = u, ext_expires_at = new\<rparr>))"

definition read_socks5_config_by_username :: "string \<Rightarrow> ('z, socks5_config option) db_op" where
  "read_socks5_config_by_username u =
     sql_query (\<lambda>s. find (\<lambda>r. username r = u) (socks_configs s))"

definition write_socks :: "socks5_config list \<Rightarrow> ('z, unit) db_op" where
  "write_socks socks =
     (if socks = [] then ok ()
      else
        and_then now_ms (\<lambda>now.
        and_then (for_each (\<lambda>c. sql_exec (upsert_sock now c)) socks) (\<lambda>_.
        sql_exec (update_socks (keep_usernames (map username socks))))))"

definition count_available_socks :: "int \<Rightarrow> ('z, int) db_op" where
  "count_available_socks skip =
     sql_query (\<lambda>s. int (length (sql_offset skip (available_rows (socks_configs s)))))"

subsection \<open>Invariant: ids and user names are unique\<close>

definition socks_ok :: "'z db_st_scheme \<Rightarrow> bool" where
  "socks_ok s \<longleftrightarrow>
     distinct (map sock_id (socks_configs s)) \<and> distinct (map username (socks_configs s)) \<and>
     (\<forall>i \<in> set (map sock_id (socks_configs s)). i \<le> socks_seq s)"

lemma env_blind_socks_ok [simp]: "env_blind socks_ok"
  by (simp add: env_blind_def socks_ok_def)

lemma row_maps_keep:
  "map sock_id (touch_lease e n u rows) = map sock_id rows"
  "map username (touch_lease e n u rows) = map username rows"
  "map sock_id (take_exclusive e n u p rows) = map sock_id rows"
  "map username (take_exclusive e n u p rows) = map username rows"
  "map sock_id (extend_socks u x w n rows) = map sock_id rows"
  "map username (extend_socks u x w n rows) = map username rows"
  "map sock_id (release_expired n rows) = map sock_id rows"
  "map username (release_expired n rows) = map username rows"
  by (simp_all add: touch_lease_def take_exclusive_def extend_socks_def release_expired_def)

lemma socks_ok_update:
  "map sock_id (f (socks_configs s)) = map sock_id (socks_configs s) \<Longrightarrow>
   map username (f (socks_configs s)) = map username (socks_configs s) \<Longrightarrow>
   socks_ok s \<Longrightarrow> socks_ok (update_socks f s)"
  by (simp add: socks_ok_def update_socks_def)

lemma socks_ok_upsert: "socks_ok s \<Longrightarrow> socks_ok (upsert_sock now c s)"
proof -
  assume ok: "socks_ok s"
  let ?up = "map (\<lambda>r. if username r = username c then r\<lparr>password := password c, updated := now\<rparr> else r)
               (socks_configs s)"
  have "map sock_id ?up = map sock_id (socks_configs s)" "map username ?up = map username (socks_configs s)"
    by auto
  with ok show ?thesis
    by (auto simp: upsert_sock_def socks_ok_def simp del: map_map)
qed

lemma socks_ok_filter: "socks_ok s \<Longrightarrow> socks_ok (update_socks (filter P) s)"
  by (auto simp: socks_ok_def update_socks_def distinct_map_filter)

lemma keeps_socks_cleanup [keeps_rules]: "keeps socks_ok cleanup_expired_socks5_configs"
  unfolding cleanup_expired_socks5_configs_def
  by (intro keeps_rules env_blind_socks_ok) (simp add: socks_ok_update row_maps_keep)

lemma keeps_socks_get [keeps_rules]: "keeps socks_ok (get_socks5_config e pr slots)"
  unfolding get_socks5_config_def get_socks5_config_priority_def get_socks5_config_non_priority_def
    find_exclusive_def Let_def
  by (intro keeps_rules env_blind_socks_ok) (simp_all add: socks_ok_update row_maps_keep)

lemma keeps_socks_extend [keeps_rules]: "keeps socks_ok (extend_socks5_lease u x n)"
  unfolding extend_socks5_lease_def
  by (intro keeps_rules env_blind_socks_ok) (simp_all add: socks_ok_update row_maps_keep)

lemma keeps_socks_write [keeps_rules]: "keeps socks_ok (write_socks cs)"
  unfolding write_socks_def keep_usernames_def
  by (intro keeps_rules env_blind_socks_ok) (simp_all add: socks_ok_upsert socks_ok_filter)

subsection \<open>Leases by user name\<close>

definition sock_expiry :: "socks5_config list \<Rightarrow> string \<rightharpoonup> int" where
  "sock_expiry rows = key_map username expires_at rows"

definition sock_password :: "socks5_config list \<Rightarrow> string \<rightharpoonup> string" where
  "sock_password rows = key_map username password rows"

lemma sock_expiry_extend:
  assumes "distinct (map username rows)"
  shows "sock_expiry (extend_socks u x w n rows) =
    (if sock_expiry rows u = Some x \<and> n < x then (sock_expiry rows)(u \<mapsto> w) else sock_expiry rows)"
proof -
  have "sock_expiry (extend_socks u x w n rows) =
      key_map username (\<lambda>r. if username r = u \<and> (\<lambda>e. e = x \<and> e > n) (expires_at r)
                           then w else expires_at r) rows"
    unfolding extend_socks_def extend_hits_def sock_expiry_def
    by (subst key_map_map) (auto intro!: key_map_cong)
  also have "\<dots> = (case sock_expiry rows u of
        Some e \<Rightarrow> if e = x \<and> e > n then (sock_expiry rows)(u \<mapsto> w) else sock_expiry rows
      | None \<Rightarrow> sock_expiry rows)"
    unfolding sock_expiry_def by (rule key_map_update_if [OF assms])
  finally show ?thesis by (auto split: option.split)
qed

lemma extend_hits_count:
  assumes "distinct (map username rows)"
  shows "filter (extend_hits u x n) rows = [] \<longleftrightarrow> \<not> (sock_expiry rows u = Some x \<and> n < x)"
  unfolding extend_hits_def sock_expiry_def
  using filter_count_key [OF assms, of u "\<lambda>e. e = x \<and> e > n" expires_at] by auto

interpretation socks_store: lease_store "\<lambda>s. sock_expiry (socks_configs s)" extend_socks5_lease socks_ok
    "\<lambda>s. db_fault s (db_pos s) = None" "\<lambda>s. clock s (clock_pos s)"
proof
  fix s :: "'z db_st_scheme" and k old new
  let ?c = "clock s (clock_pos s)"
  assume wf: "socks_ok s"
  then have d: "distinct (map username (socks_configs s))" by (simp add: socks_ok_def)
  show "socks_ok (snd (extend_socks5_lease k old new s))"
    using keepsD [OF keeps_socks_extend wf] .
  show "\<exists>r t. extend_socks5_lease k old new s = (Inr r, t) \<and>
      sock_expiry (socks_configs t) = (sock_expiry (socks_configs s))(k \<mapsto> new)"
    if "db_fault s (db_pos s) = None" "sock_expiry (socks_configs s) k = Some old" "?c < old"
    using that d by (simp add: extend_socks5_lease_def run_simps seq_simps update_socks_def
        extend_hits_count sock_expiry_extend)
  show "\<exists>m t. extend_socks5_lease k old new s = (Inl (LeaseUnavailable m), t) \<and>
      sock_expiry (socks_configs t) = sock_expiry (socks_configs s)"
    if "db_fault s (db_pos s) = None" "sock_expiry (socks_configs s) k \<noteq> Some old \<or> old \<le> ?c"
    using that d by (auto simp: extend_socks5_lease_def run_simps seq_simps update_socks_def
        extend_hits_count sock_expiry_extend)
  show "\<exists>m t. extend_socks5_lease k old new s = (Inl (Db m), t) \<and>
      sock_expiry (socks_configs t) = sock_expiry (socks_configs s)"
    if "db_fault s (db_pos s) \<noteq> None"
    using that by (auto simp: extend_socks5_lease_def run_simps seq_simps)
qed

subsection \<open>What an allocation chooses\<close>

lemma set_available_rows: "set (available_rows rows) = {r \<in> set rows. available r}"
  by (auto simp: available_rows_def)

lemma next_exclusive_available: "next_exclusive slots rows = Some c \<Longrightarrow> c \<in> set rows \<and> available c"
  using set_available_rows [of rows] set_drop_subset [of "nat slots" "available_rows rows"]
  by (auto simp: next_exclusive_def sql_offset_def split: list.splits)

lemma priority_available: "c \<in> set (priority_rows slots rows) \<Longrightarrow> c \<in> set rows \<and> available c"
  using set_available_rows [of rows] set_take_subset [of "nat slots" "available_rows rows"]
  by (auto simp: priority_rows_def sql_limit_def split: if_splits)

lemma next_exclusive_not_priority:
  assumes "distinct (map username rows)" and "0 \<le> slots" and "next_exclusive slots rows = Some c"
  shows "c \<notin> set (priority_rows slots rows)"
proof -
  have "distinct rows" using assms(1) by (simp add: distinct_map)
  then have d: "distinct (available_rows rows)" by (simp add: available_rows_def)
  from assms(3) have "c \<in> set (drop (nat slots) (available_rows rows))"
    by (auto simp: next_exclusive_def sql_offset_def split: list.splits)
  with d assms(2) show ?thesis
    using set_take_disj_set_drop_if_distinct [OF d order.refl]
    by (auto simp: priority_rows_def sql_limit_def)
qed

lemma find_exclusive_Inr:
  assumes "find_exclusive slots s = (Inr c, t)"
  shows "next_exclusive slots (socks_configs t) = Some c \<and>
         (socks_configs t = socks_configs s \<or>
          (next_exclusive slots (socks_configs s) = None \<and>
           socks_configs t = release_expired (clock s (clock_pos s)) (socks_configs s)))"
  using assms
  by (auto simp: find_exclusive_def cleanup_expired_socks5_configs_def inv_simps update_socks_def
      split: option.splits)

lemma non_priority_Inr:
  assumes "get_socks5_config_non_priority e slots s = (Inr c, t)"
  shows "\<exists>rows now. (rows = socks_configs s \<or>
            (next_exclusive slots (socks_configs s) = None \<and>
             rows = release_expired (clock s (clock_pos s)) (socks_configs s))) \<and>
          next_exclusive slots rows = Some c \<and>
          socks_configs t = take_exclusive e now (username c) (password c) rows"
proof -
  let ?s = "locked_state ''get_socks5_config'' s"
  from assms obtain u now where u: "find_exclusive slots ?s = (Inr c, u)"
    and t: "socks_configs t = take_exclusive e now (username c) (password c) (socks_configs u)"
    by (auto simp: get_socks5_config_non_priority_def run_with_lock inv_simps update_socks_def
        split: if_splits)
  from find_exclusive_Inr [OF u] t show ?thesis by auto
qed

lemma priority_Inr:
  assumes "get_socks5_config_priority e slots s = (Inr c, t)"
  shows "\<exists>k now. priority_rows slots (socks_configs s) \<noteq> [] \<and>
          c = priority_rows slots (socks_configs s) ! k \<and>
          k = rand_below s (rand_pos s) (length (priority_rows slots (socks_configs s))) \<and>
          socks_configs t = touch_lease e now (username c) (socks_configs s)"
  using assms
  by (auto simp: get_socks5_config_priority_def Let_def inv_simps update_socks_def split: if_splits)

subsection \<open>The batch upsert\<close>

text \<open>The columns of a row that a batch upsert leaves alone.\<close>

definition sock_lease :: "socks5_config list \<Rightarrow> string \<rightharpoonup> int \<times> string \<times> int \<times> bool \<times> int" where
  "sock_lease rows =
     key_map username (\<lambda>r. (sock_id r, ip_address r, port r, available r, expires_at r)) rows"

lemma upsert_sock_password:
  "sock_password (socks_configs (upsert_sock now c s)) =
     (sock_password (socks_configs s))(username c \<mapsto> password c)"
proof (cases "username c \<in> set (map username (socks_configs s))")
  case True
  have "sock_password (socks_configs (upsert_sock now c s)) =
      key_map username (\<lambda>r. if username r = username c then password c else password r) (socks_configs s)"
    using True
    by (auto simp: upsert_sock_def sock_password_def key_map_map intro!: key_map_cong)
  with True show ?thesis by (simp add: key_map_update sock_password_def)
next
  case False
  then show ?thesis by (simp add: upsert_sock_def sock_password_def key_map_append_new)
qed

lemma upsert_sock_names:
  "set (map username (socks_configs (upsert_sock now c s))) =
     insert (username c) (set (map username (socks_configs s)))"
proof -
  have "dom (sock_password (socks_configs (upsert_sock now c s))) =
      insert (username c) (dom (sock_password (socks_configs s)))"
    by (simp add: upsert_sock_password)
  then show ?thesis by (simp only: sock_password_def dom_key_map)
qed

lemma upsert_sock_lease:
  "u \<in> set (map username (socks_configs s)) \<Longrightarrow>
   sock_lease (socks_configs (upsert_sock now c s)) u = sock_lease (socks_configs s) u"
proof (cases "username c \<in> set (map username (socks_configs s))")
  case True
  have "sock_lease (socks_configs (upsert_sock now c s)) = sock_lease (socks_configs s)"
    using True
    by (auto simp: upsert_sock_def sock_lease_def key_map_map intro!: key_map_cong split: if_splits)
  then show ?thesis by simp
next
  case False
  assume "u \<in> set (map username (socks_configs s))"
  with False have "u \<noteq> username c" by blast
  with False show ?thesis by (simp add: upsert_sock_def sock_lease_def key_map_append_new)
qed

lemma upsert_all:
  assumes "for_each (\<lambda>c. sql_exec (upsert_sock now c)) cs s = (Inr x, t)"
  shows "sock_password (socks_configs t) =
           fold (\<lambda>c m. m(username c \<mapsto> password c)) cs (sock_password (socks_configs s)) \<and>
         (\<forall>u. u \<in> set (map username (socks_configs s)) \<longrightarrow>
            sock_lease (socks_configs t) u = sock_lease (socks_configs s) u)"
  using assms
proof (induction cs arbitrary: s)
  case Nil
  then show ?case by (simp add: run_simps)
next
  case (Cons c cs)
  from Cons.prems obtain s1 where
    s1: "s1 = upsert_sock now c (s\<lparr>db_pos := Suc (db_pos s)\<rparr>)"
    and rest: "for_each (\<lambda>c. sql_exec (upsert_sock now c)) cs s1 = (Inr x, t)"
    by (auto simp: inv_simps)
  have names: "set (map username (socks_configs s)) \<subseteq> set (map username (socks_configs s1))"
    using upsert_sock_names [of now c "s\<lparr>db_pos := Suc (db_pos s)\<rparr>"] by (auto simp: s1)
  let ?s = "s\<lparr>db_pos := Suc (db_pos s)\<rparr>"
  have "sock_lease (socks_configs t) u = sock_lease (socks_configs s) u"
    if u: "u \<in> set (map username (socks_configs s))" for u
  proof -
    from u names have "u \<in> set (map username (socks_configs s1))" by blast
    with Cons.IH [OF rest] have "sock_lease (socks_configs t) u = sock_lease (socks_configs s1) u" by blast
    also have "\<dots> = sock_lease (socks_configs s) u"
      using upsert_sock_lease [of u ?s now c] u by (simp add: s1)
    finally show ?thesis .
  qed
  moreover have "sock_password (socks_configs s1) = (sock_password (socks_configs s))(username c \<mapsto> password c)"
    using upsert_sock_password [of now c ?s] by (simp add: s1)
  ultimately show ?case
    using Cons.IH [OF rest] by auto
qed

lemma keep_usernames_lease:
  "u \<in> set us \<Longrightarrow> sock_lease (keep_usernames us rows) u = sock_lease rows u"
  unfolding keep_usernames_def sock_lease_def
  by (simp add: key_map_filter_key [where Q = "\<lambda>n. n \<in> set us"])

lemma write_socks_Inr:
  assumes "write_socks cs s = (Inr x, t)" and "cs \<noteq> []"
  shows "sock_password (socks_configs t) = map_of (rev (map (\<lambda>c. (username c, password c)) cs)) \<and>
         (\<forall>u \<in> set (map username cs). u \<in> set (map username (socks_configs s)) \<longrightarrow>
            sock_lease (socks_configs t) u = sock_lease (socks_configs s) u)"
proof -
  let ?s = "s\<lparr>clock_pos := Suc (clock_pos s)\<rparr>"
  let ?names = "map username cs"
  from assms obtain now s1 where
    up: "for_each (\<lambda>c. sql_exec (upsert_sock now c)) cs ?s = (Inr (), s1)"
    and t: "socks_configs t = keep_usernames ?names (socks_configs s1)"
    by (auto simp: write_socks_def inv_simps update_socks_def)
  let ?new = "map_of (rev (map (\<lambda>c. (username c, password c)) cs))"
  from upsert_all [OF up] have
    p: "sock_password (socks_configs s1) = sock_password (socks_configs s) ++ ?new"
    and l: "\<And>u. u \<in> set (map username (socks_configs s)) \<Longrightarrow>
              sock_lease (socks_configs s1) u = sock_lease (socks_configs s) u"
    by (simp_all add: fold_map_upd)
  have dom: "dom ?new = set ?names"
    by (simp add: dom_map_of_conv_image_fst image_image)
  have "sock_password (socks_configs t) = (\<lambda>u. if u \<in> set ?names then (sock_password (socks_configs s) ++ ?new) u else None)"
    unfolding t keep_usernames_def p [symmetric] unfolding sock_password_def
    by (rule key_map_filter_key)
  also have "\<dots> = ?new"
    using dom by (auto simp: fun_eq_iff map_add_def split: option.split)
  finally show ?thesis
    using l unfolding t by (metis keep_usernames_lease)
qed

subsection \<open>Properties\<close>

text \<open>A leased SOCKS5 row is never given to anybody else: a row that is not available and
  whose lease has not run out at the start of the call is neither returned by
  \<open>get_socks5_config\<close>, priority or not, nor altered by it.\<close>

theorem leased_sock_not_reallocated:
  assumes "socks_ok s" and "\<And>n. 0 < n \<Longrightarrow> rand_below s (rand_pos s) n < n"
    and "r \<in> set (socks_configs s)" and "\<not> available r"
    and "\<not> (0 < expires_at r \<and> expires_at r \<le> clock s (clock_pos s))"
    and "get_socks5_config e pr slots s = (Inr c, t)"
  shows "username c \<noteq> username r \<and> r \<in> set (socks_configs t)"
proof -
  let ?rows = "socks_configs s" and ?free = "release_expired (clock s (clock_pos s)) (socks_configs s)"
  have d: "distinct (map username ?rows)" using assms(1) by (simp add: socks_ok_def)
  have r_free: "r \<in> set ?free"
    using assms(3,5) by (force simp: release_expired_def image_iff)
  have other: "username c \<noteq> username r"
    if "c \<in> set rows" "available c" "r \<in> set rows" "distinct (map username rows)" for rows
    using that distinct_key_eq [of username rows c r] assms(4) by auto
  show ?thesis
  proof (cases pr)
    case True
    with assms(6) have "get_socks5_config_priority e slots s = (Inr c, t)"
      by (simp add: get_socks5_config_def)
    from priority_Inr [OF this] obtain k now where
      ne: "priority_rows slots ?rows \<noteq> []" and c: "c = priority_rows slots ?rows ! k"
      and k: "k = rand_below s (rand_pos s) (length (priority_rows slots ?rows))"
      and t: "socks_configs t = touch_lease e now (username c) ?rows" by blast
    have "c \<in> set (priority_rows slots ?rows)"
      unfolding c k using assms(2) ne by (intro nth_mem) simp
    then have "username c \<noteq> username r"
      using priority_available other d assms(3) by blast
    with t assms(3) show ?thesis by (force simp: touch_lease_def image_iff)
  next
    case False
    with assms(6) have "get_socks5_config_non_priority e slots s = (Inr c, t)"
      by (simp add: get_socks5_config_def)
    from non_priority_Inr [OF this] obtain rows now where
      rows: "rows = ?rows \<or> rows = ?free" and c: "next_exclusive slots rows = Some c"
      and t: "socks_configs t = take_exclusive e now (username c) (password c) rows" by blast
    have "r \<in> set rows" "distinct (map username rows)"
      using rows assms(3) r_free d by (auto simp only: row_maps_keep)
    then have "username c \<noteq> username r"
      using next_exclusive_available [OF c] other by blast
    with t \<open>r \<in> set rows\<close> show ?thesis by (force simp: take_exclusive_def image_iff)
  qed
qed

definition demo_sock :: "int \<Rightarrow> string \<Rightarrow> bool \<Rightarrow> int \<Rightarrow> socks5_config" where
  "demo_sock i u a e =
     \<lparr>sock_id = i, ip_address = ''203.0.113.1'', port = 1080, username = u, password = ''p'' @ u,
      available = a, expires_at = e, updated = 0\<rparr>"

theorem leased_sock_not_reallocated_witness:
  "\<exists>c t. get_socks5_config 9000 False 0
       (demo_db\<lparr>socks_configs := [demo_sock 1 ''a'' False 8000, demo_sock 2 ''b'' True 0], socks_seq := 2\<rparr>) =
         (Inr c, t) \<and> username c \<noteq> ''a'' \<and> demo_sock 1 ''a'' False 8000 \<in> set (socks_configs t)"
proof -
  let ?s = "demo_db\<lparr>socks_configs := [demo_sock 1 ''a'' False 8000, demo_sock 2 ''b'' True 0], socks_seq := 2\<rparr>"
  have ok: "socks_ok ?s" by (simp add: socks_ok_def demo_sock_def)
  have rng: "rand_below ?s (rand_pos ?s) n < n" if "0 < n" for n
    using that by simp
  have "next_exclusive 0 (socks_configs ?s) = Some (demo_sock 2 ''b'' True 0)"
    by (simp add: next_exclusive_def available_rows_def sql_offset_def demo_sock_def)
  then obtain c t where "get_socks5_config 9000 False 0 ?s = (Inr c, t)"
    by (simp add: get_socks5_config_def get_socks5_config_non_priority_def run_with_lock
        find_exclusive_def seq_simps run_simps)
  with leased_sock_not_reallocated [OF ok rng, of "demo_sock 1 ''a'' False 8000" 9000 False 0 c t]
  show ?thesis by (auto simp: demo_sock_def)
qed

text \<open>The two SOCKS5 pools are separate: the row a non-priority request gets is the first
  available one behind the priority slots, was not in the priority pool, and is afterwards
  marked unavailable with the requested expiry under its own name and password.\<close>

theorem exclusive_sock_not_priority:
  assumes "socks_ok s" and "0 \<le> slots"
    and "get_socks5_config_non_priority e slots s = (Inr c, t)"
  shows "\<exists>rows. (rows = socks_configs s \<or> rows = release_expired (clock s (clock_pos s)) (socks_configs s)) \<and>
           c \<in> set rows \<and> available c \<and> c \<notin> set (priority_rows slots rows) \<and>
           (\<exists>now. c\<lparr>available := False, expires_at := e, updated := now\<rparr> \<in> set (socks_configs t))"
proof -
  from non_priority_Inr [OF assms(3)] obtain rows now where
    rows: "rows = socks_configs s \<or> rows = release_expired (clock s (clock_pos s)) (socks_configs s)"
    and c: "next_exclusive slots rows = Some c"
    and t: "socks_configs t = take_exclusive e now (username c) (password c) rows" by blast
  have d: "distinct (map username rows)"
    using rows assms(1) by (auto simp: socks_ok_def row_maps_keep simp del: map_map)
  have "c\<lparr>available := False, expires_at := e, updated := now\<rparr> \<in> set (socks_configs t)"
    using next_exclusive_available [OF c] by (force simp: t take_exclusive_def image_iff)
  with rows next_exclusive_available [OF c] next_exclusive_not_priority [OF d assms(2) c] show ?thesis
    by blast
qed

theorem exclusive_sock_not_priority_witness:
  "\<exists>c t. get_socks5_config_non_priority 9000 1
       (demo_db\<lparr>socks_configs := [demo_sock 1 ''a'' True 0, demo_sock 2 ''b'' True 0], socks_seq := 2\<rparr>) =
         (Inr c, t) \<and>
       (\<exists>rows. c \<in> set rows \<and> c \<notin> set (priority_rows 1 rows) \<and>
          (\<exists>now. c\<lparr>available := False, expires_at := 9000, updated := now\<rparr> \<in> set (socks_configs t)))"
proof -
  let ?s = "demo_db\<lparr>socks_configs := [demo_sock 1 ''a'' True 0, demo_sock 2 ''b'' True 0], socks_seq := 2\<rparr>"
  have ok: "socks_ok ?s" by (simp add: socks_ok_def demo_sock_def)
  have "next_exclusive 1 (socks_configs ?s) = Some (demo_sock 2 ''b'' True 0)"
    by (simp add: next_exclusive_def available_rows_def sql_offset_def demo_sock_def)
  then obtain c t where ct: "get_socks5_config_non_priority 9000 1 ?s = (Inr c, t)"
    by (simp add: get_socks5_config_non_priority_def run_with_lock find_exclusive_def seq_simps run_simps)
  with exclusive_sock_not_priority [OF ok _ ct] show ?thesis by (simp only: ct) auto
qed

text \<open>The SOCKS5 table, too, extends a lease only under the expiry its holder names, and
  only before it has run out; other users' leases stay as they are, and a second request with
  the old expiry fails.\<close>

theorem socks_extend_optimistic:
  assumes "socks_ok s" and "extend_socks5_lease u old new s = (Inr r, t)" and "new \<noteq> old"
  shows "sock_expiry (socks_configs s) u = Some old \<and> clock s (clock_pos s) < old \<and>
         sock_expiry (socks_configs t) = (sock_expiry (socks_configs s))(u \<mapsto> new) \<and>
         (\<exists>e v. extend_socks5_lease u old new' t = (Inl e, v) \<and>
                sock_expiry (socks_configs v) = sock_expiry (socks_configs t))"
  using socks_store.extend_InrD [OF assms(1,2)] socks_store.stale_extend_fails [OF assms] by blast

theorem socks_extend_optimistic_witness:
  "\<exists>r t. extend_socks5_lease ''a'' 8000 9000
       (demo_db\<lparr>socks_configs := [demo_sock 1 ''a'' False 8000], socks_seq := 1\<rparr>) = (Inr r, t) \<and>
     (\<exists>e v. extend_socks5_lease ''a'' 8000 9500 t = (Inl e, v))"
proof -
  let ?s = "demo_db\<lparr>socks_configs := [demo_sock 1 ''a'' False 8000], socks_seq := 1\<rparr>"
  have ok: "socks_ok ?s" by (simp add: socks_ok_def demo_sock_def)
  obtain r t where "extend_socks5_lease ''a'' 8000 9000 ?s = (Inr r, t)"
    using socks_store.extend_hit [OF ok, of "''a''" 8000 9000]
    by (auto simp: sock_expiry_def demo_sock_def)
  with socks_extend_optimistic [OF ok this, of 9500] show ?thesis by auto
qed

text \<open>A batch upsert that succeeds leaves exactly the users of the batch, each with the last
  password the batch gives it, and keeps the id, host, port, availability and expiry of the
  users that were there before.\<close>

theorem write_socks_spec:
  assumes "write_socks cs s = (Inr x, t)" and "cs \<noteq> []"
  shows "sock_password (socks_configs t) = map_of (rev (map (\<lambda>c. (username c, password c)) cs)) \<and>
         (\<forall>u. u \<in> set (map username cs) \<inter> set (map username (socks_configs s)) \<longrightarrow>
            sock_lease (socks_configs t) u = sock_lease (socks_configs s) u)"
  using write_socks_Inr [OF assms] by blast

theorem write_socks_spec_witness:
  "\<exists>t. write_socks [demo_sock 0 ''a'' True 0, demo_sock 0 ''c'' True 0]
       (demo_db\<lparr>socks_configs := [demo_sock 1 ''a'' False 8000, demo_sock 2 ''b'' True 0], socks_seq := 2\<rparr>) =
         (Inr (), t) \<and>
       sock_password (socks_configs t) = [''a'' \<mapsto> ''pa'', ''c'' \<mapsto> ''pc'']"
proof -
  let ?cs = "[demo_sock 0 ''a'' True 0, demo_sock 0 ''c'' True 0]"
  let ?s = "demo_db\<lparr>socks_configs := [demo_sock 1 ''a'' False 8000, demo_sock 2 ''b'' True 0], socks_seq := 2\<rparr>"
  obtain t where t: "write_socks ?cs ?s = (Inr (), t)"
    by (simp add: write_socks_def seq_simps run_simps upsert_sock_def update_socks_def)
  then show ?thesis
    using write_socks_spec [OF t] by (auto simp: demo_sock_def fun_eq_iff)
qed

end
