(* ===== verification/Authenticator.thy ===== *)
theory Authenticator
  imports Rust_Text
begin

text \<open>
  The interface between the credential manager and the two proxies: a table of accounts and
  a check of a user name and password against it. A proxy only calls the check; that an
  accepted pair is an account is what the provider promises.
\<close>

locale authenticator =
  fixes accounts :: "string \<rightharpoonup> string"
    and auth :: "string \<Rightarrow> string \<Rightarrow> bool"
  assumes auth_iff: "auth user pass \<longleftrightarrow> accounts user = Some pass"
begin

lemma one_password: "auth user pass \<Longrightarrow> auth user pass' \<Longrightarrow> pass = pass'"
  by (simp add: auth_iff)

lemma only_registered: "auth user pass \<Longrightarrow> user \<in> dom accounts"
  by (simp add: auth_iff domI)

end

end
