(* ===== verification/Credentials.thy ===== *)
theory Credentials
  imports Db_Socks5 Authenticator
begin

text \<open>
  The credential manager of \<open>src/src/proxy/credentials.rs\<close>: a map from user names to
  passwords in memory (the \<open>DashMap\<close>), backed by the SOCKS5 table. \<open>cred_st\<close> adds to
  the database the fields of \<open>CredentialManager\<close> and the directories of legacy password
  files: \<open>fs_dirs d\<close> is what scanning the directory \<open>d\<close> yields (\<open>None\<close> if the path does not
  exist, \<open>Some (Inl e)\<close> if it cannot be opened, else its entries, each a name or an I/O
  error), \<open>fs_text d f\<close> what reading the file \<open>f\<close> in it yields.
\<close>

record cred_st = db_st +
  credentials :: "string \<rightharpoonup> string"
  cm_host :: string
  cm_port :: u16
  cm_total_slots :: nat
  cm_priority_slots :: int
  fs_dirs :: "string \<Rightarrow> (string + (string + string) list) option"
  fs_text :: "string \<Rightarrow> string \<Rightarrow> string option"

type_synonym ('z, 'a) cred_op = "('z cred_st_scheme, app_error, 'a) rm"

definition new_manager :: "string \<Rightarrow> u16 \<Rightarrow> nat \<Rightarrow> int \<Rightarrow> 'z cred_st_scheme \<Rightarrow> 'z cred_st_scheme" where
  "new_manager host prt n slots s =
     s\<lparr>credentials := Map.empty, cm_host := host, cm_port := prt, cm_total_slots := n,
       cm_priority_slots := slots\<rparr>"

text \<open>
  \<open>authenticate\<close>: lengths first, then \<open>ct_eq\<close>, which compares every byte and gathers the
  differences instead of stopping at the first one.
\<close>

fun ct_eq :: "u8 list \<Rightarrow> u8 list \<Rightarrow> bool \<Rightarrow> bool" where
  "ct_eq (a # as) (b # bs) acc = ct_eq as bs (acc \<and> a = b)"
| "ct_eq _ _ acc = acc"

definition authenticate :: "(string \<rightharpoonup> string) \<Rightarrow> string \<Rightarrow> string \<Rightarrow> bool" where
  "authenticate creds user pass =
     (case creds user of
        None \<Rightarrow> False
      | Some stored \<Rightarrow>
          if length (bytes_of_string stored) \<noteq> length (bytes_of_string pass) then False
          else ct_eq (bytes_of_string stored) (bytes_of_string pass) True)"

subsection \<open>Random names\<close>

fun draw_chars :: "(nat \<Rightarrow> char) \<Rightarrow> nat \<Rightarrow> nat \<Rightarrow> ('z, string) env_op" where
  "draw_chars f bound 0 = ok []"
| "draw_chars f bound (Suc n) =
     and_then (random_below bound) (\<lambda>idx.
     and_then (draw_chars f bound n) (\<lambda>cs.
     ok (f idx # cs)))"

definition username_char :: "nat \<Rightarrow> char" where
  "username_char idx = char_of (if idx < 10 then 48 + idx else 97 + idx - 10)"

definition password_char :: "nat \<Rightarrow> char" where
  "password_char idx =
     char_of (if idx < 10 then 48 + idx else if idx < 36 then 65 + idx - 10 else 97 + idx - 36)"

definition generate_username :: "('z, string) env_op" where
  "generate_username = and_then (draw_chars username_char 36 8) (\<lambda>cs. ok (''u_'' @ cs))"

definition generate_password :: "('z, string) env_op" where
  "generate_password = and_then (draw_chars password_char 62 32) (\<lambda>cs. ok (''p_'' @ cs))"

subsection \<open>Operations\<close>

definition remember :: "socks5_config list \<Rightarrow> ('z, unit) cred_op" where
  "remember cs =
     modify (\<lambda>s. s\<lparr>credentials := fold (\<lambda>c m. m(username c \<mapsto> password c)) cs (credentials s)\<rparr>)"

definition set_password :: "string \<Rightarrow> int \<Rightarrow> string \<Rightarrow> socks5_config list \<Rightarrow> socks5_config list" where
  "set_password p now u rows =
     map (\<lambda>r. if username r = u then r\<lparr>password := p, updated := now\<rparr> else r) rows"

definition rotate_password :: "string \<Rightarrow> ('z, string) cred_op" where
  "rotate_password user =
     and_then generate_password (\<lambda>new.
     and_then (gets (\<lambda>s. credentials s user)) (\<lambda>entry.
     case entry of
       None \<Rightarrow> err (Internal (''Cannot rotate password for unknown user: '' @ user))
     | Some _ \<Rightarrow>
         and_then (modify (\<lambda>s. s\<lparr>credentials := (credentials s)(user \<mapsto> new)\<rparr>)) (\<lambda>_.
         and_then now_ms (\<lambda>now.
         and_then (sql_exec (update_socks (set_password new now user))) (\<lambda>_.
         ok new)))))"

definition load_from_db :: "('z, nat) cred_op" where
  "load_from_db =
     and_then (sql_query socks_configs) (\<lambda>configs.
     and_then (modify (\<lambda>s. s\<lparr>credentials := Map.empty\<rparr>)) (\<lambda>_.
     and_then (remember configs) (\<lambda>_.
     ok (length configs))))"

definition reload_from_db :: "('z, nat) cred_op" where
  "reload_from_db = and_then load_from_db (\<lambda>count. ok count)"

text \<open>A row for \<open>write_socks\<close>; the id is given by the table, \<open>updated\<close> by the statement.\<close>

definition new_sock :: "string \<Rightarrow> u16 \<Rightarrow> string \<Rightarrow> string \<Rightarrow> bool \<Rightarrow> socks5_config" where
  "new_sock host prt user pass avail =
     \<lparr>sock_id = 0, ip_address = host, port = uint prt, username = user, password = pass,
      available = avail, expires_at = 0, updated = 0\<rparr>"

fun generate_socks :: "nat \<Rightarrow> ('z, socks5_config list) cred_op" where
  "generate_socks 0 = ok []"
| "generate_socks (Suc n) =
     and_then generate_username (\<lambda>user.
     and_then generate_password (\<lambda>pass.
     and_then (gets (\<lambda>s. new_sock (cm_host s) (cm_port s) user pass True)) (\<lambda>c.
     and_then (generate_socks n) (\<lambda>cs.
     ok (c # cs)))))"

definition generate_credentials :: "('z, unit) cred_op" where
  "generate_credentials =
     and_then (gets cm_total_slots) (\<lambda>n.
     and_then (generate_socks n) (\<lambda>socks.
     and_then (write_socks socks) (\<lambda>_.
     remember socks)))"

text \<open>\<open>trim_end_matches\<close> of a non-empty suffix removes it as often as it is there.\<close>

function trim_end_str :: "string \<Rightarrow> string \<Rightarrow> string" where
  "trim_end_str p s =
     (if p \<noteq> [] \<and> ends_with p s then trim_end_str p (take (length s - length p) s) else s)"
  by pat_completeness auto
termination
  by (relation "measure (\<lambda>(p, s). length s)") (auto simp: ends_with_iff)

declare trim_end_str.simps [simp del]

text \<open>The directory scan of \<open>migrate_from_password_files\<close>: active and used files.\<close>

fun split_legacy :: "(string + string) list \<Rightarrow> app_error + string list \<times> string list" where
  "split_legacy [] = Inr ([], [])"
| "split_legacy (Inl e # es) = Inl (Io e)"
| "split_legacy (Inr name # es) =
     (case split_legacy es of
        Inl e \<Rightarrow> Inl e
      | Inr (auth, used) \<Rightarrow>
          if ends_with ''.password.used'' name then Inr (auth, name # used)
          else if ends_with ''.password'' name then Inr (name # auth, used)
          else Inr (auth, used))"

text \<open>One legacy file: skipped if its trimmed text is empty or it cannot be read.\<close>

definition legacy_sock ::
    "(string \<Rightarrow> string option) \<Rightarrow> string \<Rightarrow> u16 \<Rightarrow> string list \<Rightarrow> string \<Rightarrow> socks5_config option" where
  "legacy_sock text host prt used filename =
     (let pass = trim (case text filename of None \<Rightarrow> [] | Some t \<Rightarrow> t) in
      if pass = [] then None
      else Some (new_sock host prt (trim_end_str ''.password'' filename) pass
                   ((filename @ ''.used'') \<notin> set used)))"

definition read_dir :: "string \<Rightarrow> ('z, (string + string) list) cred_op" where
  "read_dir dir =
     and_then (gets (\<lambda>s. fs_dirs s dir)) (\<lambda>d.
     case d of
       None \<Rightarrow> err (Io ''No such file or directory (os error 2)'')
     | Some (Inl e) \<Rightarrow> err (Io e)
     | Some (Inr es) \<Rightarrow> ok es)"

definition migrate_from_password_files :: "string \<Rightarrow> ('z, unit) cred_op" where
  "migrate_from_password_files dir =
     and_then (read_dir dir) (\<lambda>entries.
     and_then (of_result (split_legacy entries)) (\<lambda>(auth, used).
     and_then (gets (\<lambda>s. List.map_filter (legacy_sock (fs_text s dir) (cm_host s) (cm_port s) used) auth)) (\<lambda>socks.
     and_then (write_socks socks) (\<lambda>_.
     remember socks))))"

text \<open>\<open>UPDATE \<dots> SET ip_address = $1, port = $2 WHERE ip_address != $1 OR port != $2\<close>\<close>

definition sync_rows :: "string \<Rightarrow> int \<Rightarrow> socks5_config list \<Rightarrow> socks5_config list" where
  "sync_rows host p rows =
     map (\<lambda>r. if ip_address r \<noteq> host \<or> port r \<noteq> p then r\<lparr>ip_address := host, port := p\<rparr> else r) rows"

definition sync_host_port :: "('z, unit) cred_op" where
  "sync_host_port =
     and_then (gets (\<lambda>s. (cm_host s, cm_port s))) (\<lambda>(host, p).
     sql_exec (update_socks (sync_rows host (uint p))))"

text \<open>
  The first scan looks for an active legacy file and stops at the first unreadable entry;
  a directory that cannot be opened makes it panic.
\<close>

datatype init_error = Panic string | Failed app_error

fun legacy_found :: "(string + string) list \<Rightarrow> bool" where
  "legacy_found [] = False"
| "legacy_found (Inl e # es) = False"
| "legacy_found (Inr name # es) =
     (ends_with ''.password'' name \<and> \<not> ends_with ''.password.used'' name \<or> legacy_found es)"

definition has_password_files :: "string \<Rightarrow> ('z cred_st_scheme, init_error, bool) rm" where
  "has_password_files dir =
     and_then (gets (\<lambda>s. fs_dirs s dir)) (\<lambda>d.
     case d of
       None \<Rightarrow> ok False
     | Some (Inl e) \<Rightarrow> err (Panic ''Failed to read password directory'')
     | Some (Inr es) \<Rightarrow> ok (legacy_found es))"

definition load_or_generate :: "('z, unit) cred_op" where
  "load_or_generate =
     and_then load_from_db (\<lambda>count.
     if count = 0 then generate_credentials else ok ())"

definition initialize :: "string \<Rightarrow> ('z cred_st_scheme, init_error, unit) rm" where
  "initialize dir =
     and_then (has_password_files dir) (\<lambda>legacy.
     and_then (map_err Failed (if legacy then migrate_from_password_files dir else load_or_generate)) (\<lambda>_.
     map_err Failed sync_host_port))"

definition credential_count :: "'z cred_st_scheme \<Rightarrow> nat" where
  "credential_count s = card (dom (credentials s))"

subsection \<open>Authentication\<close>

lemma ct_eq_iff: "length as = length bs \<Longrightarrow> ct_eq as bs acc \<longleftrightarrow> acc \<and> as = bs"
  by (induction as bs acc rule: ct_eq.induct) auto

lemma authenticate_iff: "authenticate creds user pass \<longleftrightarrow> creds user = Some pass"
proof (cases "creds user")
  case None
  then show ?thesis by (simp add: authenticate_def)
next
  case (Some stored)
  show ?thesis
  proof (cases "length stored = length pass")
    case True
    then have "ct_eq (bytes_of_string stored) (bytes_of_string pass) True \<longleftrightarrow> stored = pass"
      using ct_eq_iff [of "bytes_of_string stored" "bytes_of_string pass"] by simp
    with Some True show ?thesis by (simp add: authenticate_def)
  next
    case False
    with Some show ?thesis by (auto simp: authenticate_def)
  qed
qed

interpretation creds: authenticator accounts "authenticate accounts"
  by unfold_locales (rule authenticate_iff)

subsection \<open>Memory and table agree\<close>

definition synced :: "'z cred_st_scheme \<Rightarrow> bool" where
  "synced s \<longleftrightarrow> credentials s = sock_password (socks_configs s)"

lemma env_blind_synced [simp]: "env_blind synced"
  by (simp add: env_blind_def synced_def)

text \<open>What the operations on the SOCKS5 table leave alone on behalf of the manager.\<close>

lemma update_socks_frame [simp]:
  "credentials (update_socks f s) = credentials s" "cm_host (update_socks f s) = cm_host s"
  "cm_port (update_socks f s) = cm_port s" "fs_dirs (update_socks f s) = fs_dirs s"
  "fs_text (update_socks f s) = fs_text s" "cm_total_slots (update_socks f s) = cm_total_slots s"
  "socks_configs (update_socks f s) = f (socks_configs s)"
  by (simp_all add: update_socks_def)

lemma upsert_sock_frame [simp]:
  "credentials (upsert_sock now c s) = credentials s" "cm_host (upsert_sock now c s) = cm_host s"
  "cm_port (upsert_sock now c s) = cm_port s"
  by (simp_all add: upsert_sock_def)

lemma sock_password_map:
  "(\<And>r. r \<in> set rows \<Longrightarrow> username (f r) = username r \<and> password (f r) = password r) \<Longrightarrow>
   sock_password (map f rows) = sock_password rows"
  unfolding sock_password_def by (subst key_map_map) (auto intro: key_map_cong)

lemma sock_password_keep:
  "sock_password (touch_lease e n u rows) = sock_password rows"
  "sock_password (take_exclusive e n u p rows) = sock_password rows"
  "sock_password (extend_socks u x w n rows) = sock_password rows"
  "sock_password (release_expired n rows) = sock_password rows"
  "sock_password (sync_rows h k rows) = sock_password rows"
  unfolding touch_lease_def take_exclusive_def extend_socks_def release_expired_def sync_rows_def
  by (simp_all add: sock_password_map)

lemma synced_update:
  "sock_password (f (socks_configs s)) = sock_password (socks_configs s) \<Longrightarrow>
   synced s \<Longrightarrow> synced (update_socks f s)"
  by (simp add: synced_def)

lemma synced_get [keeps_rules]: "keeps synced (get_socks5_config e pr slots)"
  unfolding get_socks5_config_def get_socks5_config_priority_def get_socks5_config_non_priority_def
    find_exclusive_def cleanup_expired_socks5_configs_def Let_def
  by (intro keeps_rules env_blind_synced) (simp_all add: synced_update sock_password_keep)

lemma synced_extend [keeps_rules]: "keeps synced (extend_socks5_lease u x n)"
  unfolding extend_socks5_lease_def
  by (intro keeps_rules env_blind_synced) (simp_all add: synced_update sock_password_keep)

lemma synced_cleanup [keeps_rules]: "keeps synced cleanup_expired_socks5_configs"
  unfolding cleanup_expired_socks5_configs_def
  by (intro keeps_rules env_blind_synced) (simp_all add: synced_update sock_password_keep)

text \<open>A frame rule: operations of the SOCKS5 table do not write the manager's own fields.\<close>

definition manager_is :: "(string \<rightharpoonup> string) \<Rightarrow> string \<Rightarrow> u16 \<Rightarrow> 'z cred_st_scheme \<Rightarrow> bool" where
  "manager_is m host prt s \<longleftrightarrow> credentials s = m \<and> cm_host s = host \<and> cm_port s = prt"

lemma env_blind_manager [simp]: "env_blind (manager_is m h p)"
  by (simp add: env_blind_def manager_is_def)

lemma manager_write_socks [keeps_rules]: "keeps (manager_is m h p) (write_socks cs)"
  unfolding write_socks_def
  by (intro keeps_rules env_blind_manager) (simp_all add: manager_is_def)

lemma fold_password:
  "fold (\<lambda>c m. m(username c \<mapsto> password c)) cs m =
     m ++ map_of (rev (map (\<lambda>c. (username c, password c)) cs))"
  by (rule fold_map_upd)

lemma map_of_rev_distinct: "distinct (map fst xs) \<Longrightarrow> map_of (rev xs) = map_of xs"
proof (induction xs)
  case Nil
  then show ?case by simp
next
  case (Cons x xs)
  then have "map_of xs (fst x) = None" by (simp add: map_of_eq_None_iff)
  with Cons show ?case
    by (auto simp: map_of_append fun_eq_iff map_add_def split: option.splits)
qed

lemma sock_password_fold:
  assumes "distinct (map username rows)"
  shows "fold (\<lambda>c m. m(username c \<mapsto> password c)) rows Map.empty = sock_password rows"
  using assms
  by (simp add: fold_password sock_password_def key_map_def map_of_rev_distinct comp_def)

lemma load_from_db_Inr:
  assumes "load_from_db s = (Inr n, t)" and "socks_ok s"
  shows "synced t \<and> n = length (socks_configs s) \<and> socks_configs t = socks_configs s \<and>
         cm_host t = cm_host s \<and> cm_port t = cm_port s"
  using assms
  by (auto simp: load_from_db_def remember_def inv_simps synced_def socks_ok_def sock_password_fold)

text \<open>A batch that is written and remembered in an empty memory.\<close>

lemma write_and_remember:
  assumes "and_then (write_socks cs) (\<lambda>_. remember cs) s = (Inr (), t)"
    and "credentials s = Map.empty" and "cs = [] \<Longrightarrow> socks_configs s = []"
  shows "synced t \<and> cm_host t = cm_host s \<and> cm_port t = cm_port s"
proof -
  from assms(1) obtain u where w: "write_socks cs s = (Inr (), u)"
    and t: "t = u\<lparr>credentials := fold (\<lambda>c m. m(username c \<mapsto> password c)) cs (credentials u)\<rparr>"
    by (auto simp: inv_simps remember_def)
  have "manager_is (credentials s) (cm_host s) (cm_port s) s" by (simp add: manager_is_def)
  from keepsD [OF manager_write_socks this, of cs] w
  have u: "credentials u = Map.empty" "cm_host u = cm_host s" "cm_port u = cm_port s"
    by (simp_all add: manager_is_def assms(2))
  have "fold (\<lambda>c m. m(username c \<mapsto> password c)) cs Map.empty = sock_password (socks_configs u)"
  proof (cases "cs = []")
    case True
    with w have "socks_configs u = []" using assms(3) by (simp add: write_socks_def run_simps)
    with True show ?thesis by (simp add: sock_password_def)
  next
    case False
    with write_socks_Inr [OF w False] show ?thesis by (simp add: fold_password)
  qed
  with u show ?thesis by (simp add: t synced_def)
qed

text \<open>Drawing names touches neither the tables nor the manager.\<close>

definition data_is ::
    "socks5_config list \<Rightarrow> int \<Rightarrow> (string \<rightharpoonup> string) \<Rightarrow> string \<Rightarrow> u16 \<Rightarrow> 'z cred_st_scheme \<Rightarrow> bool" where
  "data_is rows q m h p s \<longleftrightarrow> socks_configs s = rows \<and> socks_seq s = q \<and> manager_is m h p s"

lemma env_blind_data [simp]: "env_blind (data_is rows q m h p)"
  by (simp add: env_blind_def data_is_def manager_is_def)

lemma keeps_draw_chars [keeps_rules]: "env_blind I \<Longrightarrow> keeps I (draw_chars f b n)"
  by (induction n) (auto intro!: keeps_rules)

lemma keeps_generate_name [keeps_rules]:
  "env_blind I \<Longrightarrow> keeps I generate_username" "env_blind I \<Longrightarrow> keeps I generate_password"
  by (simp_all add: generate_username_def generate_password_def keeps_rules)

lemma keeps_generate_socks [keeps_rules]: "env_blind I \<Longrightarrow> keeps I (generate_socks n)"
  by (induction n) (auto intro!: keeps_rules)

lemma generate_credentials_Inr:
  assumes "generate_credentials s = (Inr (), t)"
    and "credentials s = Map.empty" and "socks_configs s = []"
  shows "synced t \<and> cm_host t = cm_host s \<and> cm_port t = cm_port s"
proof -
  from assms(1) obtain cs u where g: "generate_socks (cm_total_slots s) s = (Inr cs, u)"
    and w: "and_then (write_socks cs) (\<lambda>_. remember cs) u = (Inr (), t)"
    by (auto simp: generate_credentials_def inv_simps)
  have "data_is (socks_configs s) (socks_seq s) (credentials s) (cm_host s) (cm_port s) u"
    using keepsD [OF keeps_generate_socks [OF env_blind_data],
        of "socks_configs s" "socks_seq s" "credentials s" "cm_host s" "cm_port s" s "cm_total_slots s"] g
    by (simp add: data_is_def manager_is_def)
  then have u: "socks_configs u = []" "credentials u = Map.empty" "cm_host u = cm_host s" "cm_port u = cm_port s"
    using assms(2,3) by (simp_all add: data_is_def manager_is_def)
  from write_and_remember [OF w u(2)] u show ?thesis by simp
qed

text \<open>A directory whose legacy files are all empty or unreadable.\<close>

definition blank_legacy :: "string \<Rightarrow> 'z cred_st_scheme \<Rightarrow> bool" where
  "blank_legacy dir s \<longleftrightarrow>
     (case fs_dirs s dir of
        Some (Inr es) \<Rightarrow>
          legacy_found es \<and>
          (case split_legacy es of
             Inl _ \<Rightarrow> False
           | Inr (auth, used) \<Rightarrow>
               List.map_filter (legacy_sock (fs_text s dir) (cm_host s) (cm_port s) used) auth = [])
      | _ \<Rightarrow> False)"

lemma migrate_Inr:
  assumes "migrate_from_password_files dir s = (Inr (), t)" and "has_password_files dir s = (Inr True, s)"
    and "credentials s = Map.empty" and "\<not> blank_legacy dir s"
  shows "synced t \<and> cm_host t = cm_host s \<and> cm_port t = cm_port s"
proof -
  from assms(2) obtain es where es: "fs_dirs s dir = Some (Inr es)" "legacy_found es"
    by (auto simp: has_password_files_def inv_simps split: option.splits sum.splits)
  from assms(1) es obtain auth used where sp: "split_legacy es = Inr (auth, used)"
    and w: "and_then (write_socks (List.map_filter (legacy_sock (fs_text s dir) (cm_host s) (cm_port s) used) auth))
       (\<lambda>_. remember (List.map_filter (legacy_sock (fs_text s dir) (cm_host s) (cm_port s) used) auth)) s
       = (Inr (), t)"
    by (auto simp: migrate_from_password_files_def read_dir_def inv_simps)
  from assms(4) es sp show ?thesis
    by (intro write_and_remember [OF w assms(3)]) (simp add: blank_legacy_def)
qed

lemma load_or_generate_Inr:
  assumes "load_or_generate s = (Inr (), t)" and "socks_ok s"
  shows "synced t \<and> cm_host t = cm_host s \<and> cm_port t = cm_port s"
proof -
  from assms(1) obtain n u where l: "load_from_db s = (Inr n, u)"
    and r: "(if n = 0 then generate_credentials else ok ()) u = (Inr (), t)"
    by (auto simp: load_or_generate_def inv_simps)
  note u = load_from_db_Inr [OF l assms(2)]
  show ?thesis
  proof (cases "n = 0")
    case True
    with u have "socks_configs u = []" "credentials u = Map.empty"
      by (auto simp: synced_def sock_password_def)
    with r True u generate_credentials_Inr [of u t] show ?thesis by simp
  next
    case False
    with r u show ?thesis by (simp add: run_simps)
  qed
qed

lemma sync_rows_set: "r \<in> set (sync_rows h p rows) \<Longrightarrow> ip_address r = h \<and> port r = p"
  by (auto simp: sync_rows_def)

lemma sync_host_port_Inr:
  assumes "sync_host_port s = (Inr (), t)" and "synced s"
  shows "synced t \<and> (\<forall>r \<in> set (socks_configs t). ip_address r = cm_host s \<and> port r = uint (cm_port s)) \<and>
         cm_host t = cm_host s \<and> cm_port t = cm_port s"
  using assms
  by (auto simp: sync_host_port_def inv_simps synced_def sock_password_keep dest: sync_rows_set)

lemma initialize_Inr:
  assumes "initialize dir s = (Inr (), t)" and "socks_ok s" and "credentials s = Map.empty"
    and "\<not> blank_legacy dir s"
  shows "synced t \<and> (\<forall>r \<in> set (socks_configs t). ip_address r = cm_host s \<and> port r = uint (cm_port s))"
proof -
  from assms(1) obtain b u v where h: "has_password_files dir s = (Inr b, u)"
    and m: "(if b then migrate_from_password_files dir else load_or_generate) u = (Inr (), v)"
    and y: "sync_host_port v = (Inr (), t)"
    by (auto simp: initialize_def inv_simps)
  from h have u: "u = s"
    by (auto simp: has_password_files_def inv_simps split: option.splits sum.splits)
  have "synced v \<and> cm_host v = cm_host s \<and> cm_port v = cm_port s"
  proof (cases b)
    case True
    with h m u show ?thesis by (intro migrate_Inr [OF _ _ assms(3,4)]) simp_all
  next
    case False
    with m u show ?thesis by (intro load_or_generate_Inr [OF _ assms(2)]) simp_all
  qed
  with sync_host_port_Inr [OF y] show ?thesis by simp
qed

subsection \<open>Properties\<close>

text \<open>Once the credential store has started, the proxies accept exactly the user names and
  passwords of the SOCKS5 table, and every row of it carries the current host and port. The
  one exception is a legacy directory whose password files are all blank.\<close>

theorem initialize_syncs_credentials:
  assumes "initialize dir s = (Inr (), t)" and "socks_ok s" and "credentials s = Map.empty"
    and "\<not> blank_legacy dir s"
  shows "(\<forall>u p. authenticate (credentials t) u p \<longleftrightarrow> sock_password (socks_configs t) u = Some p) \<and>
         (\<forall>r \<in> set (socks_configs t). ip_address r = cm_host s \<and> port r = uint (cm_port s))"
  using initialize_Inr [OF assms] by (simp add: synced_def authenticate_iff)

definition demo_cred :: cred_st where
  "demo_cred = db_st.extend demo_db
     \<lparr>credentials = Map.empty, cm_host = ''198.51.100.7'', cm_port = 1080, cm_total_slots = 2,
      cm_priority_slots = 1, fs_dirs = (\<lambda>_. None), fs_text = (\<lambda>_ _. None)\<rparr>"

lemma demo_cred_simps [simp]:
  "clock demo_cred = (\<lambda>n. 1000 + int n)" "clock_pos demo_cred = 0" "db_pos demo_cred = 0"
  "db_fault demo_cred = (\<lambda>n. None)" "lock_timeout demo_cred = (\<lambda>n. False)" "lock_pos demo_cred = 0"
  "rand_pos demo_cred = 0" "rand_below demo_cred = (\<lambda>n k. n mod k)" "socks_configs demo_cred = []"
  "credentials demo_cred = Map.empty" "cm_host demo_cred = ''198.51.100.7''" "cm_port demo_cred = 1080"
  "fs_dirs demo_cred = (\<lambda>_. None)" "fs_text demo_cred = (\<lambda>_ _. None)" "cm_total_slots demo_cred = 2"
  by (simp_all add: demo_cred_def demo_db_def db_st.defs)

theorem initialize_syncs_credentials_witness:
  "\<exists>t. initialize ''/passwords''
       (demo_cred\<lparr>socks_configs := [demo_sock 1 ''a'' False 8000, demo_sock 2 ''b'' True 0], socks_seq := 2\<rparr>) =
         (Inr (), t) \<and>
       authenticate (credentials t) ''a'' ''pa'' \<and>
       (\<forall>r \<in> set (socks_configs t). ip_address r = ''198.51.100.7'')"
proof -
  let ?s = "demo_cred\<lparr>socks_configs := [demo_sock 1 ''a'' False 8000, demo_sock 2 ''b'' True 0], socks_seq := 2\<rparr>"
  have ok: "socks_ok ?s" by (simp add: socks_ok_def demo_sock_def)
  obtain t where t: "initialize ''/passwords'' ?s = (Inr (), t)"
    and p: "socks_configs t = sync_rows ''198.51.100.7'' 1080 (socks_configs ?s)"
    by (simp add: initialize_def has_password_files_def load_or_generate_def load_from_db_def
        remember_def sync_host_port_def seq_simps run_simps)
  have "sock_password (socks_configs t) ''a'' = Some ''pa''"
    by (simp add: p sock_password_keep) (simp add: sock_password_def demo_sock_def)
  with initialize_syncs_credentials [OF t ok] show ?thesis
    using t by (simp add: blank_legacy_def)
qed

lemma get_socks5_config_Inr:
  assumes "get_socks5_config e pr slots s = (Inr c, t)"
    and "\<And>n. 0 < n \<Longrightarrow> rand_below s (rand_pos s) n < n"
  shows "\<exists>rows. (rows = socks_configs s \<or> rows = release_expired (clock s (clock_pos s)) (socks_configs s)) \<and>
           c \<in> set rows"
proof (cases pr)
  case True
  with assms(1) have "get_socks5_config_priority e slots s = (Inr c, t)"
    by (simp add: get_socks5_config_def)
  from priority_Inr [OF this] have "c \<in> set (priority_rows slots (socks_configs s))"
    using assms(2) by auto
  then show ?thesis using priority_available by blast
next
  case False
  with assms(1) have "get_socks5_config_non_priority e slots s = (Inr c, t)"
    by (simp add: get_socks5_config_def)
  from non_priority_Inr [OF this] show ?thesis using next_exclusive_available by blast
qed

lemma leased_password:
  assumes "get_socks5_config e pr slots s = (Inr c, t)" and "socks_ok s"
    and "\<And>n. 0 < n \<Longrightarrow> rand_below s (rand_pos s) n < n"
  shows "sock_password (socks_configs s) (username c) = Some (password c)"
proof -
  from get_socks5_config_Inr [OF assms(1,3)] obtain rows where
    rows: "rows = socks_configs s \<or> rows = release_expired (clock s (clock_pos s)) (socks_configs s)"
    and c: "c \<in> set rows" by blast
  then have "distinct (map username rows)" and "sock_password rows = sock_password (socks_configs s)"
    using assms(2) by (auto simp: socks_ok_def row_maps_keep sock_password_keep simp del: map_map)
  with c key_map_row [of username rows c password] show ?thesis
    by (simp add: sock_password_def)
qed

text \<open>A SOCKS5 lease that is handed out works at the proxies: while memory and table agree,
  the user name and password of the row that \<open>get_socks5_config\<close> returns are accepted, no
  other password is accepted for that user, and memory and table still agree afterwards.\<close>

theorem leased_credential_authenticates:
  assumes "synced s" and "socks_ok s" and "\<And>n. 0 < n \<Longrightarrow> rand_below s (rand_pos s) n < n"
    and "get_socks5_config e pr slots s = (Inr c, t)"
  shows "authenticate (credentials t) (username c) (password c) \<and>
         (\<forall>p. authenticate (credentials t) (username c) p \<longrightarrow> p = password c) \<and> synced t"
proof -
  have t: "synced t" using keepsD [OF synced_get assms(1), of e pr slots] assms(4) by simp
  have frame: "keeps (\<lambda>s. credentials s = m) (get_socks5_config e pr slots)"
    for m :: "string \<rightharpoonup> string"
    unfolding get_socks5_config_def get_socks5_config_priority_def get_socks5_config_non_priority_def
      find_exclusive_def cleanup_expired_socks5_configs_def Let_def
    by (intro keeps_rules) (simp_all add: env_blind_def)
  have "credentials t = credentials s"
    using keepsD [OF frame refl, of s] assms(4) by simp
  then have "credentials t (username c) = Some (password c)"
    using leased_password [OF assms(4,2,3)] assms(1) by (simp add: synced_def)
  with t show ?thesis
    using creds.one_password by (auto simp: authenticate_iff)
qed

theorem leased_credential_authenticates_witness:
  "\<exists>c t. get_socks5_config 9000 False 0
       (demo_cred\<lparr>socks_configs := [demo_sock 1 ''a'' True 0], socks_seq := 1, credentials := [''a'' \<mapsto> ''pa'']\<rparr>) =
         (Inr c, t) \<and> authenticate (credentials t) (username c) (password c)"
proof -
  let ?s = "demo_cred\<lparr>socks_configs := [demo_sock 1 ''a'' True 0], socks_seq := 1, credentials := [''a'' \<mapsto> ''pa'']\<rparr>"
  have ok: "socks_ok ?s" "synced ?s"
    by (simp_all add: socks_ok_def demo_sock_def synced_def sock_password_def)
  have "next_exclusive 0 (socks_configs ?s) = Some (demo_sock 1 ''a'' True 0)"
    by (simp add: next_exclusive_def available_rows_def sql_offset_def demo_sock_def)
  then obtain c t where "get_socks5_config 9000 False 0 ?s = (Inr c, t)"
    by (simp add: get_socks5_config_def get_socks5_config_non_priority_def run_with_lock
        find_exclusive_def seq_simps run_simps)
  with leased_credential_authenticates [OF ok(2,1) _ this] show ?thesis by auto
qed

lemma sock_password_set:
  "sock_password (set_password p n u rows) =
     (if u \<in> set (map username rows) then (sock_password rows)(u \<mapsto> p) else sock_password rows)"
proof -
  have "sock_password (set_password p n u rows) =
      key_map username (\<lambda>r. if username r = u then p else password r) rows"
    unfolding sock_password_def set_password_def by (subst key_map_map) (auto intro!: key_map_cong)
  then show ?thesis by (simp only: key_map_update sock_password_def)
qed

lemma draw_chars_Inl [simp]: "draw_chars f b n s \<noteq> (Inl e, t)"
  by (induction n arbitrary: s t) (auto simp: inv_simps random_below_def)

lemma generate_password_Inl: "generate_password s \<noteq> (Inl e, t)"
  by (simp add: generate_password_def inv_simps)

lemma generate_password_frame:
  assumes "generate_password s = (r, v)"
  shows "socks_configs v = socks_configs s \<and> credentials v = credentials s"
  using keepsD [OF keeps_generate_name(2) [OF env_blind_data],
      of "socks_configs s" "socks_seq s" "credentials s" "cm_host s" "cm_port s" s] assms
  by (simp add: data_is_def manager_is_def)

lemma rotate_password_Inr:
  assumes "rotate_password u s = (Inr p, t)"
  shows "u \<in> dom (credentials s) \<and> credentials t = (credentials s)(u \<mapsto> p) \<and>
         (\<exists>n. socks_configs t = set_password p n u (socks_configs s))"
proof -
  from assms obtain v n where g: "generate_password s = (Inr p, v)"
    and k: "credentials v u \<noteq> None"
    and t: "credentials t = (credentials v)(u \<mapsto> p)" "socks_configs t = set_password p n u (socks_configs v)"
    by (auto simp: rotate_password_def inv_simps split: option.splits)
  with generate_password_frame [OF g] show ?thesis by auto
qed

text \<open>A rotated password replaces the old one in memory and in the table together: after a
  successful rotation the two agree, the new password is the only one accepted for the user,
  and all other users keep theirs. A failed rotation of an unknown user changes neither.\<close>

theorem rotate_password_spec:
  assumes "synced s" and "rotate_password u s = (r, t)" and "\<forall>m. r \<noteq> Inl (Db m)"
  shows "synced t \<and>
    (case r of
       Inr p \<Rightarrow> u \<in> dom (credentials s) \<and> credentials t = (credentials s)(u \<mapsto> p)
     | Inl e \<Rightarrow> e = Internal (''Cannot rotate password for unknown user: '' @ u) \<and>
         u \<notin> dom (credentials s) \<and> credentials t = credentials s)"
proof (cases r)
  case (Inr p)
  have "u \<in> set (map username (socks_configs s)) \<longleftrightarrow> u \<in> dom (credentials s)"
    using assms(1) dom_key_map [of username password "socks_configs s"]
    by (simp only: synced_def sock_password_def)
  moreover note rotate_password_Inr [OF assms(2) [unfolded Inr]]
  ultimately show ?thesis
    using assms(1) Inr by (auto simp only: synced_def sock_password_set sum.case split: if_splits)
next
  case (Inl e)
  from assms(2) [unfolded Inl] obtain p where g: "generate_password s = (Inr p, t)"
    and e: "e = Internal (''Cannot rotate password for unknown user: '' @ u)" "credentials t u = None"
    using assms(3) Inl
    by (auto simp: rotate_password_def inv_simps generate_password_Inl split: option.splits)
  with generate_password_frame [OF g] assms(1) Inl show ?thesis
    by (auto simp: synced_def)
qed

theorem rotate_password_spec_witness:
  "\<exists>p t. rotate_password ''a''
       (demo_cred\<lparr>socks_configs := [demo_sock 1 ''a'' True 0], socks_seq := 1, credentials := [''a'' \<mapsto> ''pa'']\<rparr>) =
         (Inr p, t) \<and> synced t \<and> credentials t ''a'' = Some p"
proof -
  let ?s = "demo_cred\<lparr>socks_configs := [demo_sock 1 ''a'' True 0], socks_seq := 1, credentials := [''a'' \<mapsto> ''pa'']\<rparr>"
  have ok: "synced ?s" by (simp add: demo_sock_def synced_def sock_password_def)
  obtain p v where g: "generate_password ?s = (Inr p, v)"
    using generate_password_Inl by (metis obj_sumE surj_pair)
  have v: "data_is (socks_configs ?s) (socks_seq ?s) (credentials ?s) (cm_host ?s) (cm_port ?s) v"
    using keepsD [OF keeps_generate_name(2) [OF env_blind_data],
        of "socks_configs ?s" "socks_seq ?s" "credentials ?s" "cm_host ?s" "cm_port ?s" ?s] g
    by (simp add: data_is_def manager_is_def)
  have "env_blind no_faults" by (simp add: env_blind_def no_faults_def)
  from keepsD [OF keeps_generate_name(2) [OF this], of ?s] g have "no_faults v"
    by (simp add: no_faults_def)
  with g v have "\<exists>t. rotate_password ''a'' ?s = (Inr p, t)"
    by (simp add: rotate_password_def seq_simps run_simps data_is_def manager_is_def no_faults_def)
  then obtain t where t: "rotate_password ''a'' ?s = (Inr p, t)" by blast
  with rotate_password_spec [OF ok t] show ?thesis by simp
qed

end
