(* ===== verification/Wg_Server.thy ===== *)
theory Wg_Server
  imports Db_Wireguard Credentials
begin

text \<open>
  The embedded WireGuard server of \<open>src/src/wireguard/server.rs\<close> with the key generation of
  \<open>keygen.rs\<close>. The fields that never change are the record \<open>wg_server\<close>; the map of active
  peers is part of the state \<open>wg_st\<close>. The kernel interface belongs to another crate: every
  call to it is recorded in \<open>wg_calls\<close> with its outcome, and the \<open>n\<close>-th call fails if
  \<open>wg_fault s n\<close> says so.
\<close>

subsection \<open>Data\<close>

record peer_state =
  ps_peer_id :: u16
  ps_private_key :: string
  ps_public_key :: string
  ps_preshared_key :: string
  ps_allowed_ip :: ipv4

record peer_config =
  pc_peer_id :: u16
  pc_client_private_key :: string
  pc_client_address :: string
  pc_server_public_key :: string
  pc_preshared_key :: string
  pc_endpoint :: string
  pc_dns :: string

record wg_server =
  ws_interface_name :: string
  ws_private_key :: string
  ws_public_key :: string
  ws_listen_port :: u16
  ws_subnet_base :: ipv4
  ws_endpoint_host :: string
  ws_dns :: string

text \<open>\<open>defguard_wireguard_rs\<close>: the values handed to the kernel interface.\<close>

record wg_peer =
  wp_key :: "u8 list"
  wp_preshared :: "u8 list option"
  wp_allowed_ips :: "string list"
  wp_keepalive :: "nat option"

record iface_config =
  if_name :: string
  if_prvkey :: string
  if_addresses :: "string list"
  if_port :: u16

datatype wg_call =
    Open_api string
  | Create_interface
  | Configure_interface iface_config
  | Configure_peer wg_peer
  | Remove_peer "u8 list"
  | Remove_interface

record wg_st = cred_st +
  peers :: "u16 \<rightharpoonup> peer_state"
  wg_calls :: "(wg_call \<times> bool) list"
  wg_fault :: "nat \<Rightarrow> string option"

type_synonym ('z, 'a) wg_op = "('z wg_st_scheme, app_error, 'a) rm"

definition wg_api :: "(string \<Rightarrow> string) \<Rightarrow> wg_call \<Rightarrow> ('z, unit) wg_op" where
  "wg_api message call s =
     (let fault = wg_fault s (length (wg_calls s));
          t = s\<lparr>wg_calls := wg_calls s @ [(call, fault = None)]\<rparr>
      in case fault of None \<Rightarrow> (Inr (), t) | Some e \<Rightarrow> (Inl (Internal (message e)), t))"

subsection \<open>Rendering a client configuration\<close>

definition text_lines :: "peer_config \<Rightarrow> string list" where
  "text_lines c =
     [''[Interface]'',
      ''Address = '' @ pc_client_address c,
      ''PrivateKey = '' @ pc_client_private_key c,
      ''ListenPort = 51820'',
      ''DNS = '' @ pc_dns c,
      [],
      ''[Peer]'',
      ''PublicKey = '' @ pc_server_public_key c,
      ''PresharedKey = '' @ pc_preshared_key c,
      ''AllowedIPs = 0.0.0.0/0, ::/0'',
      ''Endpoint = '' @ pc_endpoint c]"

definition to_text :: "peer_config \<Rightarrow> string" where
  "to_text c = join_str NL (text_lines c)"

definition to_json :: "peer_config \<Rightarrow> json" where
  "to_json c =
     JObj
       [(''interface'', JObj
          [(''Address'', JStr (pc_client_address c)),
           (''PrivateKey'', JStr (pc_client_private_key c)),
           (''ListenPort'', JInt 51820),
           (''DNS'', JStr (pc_dns c))]),
        (''peer'', JObj
          [(''PublicKey'', JStr (pc_server_public_key c)),
           (''PresharedKey'', JStr (pc_preshared_key c)),
           (''AllowedIPs'', JStr ''0.0.0.0/0, ::/0''),
           (''Endpoint'', JStr (pc_endpoint c))])]"

subsection \<open>Keys\<close>

record wg_key_pair =
  private_key :: string
  public_key :: string

definition generate_keypair :: "('z, wg_key_pair) env_op" where
  "generate_keypair =
     and_then (gets ext) (\<lambda>x.
     and_then random_32 (\<lambda>secret.
     ok \<lparr>private_key = ext_b64_encode x secret, public_key = ext_b64_encode x (ext_x25519_public x secret)\<rparr>))"

definition generate_preshared_key :: "('z, string) env_op" where
  "generate_preshared_key =
     and_then (gets ext) (\<lambda>x.
     and_then random_32 (\<lambda>key.
     ok (ext_b64_encode x key)))"

definition public_key_from_private :: "externals \<Rightarrow> string \<Rightarrow> string + string" where
  "public_key_from_private x private_key_b64 =
     (case ext_b64_decode x private_key_b64 of
        Inl e \<Rightarrow> Inl e
      | Inr bytes \<Rightarrow>
          if length bytes \<noteq> 32 then Inl ''Invalid private key length''
          else Inr (ext_b64_encode x (ext_x25519_public x bytes)))"

subsection \<open>Addresses\<close>

definition server_address :: "wg_server \<Rightarrow> string" where
  "server_address srv =
     (let b = ws_subnet_base srv in show_ipv4 (Ipv4 (oct0 b) (oct1 b) (oct2 b) (oct3 b + 1)))"

definition peer_ip :: "wg_server \<Rightarrow> u16 \<Rightarrow> ipv4" where
  "peer_ip srv peer =
     (let b = ws_subnet_base srv; last_octet = (ucast (oct3 b) :: u16) + peer + 1
      in Ipv4 (oct0 b) (oct1 b) (oct2 b) (ucast last_octet))"

definition endpoint :: "wg_server \<Rightarrow> string" where
  "endpoint srv = ws_endpoint_host srv @ '':'' @ show_u16 (ws_listen_port srv)"

subsection \<open>Server keys\<close>

definition latest_server_key :: "server_key_row list \<Rightarrow> server_key_row option" where
  "latest_server_key rows = (case rev (sort_key sk_id rows) of [] \<Rightarrow> None | r # _ \<Rightarrow> Some r)"

definition next_server_id :: "server_key_row list \<Rightarrow> int" where
  "next_server_id rows = (if rows = [] then 1 else Max (set (map sk_id rows)) + 1)"

definition load_or_create_server_keys :: "('z, string \<times> string) db_op" where
  "load_or_create_server_keys =
     and_then (sql_query (\<lambda>s. latest_server_key (wg_servers s))) (\<lambda>existing.
     case existing of
       Some row \<Rightarrow> ok (sk_private_key row, sk_public_key row)
     | None \<Rightarrow>
         and_then generate_keypair (\<lambda>kp.
         and_then (sql_exec (\<lambda>s. s\<lparr>wg_servers := wg_servers s @
             [\<lparr>sk_id = next_server_id (wg_servers s), sk_private_key = private_key kp,
               sk_public_key = public_key kp\<rparr>]\<rparr>)) (\<lambda>_.
         ok (private_key kp, public_key kp))))"

definition new_server :: "config \<Rightarrow> ('z, wg_server) wg_op" where
  "new_server cfg =
     and_then (ok_or (Internal ''Invalid WG subnet: invalid IPv4 address syntax'')
                (parse_ipv4 (wg_subnet cfg))) (\<lambda>subnet.
     and_then load_or_create_server_keys (\<lambda>(priv, pub).
     and_then (wg_api (\<lambda>e. ''Failed to create WGApi: '' @ e) (Open_api (wg_interface_name cfg))) (\<lambda>_.
     and_then (modify (\<lambda>s. s\<lparr>peers := Map.empty\<rparr>)) (\<lambda>_.
     ok \<lparr>ws_interface_name = wg_interface_name cfg, ws_private_key = priv, ws_public_key = pub,
         ws_listen_port = wireguard_server_port cfg, ws_subnet_base = subnet,
         ws_endpoint_host = server_public_host cfg, ws_dns = wg_dns cfg\<rparr>))))"

subsection \<open>The interface and its peers\<close>

definition shutdown :: "('z, unit) wg_op" where
  "shutdown = wg_api (\<lambda>e. ''Failed to remove WG interface: '' @ e) Remove_interface"

definition decode_key :: "string \<Rightarrow> string \<Rightarrow> string \<Rightarrow> ('z, u8 list) env_op" where
  "decode_key bad_base64 bad_key text =
     and_then (gets ext) (\<lambda>x.
     case ext_b64_decode x text of
       Inl e \<Rightarrow> err (Internal (bad_base64 @ e))
     | Inr bytes \<Rightarrow>
         (case ext_wg_key x bytes of
            Inl e \<Rightarrow> err (Internal (bad_key @ e))
          | Inr key \<Rightarrow> ok key))"

definition parse_mask :: "(string \<Rightarrow> string) \<Rightarrow> string \<Rightarrow> ('z, string) env_op" where
  "parse_mask message text =
     and_then (gets ext) (\<lambda>x.
     case ext_ip_mask x text of Inl e \<Rightarrow> err (Internal (message e)) | Inr addr \<Rightarrow> ok addr)"

definition create_interface :: "wg_server \<Rightarrow> ('z, unit) wg_op" where
  "create_interface srv =
     and_then (wg_api (\<lambda>e. ''Failed to create WG interface: '' @ e) Create_interface) (\<lambda>_.
     and_then (parse_mask (\<lambda>e. ''Invalid server IP '' @ [CHR 0x27] @ server_address srv @ [CHR 0x27] @ '': '' @ e)
                 (server_address srv)) (\<lambda>addr.
     wg_api (\<lambda>e. ''Failed to configure WG interface: '' @ e)
       (Configure_interface \<lparr>if_name = ws_interface_name srv, if_prvkey = ws_private_key srv,
                              if_addresses = [addr], if_port = ws_listen_port srv\<rparr>)))"

definition add_peer_to_interface :: "string \<Rightarrow> string \<Rightarrow> string \<Rightarrow> ('z, unit) wg_op" where
  "add_peer_to_interface public_key_b64 preshared_key_b64 allowed_ip =
     and_then (decode_key ''Invalid public key base64: '' ''Key conversion error: '' public_key_b64) (\<lambda>key.
     and_then (if preshared_key_b64 = [] then ok None
               else and_then (decode_key ''Invalid PSK base64: '' ''PSK key conversion error: '' preshared_key_b64)
                      (\<lambda>psk. ok (Some psk))) (\<lambda>psk.
     and_then (parse_mask (\<lambda>e. ''Invalid allowed IP '' @ [CHR 0x27] @ allowed_ip @ [CHR 0x27] @ '': '' @ e)
                 allowed_ip) (\<lambda>addr.
     wg_api (\<lambda>e. ''Failed to configure peer: '' @ e)
       (Configure_peer \<lparr>wp_key = key, wp_preshared = psk, wp_allowed_ips = [addr], wp_keepalive = Some 25\<rparr>))))"

definition client_config :: "wg_server \<Rightarrow> u16 \<Rightarrow> peer_state \<Rightarrow> peer_config" where
  "client_config srv peer state =
     \<lparr>pc_peer_id = peer, pc_client_private_key = ps_private_key state,
      pc_client_address = show_ipv4 (ps_allowed_ip state), pc_server_public_key = ws_public_key srv,
      pc_preshared_key = ps_preshared_key state, pc_endpoint = endpoint srv, pc_dns = ws_dns srv\<rparr>"

definition add_peer :: "wg_server \<Rightarrow> u16 \<Rightarrow> ('z, peer_config) wg_op" where
  "add_peer srv peer =
     and_then generate_keypair (\<lambda>kp.
     and_then generate_preshared_key (\<lambda>psk.
     let allowed = peer_ip srv peer in
     and_then (add_peer_to_interface (public_key kp) psk (show_ipv4 allowed @ ''/32'')) (\<lambda>_.
     and_then (modify (\<lambda>s. s\<lparr>peers := (peers s)(peer \<mapsto>
         \<lparr>ps_peer_id = peer, ps_private_key = private_key kp, ps_public_key = public_key kp,
          ps_preshared_key = psk, ps_allowed_ip = allowed\<rparr>)\<rparr>)) (\<lambda>_.
     ok \<lparr>pc_peer_id = peer, pc_client_private_key = private_key kp, pc_client_address = show_ipv4 allowed,
         pc_server_public_key = ws_public_key srv, pc_preshared_key = psk, pc_endpoint = endpoint srv,
         pc_dns = ws_dns srv\<rparr>))))"

definition remove_peer :: "u16 \<Rightarrow> ('z, unit) wg_op" where
  "remove_peer peer =
     and_then (gets (\<lambda>s. peers s peer)) (\<lambda>state.
     and_then (modify (\<lambda>s. s\<lparr>peers := (peers s)(peer := None)\<rparr>)) (\<lambda>_.
     case state of
       None \<Rightarrow> ok ()
     | Some st \<Rightarrow>
         and_then (decode_key ''Invalid public key: '' ''Key conversion failed: '' (ps_public_key st)) (\<lambda>key.
         wg_api (\<lambda>e. ''Failed to remove peer '' @ show_u16 peer @ '': '' @ e) (Remove_peer key))))"

definition rotate_peer_keys :: "wg_server \<Rightarrow> u16 \<Rightarrow> ('z, peer_config) wg_op" where
  "rotate_peer_keys srv peer =
     and_then (attempt (remove_peer peer)) (\<lambda>(_ :: app_error + unit).
     add_peer srv peer)"

definition get_client_config :: "wg_server \<Rightarrow> u16 \<Rightarrow> ('z, peer_config) wg_op" where
  "get_client_config srv peer =
     and_then (gets (\<lambda>s. peers s peer)) (\<lambda>state.
     and_then (ok_or (Internal (''Peer '' @ show_u16 peer @ '' not found in active peers'')) state) (\<lambda>st.
     ok (client_config srv peer st)))"

definition active_peer_count :: "'z wg_st_scheme \<Rightarrow> nat" where
  "active_peer_count s = card (dom (peers s))"

subsection \<open>Restoring peers after a restart\<close>

definition restorable :: "int \<Rightarrow> wg_row list \<Rightarrow> wg_row list" where
  "restorable now rows =
     filter (\<lambda>r. wg_expires_at r > now \<and> wg_private_key r \<noteq> None \<and> wg_public_key r \<noteq> None) rows"

definition row_ip :: "wg_server \<Rightarrow> wg_row \<Rightarrow> string" where
  "row_ip srv r =
     (case wg_allowed_ip r of None \<Rightarrow> show_ipv4 (peer_ip srv (as_u16 (wg_id r))) | Some a \<Rightarrow> a)"

definition row_state :: "wg_server \<Rightarrow> wg_row \<Rightarrow> string \<Rightarrow> peer_state" where
  "row_state srv r pub =
     (let peer = as_u16 (wg_id r) in
      \<lparr>ps_peer_id = peer,
       ps_private_key = (case wg_private_key r of None \<Rightarrow> [] | Some k \<Rightarrow> k),
       ps_public_key = pub,
       ps_preshared_key = (case wg_preshared_key r of None \<Rightarrow> [] | Some k \<Rightarrow> k),
       ps_allowed_ip = (case parse_ipv4 (row_ip srv r) of None \<Rightarrow> peer_ip srv peer | Some ip \<Rightarrow> ip)\<rparr>)"

definition restore_row :: "wg_server \<Rightarrow> wg_row \<Rightarrow> ('z, nat) wg_op" where
  "restore_row srv r =
     (case wg_public_key r of
        None \<Rightarrow> ok 0
      | Some pub \<Rightarrow>
          and_then (attempt (add_peer_to_interface pub
             (case wg_preshared_key r of None \<Rightarrow> [] | Some k \<Rightarrow> k) (row_ip srv r))) (\<lambda>res.
          case res of
            Inl (e :: app_error) \<Rightarrow> ok 0
          | Inr _ \<Rightarrow>
              and_then (modify (\<lambda>s. s\<lparr>peers := (peers s)(as_u16 (wg_id r) \<mapsto> row_state srv r pub)\<rparr>)) (\<lambda>_.
              ok 1)))"

fun restore_rows :: "wg_server \<Rightarrow> wg_row list \<Rightarrow> ('z, nat) wg_op" where
  "restore_rows srv [] = ok 0"
| "restore_rows srv (r # rs) =
     and_then (restore_row srv r) (\<lambda>n.
     and_then (restore_rows srv rs) (\<lambda>m.
     ok (n + m)))"

definition restore_peers :: "wg_server \<Rightarrow> ('z, nat) wg_op" where
  "restore_peers srv =
     and_then now_ms (\<lambda>now.
     and_then (sql_query (\<lambda>s. restorable now (wg_configs s))) (\<lambda>rows.
     restore_rows srv rows))"

subsection \<open>What the other crates promise\<close>

text \<open>
  base64 decoding inverts encoding, public keys have 32 bytes like secret ones, every 32 bytes
  are a \<open>Key\<close>, an IPv4 address is a mask, and without a prefix length it means \<open>/32\<close>.
\<close>

definition wg_ext_ok :: "externals \<Rightarrow> bool" where
  "wg_ext_ok x \<longleftrightarrow>
     (\<forall>bs. ext_b64_decode x (ext_b64_encode x bs) = Inr bs) \<and>
     (\<forall>bs. length bs = 32 \<longrightarrow> length (ext_x25519_public x bs) = 32) \<and>
     (\<forall>bs. length bs = 32 \<longrightarrow> ext_wg_key x bs = Inr bs) \<and>
     (\<forall>ip. \<exists>a. ext_ip_mask x (show_ipv4 ip) = Inr a) \<and>
     (\<forall>ip. ext_ip_mask x (show_ipv4 ip @ ''/32'') = ext_ip_mask x (show_ipv4 ip))"

lemma wg_ext_okD:
  assumes "wg_ext_ok x"
  shows "ext_b64_decode x (ext_b64_encode x bs) = Inr bs"
    "length bs = 32 \<Longrightarrow> length (ext_x25519_public x bs) = 32"
    "length bs = 32 \<Longrightarrow> ext_wg_key x bs = Inr bs"
    "\<exists>a. ext_ip_mask x (show_ipv4 ip) = Inr a"
    "ext_ip_mask x (show_ipv4 ip @ ''/32'') = ext_ip_mask x (show_ipv4 ip)"
  using assms by (auto simp: wg_ext_ok_def)

subsection \<open>Execution on generated keys\<close>

lemma wg_api_Inr [inv_simps]:
  "wg_api m call s = (Inr x, t) \<longleftrightarrow>
     wg_fault s (length (wg_calls s)) = None \<and> t = s\<lparr>wg_calls := wg_calls s @ [(call, True)]\<rparr>"
  by (auto simp: wg_api_def Let_def split: option.splits)

lemma wg_api_Inl [inv_simps]:
  "wg_api m call s = (Inl e, t) \<longleftrightarrow>
     (\<exists>f. wg_fault s (length (wg_calls s)) = Some f \<and> e = Internal (m f) \<and>
          t = s\<lparr>wg_calls := wg_calls s @ [(call, False)]\<rparr>)"
  by (auto simp: wg_api_def Let_def split: option.splits)

lemma wg_api_run [run_simps]:
  "wg_fault s (length (wg_calls s)) = None \<Longrightarrow>
   wg_api m call s = (Inr (), s\<lparr>wg_calls := wg_calls s @ [(call, True)]\<rparr>)"
  by (simp add: wg_api_Inr)

definition kernel_peer :: "externals \<Rightarrow> u8 list \<Rightarrow> u8 list \<Rightarrow> string \<Rightarrow> wg_peer" where
  "kernel_peer x k q addr =
     \<lparr>wp_key = k, wp_preshared = (if ext_b64_encode x q = [] then None else Some q),
      wp_allowed_ips = [addr], wp_keepalive = Some 25\<rparr>"

lemma add_peer_to_interface_run:
  assumes x: "wg_ext_ok (ext s)" and k: "length k = 32" and q: "length q = 32"
    and a: "ext_ip_mask (ext s) ip = Inr addr"
  shows "add_peer_to_interface (ext_b64_encode (ext s) k) (ext_b64_encode (ext s) q) ip s =
    wg_api (\<lambda>e. ''Failed to configure peer: '' @ e) (Configure_peer (kernel_peer (ext s) k q addr)) s"
  using wg_ext_okD(1,3) [OF x] k q a
  by (simp add: add_peer_to_interface_def decode_key_def parse_mask_def kernel_peer_def seq_simps run_simps)

text \<open>The state a freshly added peer gets, from its two random draws.\<close>

definition fresh_state :: "externals \<Rightarrow> wg_server \<Rightarrow> u16 \<Rightarrow> u8 list \<Rightarrow> u8 list \<Rightarrow> peer_state" where
  "fresh_state x srv peer secret psk =
     \<lparr>ps_peer_id = peer, ps_private_key = ext_b64_encode x secret,
      ps_public_key = ext_b64_encode x (ext_x25519_public x secret),
      ps_preshared_key = ext_b64_encode x psk, ps_allowed_ip = peer_ip srv peer\<rparr>"

lemma add_peer_run:
  assumes x: "wg_ext_ok (ext s)" and rb: "\<forall>n. length (rand_bytes s n) = 32"
    and a: "ext_ip_mask (ext s) (show_ipv4 (peer_ip srv peer)) = Inr addr"
  shows "add_peer srv peer s =
    (let secret = rand_bytes s (rand_pos s); psk = rand_bytes s (Suc (rand_pos s));
         st = fresh_state (ext s) srv peer secret psk;
         p = kernel_peer (ext s) (ext_x25519_public (ext s) secret) psk addr;
         u = s\<lparr>rand_pos := Suc (Suc (rand_pos s)), wg_calls := wg_calls s @ [(Configure_peer p, wg_fault s (length (wg_calls s)) = None)]\<rparr>
     in case wg_fault s (length (wg_calls s)) of
          None \<Rightarrow> (Inr (client_config srv peer st), u\<lparr>peers := (peers s)(peer \<mapsto> st)\<rparr>)
        | Some f \<Rightarrow> (Inl (Internal (''Failed to configure peer: '' @ f)), u))"
proof -
  let ?u = "s\<lparr>rand_pos := Suc (Suc (rand_pos s))\<rparr>"
  have "add_peer_to_interface (ext_b64_encode (ext s) (ext_x25519_public (ext s) (rand_bytes s (rand_pos s))))
      (ext_b64_encode (ext s) (rand_bytes s (Suc (rand_pos s)))) (show_ipv4 (peer_ip srv peer) @ ''/32'') ?u =
    wg_api (\<lambda>e. ''Failed to configure peer: '' @ e)
      (Configure_peer (kernel_peer (ext s) (ext_x25519_public (ext s) (rand_bytes s (rand_pos s)))
         (rand_bytes s (Suc (rand_pos s))) addr)) ?u"
    using add_peer_to_interface_run [of ?u "ext_x25519_public (ext s) (rand_bytes s (rand_pos s))"
        "rand_bytes s (Suc (rand_pos s))" "show_ipv4 (peer_ip srv peer) @ ''/32''" addr]
      x rb a wg_ext_okD(2,5) [OF x] by simp
  then show ?thesis
    by (auto simp: add_peer_def generate_keypair_def generate_preshared_key_def Let_def seq_simps run_simps
        wg_api_def client_config_def fresh_state_def split: option.split)
qed

subsection \<open>Addresses of peers\<close>

lemma unat_peer_octet:
  "unat (ucast (ucast (b :: u8) + (p :: u16) + 1 :: u16) :: u8) = (unat b + unat p + 1) mod 256"
proof -
  have d: "(256 :: nat) dvd 65536" by simp
  have "unat (ucast (ucast b + p + 1 :: u16) :: u8) = unat (ucast b + p + 1 :: u16) mod 256"
    by (simp add: unsigned_ucast_eq take_bit_eq_mod)
  also have "unat (ucast b + p + 1 :: u16) = (unat b + unat p + 1) mod 65536"
    using unat_u8_less [of b]
    by (simp add: unat_word_ariths unsigned_ucast_eq take_bit_eq_mod mod_simps)
  finally show ?thesis using mod_mod_cancel [OF d] by simp
qed

lemma oct3_peer_ip:
  "unat (oct3 (peer_ip srv p)) = (unat (oct3 (ws_subnet_base srv)) + unat p + 1) mod 256"
  by (simp add: peer_ip_def Let_def unat_peer_octet)

lemma mod_shift_inject:
  fixes b p q m :: nat
  assumes "(b + p) mod m = (b + q) mod m" and "p < m" and "q < m"
  shows "p = q"
proof -
  have "int (b + p) mod int m = int (b + q) mod int m"
    using assms(1) by (metis of_nat_mod)
  then have "int m dvd int p - int q"
    by (simp add: mod_eq_dvd_iff)
  moreover have "\<bar>int p - int q\<bar> < int m"
    using assms(2,3) by linarith
  ultimately have "int p - int q = 0"
    using dvd_imp_le_int [of "int p - int q" "int m"] by fastforce
  then show ?thesis by simp
qed

lemma peer_ip_inject:
  assumes "unat p < 256" and "unat q < 256" and "peer_ip srv p = peer_ip srv q"
  shows "p = q"
proof -
  from assms(3) have "unat (oct3 (peer_ip srv p)) = unat (oct3 (peer_ip srv q))" by simp
  then have "unat p = unat q"
    using mod_shift_inject [of "unat (oct3 (ws_subnet_base srv)) + 1" "unat p" 256 "unat q"] assms(1,2)
    by (simp add: oct3_peer_ip ac_simps)
  then show ?thesis by (rule unsigned_word_eqI)
qed

lemma peer_ip_not_server:
  assumes "0 < unat p" and "unat p < 256"
  shows "show_ipv4 (peer_ip srv p) \<noteq> server_address srv"
proof
  let ?b = "oct3 (ws_subnet_base srv)"
  assume "show_ipv4 (peer_ip srv p) = server_address srv"
  then have "oct3 (peer_ip srv p) = ?b + 1" by (auto simp: server_address_def Let_def peer_ip_def)
  then have "(unat ?b + unat p + 1) mod 256 = (unat ?b + 1) mod 256"
    using oct3_peer_ip [of srv p] by (simp add: unat_word_ariths)
  then have "unat p = 0"
    using mod_shift_inject [of "unat ?b + 1" "unat p" 256 0] assms(2) by (simp add: ac_simps)
  with assms(1) show False by simp
qed

subsection \<open>Operations on the peer map\<close>

lemma add_peer_Inr:
  assumes "add_peer srv peer s = (Inr c, t)" and "wg_ext_ok (ext s)" and "\<forall>n. length (rand_bytes s n) = 32"
  obtains secret psk addr where
    "length secret = 32" "length psk = 32" "ext_ip_mask (ext s) (show_ipv4 (peer_ip srv peer)) = Inr addr"
    "c = client_config srv peer (fresh_state (ext s) srv peer secret psk)"
    "t = s\<lparr>rand_pos := Suc (Suc (rand_pos s)),
           wg_calls := wg_calls s @
             [(Configure_peer (kernel_peer (ext s) (ext_x25519_public (ext s) secret) psk addr), True)],
           peers := (peers s)(peer \<mapsto> fresh_state (ext s) srv peer secret psk)\<rparr>"
proof -
  obtain addr where a: "ext_ip_mask (ext s) (show_ipv4 (peer_ip srv peer)) = Inr addr"
    using wg_ext_okD(4) [OF assms(2)] by blast
  show thesis
    using that [OF _ _ a] assms(1,3) add_peer_run [OF assms(2,3) a]
    by (auto simp: Let_def split: option.splits)
qed

lemma get_client_config_run:
  "get_client_config srv peer s =
     (case peers s peer of
        None \<Rightarrow> (Inl (Internal (''Peer '' @ show_u16 peer @ '' not found in active peers'')), s)
      | Some st \<Rightarrow> (Inr (client_config srv peer st), s))"
  by (simp add: get_client_config_def ok_or_def seq_simps run_simps split: option.split)

lemma remove_peer_run:
  assumes "wg_ext_ok (ext s)" and "peers s peer = Some st" and "ps_public_key st = ext_b64_encode (ext s) k"
    and "length k = 32"
  shows "remove_peer peer s =
    wg_api (\<lambda>e. ''Failed to remove peer '' @ show_u16 peer @ '': '' @ e) (Remove_peer k)
      (s\<lparr>peers := (peers s)(peer := None)\<rparr>)"
  using assms wg_ext_okD(1,3) [OF assms(1)]
  by (simp add: remove_peer_def decode_key_def seq_simps run_simps)

lemma remove_peer_forgets: "peers (snd (remove_peer peer s)) = (peers s)(peer := None)"
proof -
  have frame: "keeps (\<lambda>s. peers s = m) (decode_key a b k)" "keeps (\<lambda>s. peers s = m) (wg_api f call)" for m a b k f call
    by (auto simp: keeps_def decode_key_def wg_api_def Let_def seq_simps run_simps split: sum.splits option.splits)
  show ?thesis
  proof (cases "peers s peer")
    case None
    then show ?thesis by (simp add: remove_peer_def seq_simps run_simps)
  next
    case (Some st)
    let ?rest = "and_then (decode_key ''Invalid public key: '' ''Key conversion failed: '' (ps_public_key st))
        (\<lambda>key. wg_api (\<lambda>e. ''Failed to remove peer '' @ show_u16 peer @ '': '' @ e) (Remove_peer key))"
    have "keeps (\<lambda>s. peers s = m) ?rest" for m by (intro keeps_rules frame)
    from keepsD [OF this refl, of "s\<lparr>peers := (peers s)(peer := None)\<rparr>"] Some
    show ?thesis by (simp add: remove_peer_def run_and_then run_simps)
  qed
qed

subsection \<open>The server key table\<close>

lemma insort_key_snoc: "f y \<le> f x \<Longrightarrow> insort_key f y (zs @ [x]) = insort_key f y zs @ [x]"
  by (induction zs) auto

lemma sort_key_snoc_max: "\<forall>r \<in> set rows. f r \<le> f x \<Longrightarrow> sort_key f (rows @ [x]) = sort_key f rows @ [x]"
  by (induction rows) (auto simp: insort_key_snoc)

lemma latest_append:
  "latest_server_key (rows @ [\<lparr>sk_id = next_server_id rows, sk_private_key = a, sk_public_key = b\<rparr>]) =
     Some \<lparr>sk_id = next_server_id rows, sk_private_key = a, sk_public_key = b\<rparr>"
proof -
  let ?r = "\<lparr>sk_id = next_server_id rows, sk_private_key = a, sk_public_key = b\<rparr>"
  have "\<forall>r \<in> set rows. sk_id r \<le> sk_id ?r"
  proof
    fix r
    assume r: "r \<in> set rows"
    then have "sk_id r \<le> Max (sk_id ` set rows)" by (intro Max_ge) auto
    with r show "sk_id r \<le> sk_id ?r" by (cases rows) (auto simp: next_server_id_def)
  qed
  then have "sort_key sk_id (rows @ [?r]) = sort_key sk_id rows @ [?r]"
    by (rule sort_key_snoc_max)
  then show ?thesis by (simp add: latest_server_key_def)
qed

subsection \<open>A concrete server\<close>

lemma bytes_of_string_bytes [simp]: "bytes_of_string (string_of_bytes bs) = bs"
proof -
  have "word_of_nat (of_char (char_of (unat b) :: char)) = b" for b :: u8
    using unat_u8_less [of b] by (simp add: of_char_mod_256)
  then show ?thesis by (simp add: bytes_of_string_def string_of_bytes_def comp_def map_idI)
qed

lemma before_slash: "CHR ''/'' \<notin> set s \<Longrightarrow> before_str ''/'' (s @ ''/'' @ t) = s \<and> before_str ''/'' s = s"
  by (induction s) (auto simp: starts_with_def)

lemma demo_ext_ok: "wg_ext_ok demo_ext"
proof -
  have "CHR ''/'' \<notin> set (show_ipv4 ip)" for ip
    using show_ipv4_chars [of "CHR ''/''" ip] by (auto simp: is_digit_def)
  from before_slash [OF this] show ?thesis
    by (simp add: wg_ext_ok_def demo_ext_def)
qed

definition demo_wg :: wg_st where
  "demo_wg = cred_st.extend demo_cred \<lparr>peers = Map.empty, wg_calls = [], wg_fault = (\<lambda>n. None)\<rparr>"

lemma demo_wg_simps [simp]:
  "clock demo_wg = (\<lambda>n. 1000 + int n)" "clock_pos demo_wg = 0" "db_pos demo_wg = 0"
  "db_fault demo_wg = (\<lambda>n. None)" "lock_timeout demo_wg = (\<lambda>n. False)" "lock_pos demo_wg = 0"
  "ext demo_wg = demo_ext" "rand_pos demo_wg = 0" "rand_bytes demo_wg = (\<lambda>n. replicate 32 (word_of_nat n))"
  "rand_below demo_wg = (\<lambda>n k. n mod k)" "wg_configs demo_wg = []" "wg_servers demo_wg = []"
  "peers demo_wg = Map.empty" "wg_calls demo_wg = []" "wg_fault demo_wg = (\<lambda>n. None)"
  "socks_configs demo_wg = []" "credentials demo_wg = Map.empty"
  by (simp_all add: demo_wg_def demo_cred_def demo_db_def cred_st.defs db_st.defs)

definition demo_server :: wg_server where
  "demo_server =
     \<lparr>ws_interface_name = ''wg0'', ws_private_key = ''sk'', ws_public_key = ''pk'', ws_listen_port = 51820,
      ws_subnet_base = Ipv4 10 13 13 0, ws_endpoint_host = ''198.51.100.7'', ws_dns = ''1.1.1.1''\<rparr>"

subsection \<open>Properties\<close>

text \<open>C32: Peers never share an address, and none gets the server's: for the ids \<open>effective_peer_count\<close>
  allows, whatever the subnet, \<open>peer_ip\<close> is injective, stays in the /24 of the subnet and
  differs from \<open>server_address\<close>, although its last octet is computed in 16 bits and cut to 8.\<close>

theorem peer_addresses_distinct:
  assumes "0 < unat p" and "unat p \<le> unat (effective_peer_count cfg)"
    and "0 < unat q" and "unat q \<le> unat (effective_peer_count cfg)"
  shows "(peer_ip srv p = peer_ip srv q \<longleftrightarrow> p = q) \<and>
         show_ipv4 (peer_ip srv p) \<noteq> server_address srv \<and>
         oct0 (peer_ip srv p) = oct0 (ws_subnet_base srv) \<and> oct1 (peer_ip srv p) = oct1 (ws_subnet_base srv) \<and>
         oct2 (peer_ip srv p) = oct2 (ws_subnet_base srv)"
proof -
  have "unat (effective_peer_count cfg) \<le> 253"
    by (simp add: effective_peer_count_def min_def max_def word_le_nat_alt)
  with assms have "unat p < 256" "unat q < 256" by simp_all
  with assms(1) peer_ip_inject [of p q srv] peer_ip_not_server [of p srv] show ?thesis
    by (auto simp: peer_ip_def Let_def)
qed

text \<open>What \<open>add_peer\<close> puts on the interface is what \<open>remove_peer\<close> takes off it: after an
  addition the peer's configuration can be read back unchanged, the kernel was given one peer
  with a 32-byte key and the peer's address only, and a removal names the same key and
  forgets the peer.\<close>

theorem add_then_remove_peer:
  assumes "wg_ext_ok (ext s)" and "\<forall>n. length (rand_bytes s n) = 32"
    and "add_peer srv peer s = (Inr c, t)"
  shows "get_client_config srv peer t = (Inr c, t) \<and>
    (\<exists>k q addr. length k = 32 \<and> ext_ip_mask (ext s) (show_ipv4 (peer_ip srv peer)) = Inr addr \<and>
       wg_calls t = wg_calls s @ [(Configure_peer (kernel_peer (ext s) k q addr), True)] \<and>
       (\<forall>r u. remove_peer peer t = (r, u) \<longrightarrow>
          wg_calls u = wg_calls t @ [(Remove_peer k, r = Inr ())] \<and> peers u = (peers s)(peer := None)))"
proof (rule add_peer_Inr [OF assms(3,1,2)])
  fix secret psk addr
  let ?st = "fresh_state (ext s) srv peer secret psk" and ?k = "ext_x25519_public (ext s) secret"
  assume sec: "length secret = 32"
    and a: "ext_ip_mask (ext s) (show_ipv4 (peer_ip srv peer)) = Inr addr" and c: "c = client_config srv peer ?st"
    and t: "t = s\<lparr>rand_pos := Suc (Suc (rand_pos s)),
           wg_calls := wg_calls s @ [(Configure_peer (kernel_peer (ext s) ?k psk addr), True)],
           peers := (peers s)(peer \<mapsto> ?st)\<rparr>"
  have k: "length ?k = 32" using wg_ext_okD(2) [OF assms(1) sec] .
  have "remove_peer peer t = wg_api (\<lambda>e. ''Failed to remove peer '' @ show_u16 peer @ '': '' @ e) (Remove_peer ?k)
      (t\<lparr>peers := (peers t)(peer := None)\<rparr>)"
    using assms(1) k by (intro remove_peer_run [where st = ?st]) (simp_all add: t fresh_state_def)
  then have rem: "\<forall>r u. remove_peer peer t = (r, u) \<longrightarrow>
      wg_calls u = wg_calls t @ [(Remove_peer ?k, r = Inr ())] \<and> peers u = (peers s)(peer := None)"
    by (auto simp: wg_api_def Let_def t split: option.splits)
  have get: "get_client_config srv peer t = (Inr c, t)"
    by (simp add: get_client_config_run t c)
  have calls: "wg_calls t = wg_calls s @ [(Configure_peer (kernel_peer (ext s) ?k psk addr), True)]"
    by (simp add: t)
  show ?thesis using get k a calls rem by blast
qed

theorem add_then_remove_peer_witness:
  "\<exists>c t. add_peer demo_server 7 demo_wg = (Inr c, t) \<and> get_client_config demo_server 7 t = (Inr c, t) \<and>
     (\<exists>k. length k = 32 \<and> (\<forall>r u. remove_peer 7 t = (r, u) \<longrightarrow> wg_calls u = wg_calls t @ [(Remove_peer k, r = Inr ())]))"
proof -
  have x: "wg_ext_ok (ext demo_wg)" "\<forall>n. length (rand_bytes demo_wg n) = 32"
    by (simp_all add: demo_ext_ok)
  obtain addr where a: "ext_ip_mask (ext demo_wg) (show_ipv4 (peer_ip demo_server 7)) = Inr addr"
    using wg_ext_okD(4) [OF x(1)] by blast
  obtain c t where ct: "add_peer demo_server 7 demo_wg = (Inr c, t)"
    using add_peer_run [OF x a] unfolding Let_def demo_wg_simps by simp
  from add_then_remove_peer [OF x ct] ct show ?thesis by auto
qed

theorem peer_addresses_distinct_witness:
  "peer_ip demo_server 1 \<noteq> peer_ip demo_server 253 \<and> show_ipv4 (peer_ip demo_server 1) \<noteq> server_address demo_server"
proof -
  let ?cfg = "undefined\<lparr>wireguard_peer_count := 253\<rparr> :: config"
  have "unat (effective_peer_count ?cfg) = 253"
    by (simp add: effective_peer_count_def)
  then show ?thesis
    using peer_addresses_distinct [of 1 ?cfg 253 demo_server] by simp
qed

text \<open>C33: The server keeps its identity: the key pair it loads or creates at one start is the one
  every later start finds, and no start after the first writes to the key table.\<close>

theorem server_keys_stable:
  assumes "load_or_create_server_keys s = (Inr kp, t)"
    and "wg_servers u = wg_servers t" and "db_fault u (db_pos u) = None"
  shows "\<exists>v. load_or_create_server_keys u = (Inr kp, v) \<and> wg_servers v = wg_servers u"
proof -
  have "\<exists>r. latest_server_key (wg_servers t) = Some r \<and> kp = (sk_private_key r, sk_public_key r)"
    using assms(1)
    by (auto simp: load_or_create_server_keys_def generate_keypair_def inv_simps latest_append
        split: option.splits)
  then obtain r where r: "latest_server_key (wg_servers u) = Some r" "kp = (sk_private_key r, sk_public_key r)"
    using assms(2) by auto
  then have "load_or_create_server_keys u = (Inr kp, u\<lparr>db_pos := Suc (db_pos u)\<rparr>)"
    using assms(3) by (simp add: load_or_create_server_keys_def seq_simps run_simps)
  then show ?thesis by simp
qed

theorem server_keys_stable_witness:
  "\<exists>kp t v. load_or_create_server_keys demo_wg = (Inr kp, t) \<and> load_or_create_server_keys t = (Inr kp, v) \<and>
     wg_servers v = wg_servers t"
proof -
  obtain kp t where t: "load_or_create_server_keys demo_wg = (Inr kp, t)" and f: "db_fault t (db_pos t) = None"
    by (simp add: load_or_create_server_keys_def generate_keypair_def latest_server_key_def seq_simps run_simps)
  from server_keys_stable [OF t refl f] t show ?thesis by blast
qed

text \<open>The client configuration is an INI text of exactly these eleven lines, whichever way its
  reader ends lines, with the fixed \<open>ListenPort\<close> the mining pool's parser requires.\<close>

theorem to_text_lines:
  assumes "\<forall>l \<in> set (text_lines c). plain_line l"
  shows "lines (to_text c) =
    [''[Interface]'', ''Address = '' @ pc_client_address c, ''PrivateKey = '' @ pc_client_private_key c,
     ''ListenPort = 51820'', ''DNS = '' @ pc_dns c, [], ''[Peer]'', ''PublicKey = '' @ pc_server_public_key c,
     ''PresharedKey = '' @ pc_preshared_key c, ''AllowedIPs = 0.0.0.0/0, ::/0'', ''Endpoint = '' @ pc_endpoint c]"
  using lines_join [OF assms] by (simp add: to_text_def text_lines_def)

theorem to_text_lines_witness:
  "lines (to_text \<lparr>pc_peer_id = 7, pc_client_private_key = ''k'', pc_client_address = ''10.13.13.8'',
     pc_server_public_key = ''s'', pc_preshared_key = ''p'', pc_endpoint = ''198.51.100.7:51820'', pc_dns = ''1.1.1.1''\<rparr>) ! 3 =
   ''ListenPort = 51820''"
  by (subst to_text_lines) (simp_all add: text_lines_def plain_line_def LF_def CR_def)

end
