(* ===== verification/Peer_Manager.thy ===== *)
theory Peer_Manager
  imports Wg_Server
begin

text \<open>
  Allocation of a peer across the lease table and the WireGuard interface, from
  \<open>src/src/wireguard/peer_manager.rs\<close>: a slot is reserved in the table, the peer is added to
  the interface, its keys are stored for the next restart, and a failure of a later step
  undoes the earlier ones.
\<close>

record peer_allocation =
  pa_config :: peer_config
  pa_peer_id :: int
  pa_expires_at :: int

definition set_peer_keys ::
    "int \<Rightarrow> string \<Rightarrow> string \<Rightarrow> string \<Rightarrow> string \<Rightarrow> wg_row list \<Rightarrow> wg_row list" where
  "set_peer_keys i priv pub psk ip rows =
     map (\<lambda>r. if wg_id r = i
              then r\<lparr>wg_private_key := Some priv, wg_public_key := Some pub, wg_preshared_key := Some psk,
                     wg_allowed_ip := Some ip\<rparr>
              else r) rows"

definition store_peer_keys :: "int \<Rightarrow> string \<Rightarrow> string \<Rightarrow> string \<Rightarrow> ('z, unit) db_op" where
  "store_peer_keys i priv psk ip =
     and_then (gets ext) (\<lambda>x.
     case public_key_from_private x priv of
       Inl e \<Rightarrow> err (Internal (''Key derivation failed: '' @ e))
     | Inr pub \<Rightarrow> sql_exec (update_wg (set_peer_keys i priv pub psk ip)))"

definition allocate_peer :: "wg_server \<Rightarrow> int \<Rightarrow> int \<Rightarrow> int \<Rightarrow> ('z, peer_allocation) wg_op" where
  "allocate_peer srv start_id end_id expires =
     and_then (register_wireguard_lease start_id end_id expires) (\<lambda>lease.
     let peer = peer_id lease in
     and_then (attempt (add_peer srv (as_u16 peer))) (\<lambda>added.
     case added of
       Inl e \<Rightarrow>
         and_then (attempt (mark_config_as_free peer (Some expires))) (\<lambda>(_ :: app_error + unit).
         err e)
     | Inr cfg \<Rightarrow>
         and_then (attempt (store_peer_keys peer (pc_client_private_key cfg) (pc_preshared_key cfg)
                              (pc_client_address cfg))) (\<lambda>stored.
         case stored of
           Inl e \<Rightarrow>
             and_then (attempt (remove_peer (as_u16 peer))) (\<lambda>(_ :: app_error + unit).
             and_then (attempt (mark_config_as_free peer (Some expires))) (\<lambda>(_ :: app_error + unit).
             err (Internal (''Failed to persist peer keys: '' @ error_message e))))
         | Inr _ \<Rightarrow> ok \<lparr>pa_config = cfg, pa_peer_id = peer, pa_expires_at = expires\<rparr>)))"

definition release_peer :: "u16 \<Rightarrow> ('z, unit) wg_op" where
  "release_peer peer =
     and_then (remove_peer peer) (\<lambda>_.
     mark_config_as_free (uint peer) None)"

subsection \<open>What the interface operations leave alone\<close>

definition wg_blind :: "('z wg_st_scheme \<Rightarrow> bool) \<Rightarrow> bool" where
  "wg_blind I \<longleftrightarrow> env_blind I \<and> (\<forall>s cs. I (s\<lparr>wg_calls := cs\<rparr>) = I s) \<and> (\<forall>s m. I (s\<lparr>peers := m\<rparr>) = I s)"

lemma wg_blindD:
  assumes "wg_blind I"
  shows "env_blind I" "I (s\<lparr>wg_calls := cs\<rparr>) = I s" "I (s\<lparr>peers := m\<rparr>) = I s"
  using assms by (simp_all add: wg_blind_def)

lemma keeps_wg_basic [keeps_rules]:
  assumes "wg_blind I"
  shows "keeps I (wg_api m call)" "keeps I (decode_key a b k)" "keeps I (parse_mask f k)"
    "keeps I generate_keypair" "keeps I generate_preshared_key"
proof -
  note b = wg_blindD [OF assms]
  show "keeps I (wg_api m call)"
    by (auto simp: keeps_def wg_api_def Let_def b split: option.split)
  show "keeps I (decode_key a b k)" "keeps I (parse_mask f k)"
    unfolding decode_key_def parse_mask_def by (intro keeps_rules)+
  show "keeps I generate_keypair" "keeps I generate_preshared_key"
    unfolding generate_keypair_def generate_preshared_key_def by (intro keeps_rules b)+
qed

lemma keeps_set_peers [keeps_rules]: "wg_blind I \<Longrightarrow> keeps I (modify (\<lambda>s. s\<lparr>peers := f s\<rparr>))"
  by (simp add: keeps_def run_simps wg_blindD)

lemma keeps_add_peer_to_interface [keeps_rules]:
  "wg_blind I \<Longrightarrow> keeps I (add_peer_to_interface pub psk ip)"
  unfolding add_peer_to_interface_def by (intro keeps_rules)

lemma keeps_add_peer [keeps_rules]: "wg_blind I \<Longrightarrow> keeps I (add_peer srv p)"
  unfolding add_peer_def Let_def by (intro keeps_rules)

lemma keeps_remove_peer [keeps_rules]: "wg_blind I \<Longrightarrow> keeps I (remove_peer p)"
  unfolding remove_peer_def by (intro keeps_rules)

lemma keeps_restore_rows [keeps_rules]: "wg_blind I \<Longrightarrow> keeps I (restore_rows srv rows)"
  by (induction rows) (auto intro!: keeps_rules simp: restore_row_def)

definition rows_are :: "wg_row list \<Rightarrow> 'z wg_st_scheme \<Rightarrow> bool" where
  "rows_are rows s \<longleftrightarrow> wg_configs s = rows \<and> no_faults s"

lemma wg_blind_rows [simp]: "wg_blind (rows_are rows)"
  by (simp add: wg_blind_def env_blind_def rows_are_def no_faults_def)

lemma add_peer_peers:
  assumes "add_peer srv p s = (r, t)"
  shows "case r of Inl _ \<Rightarrow> peers t = peers s | Inr _ \<Rightarrow> \<exists>st. peers t = (peers s)(p \<mapsto> st)"
proof -
  have frame: "keeps (\<lambda>s. peers s = m) (wg_api f call)" "keeps (\<lambda>s. peers s = m) (decode_key a b k)"
      "keeps (\<lambda>s. peers s = m) (parse_mask g k)" "keeps (\<lambda>s. peers s = m) generate_keypair"
      "keeps (\<lambda>s. peers s = m) generate_preshared_key" for m f call a b k g
    by (auto simp: keeps_def wg_api_def decode_key_def parse_mask_def generate_keypair_def
        generate_preshared_key_def Let_def seq_simps run_simps split: sum.splits option.splits)
  have iface: "keeps (\<lambda>s. peers s = m) (add_peer_to_interface pub psk ip)" for m pub psk ip
    unfolding add_peer_to_interface_def by (intro keeps_rules frame)
  let ?pre = "and_then generate_keypair (\<lambda>kp. and_then generate_preshared_key (\<lambda>psk.
      and_then (add_peer_to_interface (public_key kp) psk (show_ipv4 (peer_ip srv p) @ ''/32'')) (\<lambda>_. ok (kp, psk))))"
  have "keeps (\<lambda>s. peers s = m) ?pre" for m by (intro keeps_rules frame iface)
  from keepsD [OF this refl, of s] show ?thesis
    using assms
    by (auto simp: add_peer_def Let_def and_then_def run_simps split: prod.splits sum.splits)
qed

subsection \<open>Undoing a failed allocation\<close>

lemma no_faults_locked: "no_faults (locked_state name s) = no_faults s"
  by (simp add: no_faults_def)

text \<open>Operations on the table do not see the peers, and registration does not see the keys.\<close>

lemma keeps_register_gen:
  assumes "env_blind I" and "\<And>f s. I s \<Longrightarrow> I (update_wg f s)"
  shows "keeps I (register_wireguard_lease a b e)"
  unfolding register_wireguard_lease_def register_unlocked_def try_allocate_def
    cleanup_expired_wireguard_configs_def
  by (intro keeps_rules assms(1)) (simp_all add: assms(2))

text \<open>What registration leaves as it was, besides the table.\<close>

definition wg_frame :: "'z wg_st_scheme \<Rightarrow> 'z wg_st_scheme \<Rightarrow> bool" where
  "wg_frame s t \<longleftrightarrow> ext t = ext s \<and> rand_bytes t = rand_bytes s \<and> peers t = peers s \<and>
     wg_calls t = wg_calls s \<and> wg_fault t = wg_fault s \<and> db_fault t = db_fault s \<and> clock t = clock s"

lemma register_frame: "register_wireguard_lease a b e s = (r, t) \<Longrightarrow> wg_frame s t"
proof -
  assume r: "register_wireguard_lease a b e s = (r, t)"
  have "keeps (wg_frame s) (register_wireguard_lease a b e)"
    by (rule keeps_register_gen) (simp_all add: env_blind_def wg_frame_def update_wg_def)
  from keepsD [OF this, of s] r show ?thesis by (simp add: wg_frame_def)
qed

lemma register_Inl_rows:
  assumes "register_wireguard_lease a b e s = (Inl x, t)" and "no_faults s"
  shows "wg_configs t = wg_configs s \<or>
         wg_configs t = delete_expired (clock s (clock_pos s)) (wg_configs s)"
  using assms register_unlocked_run [of "locked_state ''register_wireguard_lease'' s" a b e]
  by (auto simp: register_wireguard_lease_def run_with_lock no_faults_locked Let_def
      split: if_splits option.splits)

lemma delete_fresh_lease:
  assumes "i \<notin> set (map wg_id rows)"
  shows "delete_lease i (Some e) (upsert_lease i e u rows) = rows"
proof -
  have "filter (\<lambda>r. \<not> (wg_id r = i \<and> wg_expires_at r = e)) rows = rows"
    using assms by (intro filter_True) auto
  with assms show ?thesis by (simp add: upsert_lease_def delete_lease_def)
qed

lemma free_rows:
  assumes "rows_are rows s" and "mark_config_as_free i x s = (r, t)"
  shows "wg_configs t = delete_lease i x rows \<and> peers t = peers s"
  using assms
  by (auto simp: rows_are_def mark_config_as_free_def no_faults_def run_simps update_wg_def)

text \<open>Freeing the row that was inserted for a free id gives the rows from before.\<close>

lemma free_undoes:
  assumes "rows_are (upsert_lease i e u rows) s" and "first_free a b rows = Some i"
    and "mark_config_as_free i (Some e) s = (r, t)"
  shows "wg_configs t = rows" "peers t = peers s"
  using free_rows [OF assms(1,3)] delete_fresh_lease [of i rows e u] assms(2) by (simp_all add: first_free_Some)

lemma store_peer_keys_Inl:
  assumes "store_peer_keys i priv psk ip s = (Inl y, t)" and "rows_are rows s"
  shows "t = s"
  using assms
  by (auto simp: store_peer_keys_def rows_are_def no_faults_def inv_simps run_simps seq_simps split: sum.splits)

lemma allocate_peer_fails:
  assumes "allocate_peer srv a b e s = (Inl x, t)"
    and "register_wireguard_lease a b e s = (Inr \<lparr>peer_id = i, lease_expires = e\<rparr>, s1)"
    and "rows_are (upsert_lease i e u rows) s1" and "first_free a b rows = Some i"
  shows "wg_configs t = rows \<and> (\<forall>p. peers t p = peers s1 p \<or> peers t p = None)"
proof -
  obtain ra s2 where add: "add_peer srv (as_u16 i) s1 = (ra, s2)" by fastforce
  have up2: "rows_are (upsert_lease i e u rows) s2"
    using keepsD [OF keeps_add_peer [OF wg_blind_rows] assms(3), of srv "as_u16 i"] add by simp
  note p2 = add_peer_peers [OF add]
  note run = allocate_peer_def Let_def and_then_def run_attempt run_err run_ok
  show ?thesis
  proof (cases ra)
    case (Inl y)
    obtain rm s3 where m: "mark_config_as_free i (Some e) s2 = (rm, s3)" by fastforce
    have "t = s3" using assms(1,2) add Inl m by (simp add: run)
    with free_undoes [OF up2 assms(4) m] p2 Inl show ?thesis by auto
  next
    case c: (Inr c)
    obtain rs s3 where st: "store_peer_keys i (pc_client_private_key c) (pc_preshared_key c)
        (pc_client_address c) s2 = (rs, s3)" by fastforce
    obtain y where rs: "rs = Inl y" using assms(1,2) add c st by (cases rs) (simp_all add: run)
    have s3: "s3 = s2" using store_peer_keys_Inl [OF st [unfolded rs] up2] .
    obtain rr s4 where rem: "remove_peer (as_u16 i) s3 = (rr, s4)" by fastforce
    obtain rm s5 where m: "mark_config_as_free i (Some e) s4 = (rm, s5)" by fastforce
    have up4: "rows_are (upsert_lease i e u rows) s4"
      using keepsD [OF keeps_remove_peer [OF wg_blind_rows] up2, of "as_u16 i"] rem s3 by simp
    have "t = s5" using assms(1,2) add c st rs rem m by (simp add: run)
    with free_undoes [OF up4 assms(4) m] p2 c rem s3 remove_peer_forgets [of "as_u16 i" s3] show ?thesis by auto
  qed
qed

subsection \<open>A successful allocation\<close>

lemma allocate_peer_Inr:
  assumes "allocate_peer srv a b e s = (Inr al, t)" and "wg_ext_ok (ext s)"
    and "\<forall>n. length (rand_bytes s n) = 32"
  obtains rows i u secret psk addr where
    "rows = wg_configs s \<or> rows = delete_expired (clock s (clock_pos s)) (wg_configs s)"
    "first_free a b rows = Some i" "length secret = 32" "length psk = 32"
    "ext_ip_mask (ext s) (show_ipv4 (peer_ip srv (as_u16 i))) = Inr addr"
    "al = \<lparr>pa_config = client_config srv (as_u16 i) (fresh_state (ext s) srv (as_u16 i) secret psk),
           pa_peer_id = i, pa_expires_at = e\<rparr>"
    "wg_configs t = set_peer_keys i (ext_b64_encode (ext s) secret)
       (ext_b64_encode (ext s) (ext_x25519_public (ext s) secret)) (ext_b64_encode (ext s) psk)
       (show_ipv4 (peer_ip srv (as_u16 i))) (upsert_lease i e u rows)"
    "wg_calls t = wg_calls s @
       [(Configure_peer (kernel_peer (ext s) (ext_x25519_public (ext s) secret) psk addr), True)]"
    "peers t = (peers s)(as_u16 i \<mapsto> fresh_state (ext s) srv (as_u16 i) secret psk)"
proof -
  from assms(1) obtain l s1 where r: "register_wireguard_lease a b e s = (Inr l, s1)"
    by (auto simp: allocate_peer_def inv_simps)
  from register_Inr [OF r] obtain rows i u where
    rows: "rows = wg_configs s \<or> rows = delete_expired (clock s (clock_pos s)) (wg_configs s)"
    and i: "first_free a b rows = Some i" and l: "l = \<lparr>peer_id = i, lease_expires = e\<rparr>"
    and s1: "wg_configs s1 = upsert_lease i e u rows" by blast
  have frame: "wg_frame s s1" by (rule register_frame [OF r])
  obtain ra s2 where add': "add_peer srv (as_u16 i) s1 = (ra, s2)" by (cases "add_peer srv (as_u16 i) s1")
  obtain c where ra: "ra = Inr c"
    using assms(1) r add'
    by (cases ra) (simp_all add: allocate_peer_def Let_def and_then_def run_attempt l run_err split: prod.splits)
  obtain rs s3 where st': "store_peer_keys i (pc_client_private_key c) (pc_preshared_key c)
      (pc_client_address c) s2 = (rs, s3)" by fastforce
  from assms(1) r add' ra st' have "rs = Inr ()" and t3: "t = s3"
    and al: "al = \<lparr>pa_config = c, pa_peer_id = i, pa_expires_at = e\<rparr>"
    by (cases rs; simp add: allocate_peer_def Let_def and_then_def run_attempt l run_ok run_err split: prod.splits)+
  with add' ra st' have add: "add_peer srv (as_u16 i) s1 = (Inr c, s2)"
    and st: "store_peer_keys i (pc_client_private_key c) (pc_preshared_key c) (pc_client_address c) s2 = (Inr (), t)"
    by simp_all
  have x1: "wg_ext_ok (ext s1)" and rb1: "\<forall>n. length (rand_bytes s1 n) = 32"
    using assms(2,3) frame by (simp_all add: wg_frame_def)
  show thesis
  proof (rule add_peer_Inr [OF add x1 rb1])
    fix secret psk addr
    assume sec: "length secret = 32" and psk: "length psk = 32"
      and a: "ext_ip_mask (ext s1) (show_ipv4 (peer_ip srv (as_u16 i))) = Inr addr"
      and c: "c = client_config srv (as_u16 i) (fresh_state (ext s1) srv (as_u16 i) secret psk)"
      and s2: "s2 = s1\<lparr>rand_pos := Suc (Suc (rand_pos s1)),
           wg_calls := wg_calls s1 @
             [(Configure_peer (kernel_peer (ext s1) (ext_x25519_public (ext s1) secret) psk addr), True)],
           peers := (peers s1)(as_u16 i \<mapsto> fresh_state (ext s1) srv (as_u16 i) secret psk)\<rparr>"
    have pub: "public_key_from_private (ext s1) (ext_b64_encode (ext s1) secret) =
        Inr (ext_b64_encode (ext s1) (ext_x25519_public (ext s1) secret))"
      using wg_ext_okD(1) [OF x1] sec by (simp add: public_key_from_private_def)
    from st have t: "wg_configs t = set_peer_keys i (ext_b64_encode (ext s1) secret)
         (ext_b64_encode (ext s1) (ext_x25519_public (ext s1) secret)) (ext_b64_encode (ext s1) psk)
         (show_ipv4 (peer_ip srv (as_u16 i))) (wg_configs s1)" and ct: "wg_calls t = wg_calls s2"
      and pt: "peers t = peers s2"
      by (auto simp: store_peer_keys_def c client_config_def fresh_state_def s2 inv_simps pub update_wg_def)
    show thesis
      using that [of rows i secret psk addr u] rows i sec psk a c al t ct pt s1 s2 frame
      by (simp add: wg_frame_def)
  qed
qed

subsection \<open>Restoring\<close>

lemma restore_row_frame:
  "\<exists>n t. restore_row srv r s = (Inr n, t) \<and> ext t = ext s \<and> wg_fault t = wg_fault s \<and>
     (\<forall>q. q \<noteq> as_u16 (wg_id r) \<longrightarrow> peers t q = peers s q) \<and> (\<exists>cs. wg_calls t = wg_calls s @ cs)"
proof -
  define F where "F = (\<lambda>m. \<lambda>t :: 'a wg_st_scheme. ext t = ext s \<and> wg_fault t = wg_fault s \<and> peers t = m \<and>
      (\<exists>cs. wg_calls t = wg_calls s @ cs))"
  have f: "keeps (F m) (wg_api g call)" "keeps (F m) (decode_key a b k)" "keeps (F m) (parse_mask h k)" for m g call a b k h
    by (auto simp: F_def keeps_def wg_api_def decode_key_def parse_mask_def Let_def seq_simps run_simps
        split: sum.splits option.splits)
  have iface: "keeps (F m) (add_peer_to_interface pub psk ip)" for m pub psk ip
    unfolding add_peer_to_interface_def by (intro keeps_rules f)
  show ?thesis
  proof (cases "wg_public_key r")
    case None
    then show ?thesis by (simp add: restore_row_def run_ok)
  next
    case (Some pub)
    obtain x u where u: "add_peer_to_interface pub (case wg_preshared_key r of None \<Rightarrow> [] | Some k \<Rightarrow> k)
        (row_ip srv r) s = (x, u)" by fastforce
    have "F (peers s) s" by (simp add: F_def)
    from keepsD [OF iface this, of pub "case wg_preshared_key r of None \<Rightarrow> [] | Some k \<Rightarrow> k" "row_ip srv r"] u
    have "F (peers s) u" by simp
    with u Some show ?thesis
      by (cases x) (auto simp: F_def restore_row_def and_then_def run_attempt run_ok run_modify)
  qed
qed

lemma restore_rows_keep:
  "\<exists>m v. restore_rows srv rs w = (Inr m, v) \<and>
     (\<forall>q. q \<notin> (\<lambda>r. as_u16 (wg_id r)) ` set rs \<longrightarrow> peers v q = peers w q) \<and> set (wg_calls w) \<subseteq> set (wg_calls v)"
proof (induction rs arbitrary: w)
  case (Cons r rs)
  obtain n t where t: "restore_row srv r w = (Inr n, t)"
    "\<forall>q. q \<noteq> as_u16 (wg_id r) \<longrightarrow> peers t q = peers w q" "\<exists>cs. wg_calls t = wg_calls w @ cs"
    using restore_row_frame [of srv r w] by blast
  obtain m v where "restore_rows srv rs t = (Inr m, v)"
    "\<forall>q. q \<notin> (\<lambda>r. as_u16 (wg_id r)) ` set rs \<longrightarrow> peers v q = peers t q" "set (wg_calls t) \<subseteq> set (wg_calls v)"
    using Cons.IH [of t] by blast
  with t show ?case by (auto simp: seq_simps run_simps)
qed (simp add: run_simps)

lemma restore_rows_hits:
  assumes "distinct (map (\<lambda>r. as_u16 (wg_id r)) rs)" and "r \<in> set rs" and "\<forall>n. wg_fault s n = None"
    and "wg_public_key r = Some (ext_b64_encode (ext s) k)"
    and "wg_preshared_key r = Some (ext_b64_encode (ext s) q)"
    and "length k = 32" and "length q = 32" and "ext_ip_mask (ext s) (row_ip srv r) = Inr addr"
    and "wg_ext_ok (ext s)"
  shows "\<exists>n t. restore_rows srv rs s = (Inr n, t) \<and>
     peers t (as_u16 (wg_id r)) = Some (row_state srv r (ext_b64_encode (ext s) k)) \<and>
     (Configure_peer (kernel_peer (ext s) k q addr), True) \<in> set (wg_calls t)"
  using assms
proof (induction rs arbitrary: s)
  case Nil
  then show ?case by simp
next
  case (Cons r' rs)
  from restore_row_frame [of srv r' s] obtain n t where t: "restore_row srv r' s = (Inr n, t)"
    "ext t = ext s" "wg_fault t = wg_fault s" "\<forall>q. q \<noteq> as_u16 (wg_id r') \<longrightarrow> peers t q = peers s q"
    by blast
  show ?case
  proof (cases "r = r'")
    case True
    have run: "restore_row srv r s = (Inr 1, s\<lparr>wg_calls := wg_calls s @ [(Configure_peer (kernel_peer (ext s) k q addr), True)],
         peers := (peers s)(as_u16 (wg_id r) \<mapsto> row_state srv r (ext_b64_encode (ext s) k))\<rparr>)"
      using Cons.prems(3-) add_peer_to_interface_run [of s k q "row_ip srv r" addr]
      by (simp add: restore_row_def seq_simps run_simps)
    let ?w = "s\<lparr>wg_calls := wg_calls s @ [(Configure_peer (kernel_peer (ext s) k q addr), True)],
         peers := (peers s)(as_u16 (wg_id r) \<mapsto> row_state srv r (ext_b64_encode (ext s) k))\<rparr>"
    obtain m v where "restore_rows srv rs ?w = (Inr m, v)"
      "\<forall>q. q \<notin> (\<lambda>r. as_u16 (wg_id r)) ` set rs \<longrightarrow> peers v q = peers ?w q" "set (wg_calls ?w) \<subseteq> set (wg_calls v)"
      using restore_rows_keep [of srv rs ?w] by blast
    with run True Cons.prems(1) show ?thesis by (auto simp: seq_simps run_simps)
  next
    case False
    with Cons.prems t have "\<exists>n v. restore_rows srv rs t = (Inr n, v) \<and>
        peers v (as_u16 (wg_id r)) = Some (row_state srv r (ext_b64_encode (ext t) k)) \<and>
        (Configure_peer (kernel_peer (ext t) k q addr), True) \<in> set (wg_calls v)"
      by (intro Cons.IH) auto
    with t show ?thesis by (auto simp: seq_simps run_simps)
  qed
qed

text \<open>Ids within 16 bits keep the rows apart after the cast.\<close>

lemma restorable_slots:
  assumes "distinct (map wg_id rows)" and "\<forall>r \<in> set rows. 0 \<le> wg_id r \<and> wg_id r < 65536"
  shows "distinct (map (\<lambda>r. as_u16 (wg_id r)) (restorable now rows))"
proof -
  have "distinct (map wg_id (restorable now rows))"
    using assms(1) by (simp add: restorable_def distinct_filter_ids)
  moreover have "inj_on as_u16 (set (map wg_id (restorable now rows)))"
    using assms(2) by (intro inj_onI) (auto simp: restorable_def as_u16_inject)
  ultimately show ?thesis by (simp add: distinct_map inj_on_def)
qed

lemma allocated_rows_distinct:
  assumes "wg_ok s" and "rows = wg_configs s \<or> rows = delete_expired now (wg_configs s)"
  shows "distinct (map wg_id (set_peer_keys j p k q ip (upsert_lease i e up rows)))"
proof -
  have "distinct (map wg_id rows)"
    using assms by (auto simp: wg_ok_def delete_expired_def distinct_filter_ids)
  then have "distinct (map wg_id (upsert_lease i e up rows))" by (rule distinct_upsert)
  moreover have "map wg_id (set_peer_keys j p k q ip xs) = map wg_id xs" for xs by (simp add: set_peer_keys_def)
  ultimately show ?thesis by metis
qed

subsection \<open>Properties\<close>



text \<open>C20: Restart recovery is a round trip: after a successful allocation, a server that starts again on
  the same table, with nothing in memory, before the lease expires, gives the kernel the very
  same peer as the allocation did and answers \<open>get_client_config\<close> with the very same client
  configuration.\<close>

theorem restart_restores_peer:
  assumes "allocate_peer srv a b e s = (Inr al, t)"
    and "wg_ext_ok (ext s)" and "\<forall>n. length (rand_bytes s n) = 32" and "wg_ok s"
    and "\<forall>r \<in> set (wg_configs t). 0 \<le> wg_id r \<and> wg_id r < 65536"
    and "wg_configs u = wg_configs t" and "ext u = ext s" and "peers u = Map.empty"
    and "\<forall>n. wg_fault u n = None" and "db_fault u (db_pos u) = None" and "clock u (clock_pos u) < e"
  shows "\<exists>n v. restore_peers srv u = (Inr n, v) \<and>
           get_client_config srv (as_u16 (pa_peer_id al)) v = (Inr (pa_config al), v) \<and>
           last (wg_calls t) \<in> set (wg_calls v) \<and> snd (last (wg_calls t))"
proof (rule allocate_peer_Inr [OF assms(1-3)])
  fix rows i up secret psk addr
  let ?x = "ext s" and ?peer = "as_u16 i"
  let ?priv = "ext_b64_encode ?x secret" and ?k = "ext_x25519_public ?x secret"
  let ?ip = "show_ipv4 (peer_ip srv ?peer)"
  assume rows: "rows = wg_configs s \<or> rows = delete_expired (clock s (clock_pos s)) (wg_configs s)"
    and i: "first_free a b rows = Some i" and sec: "length secret = 32" and psk: "length psk = 32"
    and addr: "ext_ip_mask ?x ?ip = Inr addr"
    and al: "al = \<lparr>pa_config = client_config srv ?peer (fresh_state ?x srv ?peer secret psk),
                   pa_peer_id = i, pa_expires_at = e\<rparr>"
    and t: "wg_configs t = set_peer_keys i ?priv (ext_b64_encode ?x ?k) (ext_b64_encode ?x psk) ?ip
              (upsert_lease i e up rows)"
    and calls: "wg_calls t = wg_calls s @ [(Configure_peer (kernel_peer ?x ?k psk addr), True)]"
  let ?now = "clock u (clock_pos u)" and ?w = "u\<lparr>clock_pos := Suc (clock_pos u), db_pos := Suc (db_pos u)\<rparr>"
  let ?rs = "restorable ?now (wg_configs t)"
  define r where "r = \<lparr>wg_id = i, wg_expires_at = e, wg_updated_at = up, wg_private_key = Some ?priv,
    wg_public_key = Some (ext_b64_encode ?x ?k), wg_preshared_key = Some (ext_b64_encode ?x psk),
    wg_allowed_ip = Some ?ip\<rparr>"
  have new: "i \<notin> set (map wg_id rows)" using i by (simp add: first_free_Some)
  then have "r \<in> set (wg_configs t)"
    by (auto simp: t upsert_lease_def set_peer_keys_def r_def)
  then have r: "r \<in> set ?rs" using assms(11) by (simp add: restorable_def r_def)
  have slots: "distinct (map (\<lambda>r. as_u16 (wg_id r)) ?rs)"
    using allocated_rows_distinct [OF assms(4) rows] assms(5) unfolding t by (rule restorable_slots)
  note hit = restore_rows_hits [OF slots r, of ?w ?k psk srv addr]
  have "\<exists>n v. restore_rows srv ?rs ?w = (Inr n, v) \<and>
      peers v (as_u16 (wg_id r)) = Some (row_state srv r (ext_b64_encode (ext ?w) ?k)) \<and>
      (Configure_peer (kernel_peer (ext ?w) ?k psk addr), True) \<in> set (wg_calls v)"
    using assms(2,7,9) sec psk addr wg_ext_okD(2) [OF assms(2) sec]
    by (intro hit) (simp_all add: r_def row_ip_def)
  then obtain n v where v: "restore_rows srv ?rs ?w = (Inr n, v)"
    "peers v ?peer = Some (row_state srv r (ext_b64_encode ?x ?k))"
    "(Configure_peer (kernel_peer ?x ?k psk addr), True) \<in> set (wg_calls v)"
    using assms(7) by (auto simp: r_def)
  have "row_state srv r (ext_b64_encode ?x ?k) = fresh_state ?x srv ?peer secret psk"
    by (simp add: row_state_def row_ip_def r_def fresh_state_def Let_def)
  then have "get_client_config srv (as_u16 (pa_peer_id al)) v = (Inr (pa_config al), v)"
    using v(2) by (simp add: get_client_config_run al)
  moreover have "restore_peers srv u = (Inr n, v)"
    using v(1) assms(6,10) by (simp add: restore_peers_def seq_simps run_simps)
  ultimately show ?thesis using v(3) calls by auto
qed

theorem restart_restores_peer_witness:
  "\<exists>al t u n v. allocate_peer demo_server 1 9 9000 demo_wg = (Inr al, t) \<and>
     u = t\<lparr>peers := Map.empty, wg_calls := []\<rparr> \<and> restore_peers demo_server u = (Inr n, v) \<and>
     get_client_config demo_server (as_u16 (pa_peer_id al)) v = (Inr (pa_config al), v)"
proof -
  have x: "wg_ext_ok (ext demo_wg)" "\<forall>n. length (rand_bytes demo_wg n) = 32" by (simp_all add: demo_ext_ok)
  have nf: "no_faults demo_wg" by (simp add: no_faults_def)
  have "first_free 1 9 [] = Some 1" by (simp add: first_free_def id_range_def upto_rec1)
  then obtain s1 where r: "register_wireguard_lease 1 9 9000 demo_wg = (Inr \<lparr>peer_id = 1, lease_expires = 9000\<rparr>, s1)"
    and s1: "wg_configs s1 = upsert_lease 1 9000 (''t'' @ show_nat 0) []" "clock_pos s1 = 1"
    using register_unlocked_run [of "locked_state ''register_wireguard_lease'' demo_wg" 1 9 9000] nf
    by (simp add: register_wireguard_lease_def run_with_lock no_faults_locked Let_def demo_ext_def digit_char_0)
  note f = register_frame [OF r, unfolded wg_frame_def]
  have x1: "wg_ext_ok (ext s1)" "\<forall>n. length (rand_bytes s1 n) = 32" using x f by simp_all
  obtain addr where a: "ext_ip_mask (ext s1) (show_ipv4 (peer_ip demo_server (as_u16 1))) = Inr addr"
    using wg_ext_okD(4) [OF x1(1)] by blast
  obtain c s2 where add: "add_peer demo_server (as_u16 1) s1 = (Inr c, s2)"
    using add_peer_run [OF x1 a] f by (simp add: Let_def)
  show ?thesis
  proof (rule add_peer_Inr [OF add x1])
    fix secret psk addr
    assume sec: "length secret = 32"
      and c: "c = client_config demo_server (as_u16 1) (fresh_state (ext s1) demo_server (as_u16 1) secret psk)"
      and s2: "s2 = s1\<lparr>rand_pos := Suc (Suc (rand_pos s1)),
           wg_calls := wg_calls s1 @
             [(Configure_peer (kernel_peer (ext s1) (ext_x25519_public (ext s1) secret) psk addr), True)],
           peers := (peers s1)(as_u16 1 \<mapsto> fresh_state (ext s1) demo_server (as_u16 1) secret psk)\<rparr>"
    have "\<exists>pub t. store_peer_keys 1 (pc_client_private_key c) (pc_preshared_key c) (pc_client_address c) s2 = (Inr (), t) \<and>
        wg_configs t = set_peer_keys 1 (pc_client_private_key c) pub (pc_preshared_key c) (pc_client_address c) (wg_configs s1) \<and>
        ext t = ext s1 \<and> wg_fault t = wg_fault s1 \<and> db_fault t = db_fault s1 \<and> clock t = clock s1 \<and> clock_pos t = 1"
      using wg_ext_okD(1) [OF x1(1)] sec f s1
      by (intro exI [of _ "ext_b64_encode (ext s1) (ext_x25519_public (ext s1) secret)"])
        (simp add: store_peer_keys_def c client_config_def fresh_state_def s2 public_key_from_private_def
          run_simps seq_simps update_wg_def)
    then obtain pub t where st: "store_peer_keys 1 (pc_client_private_key c) (pc_preshared_key c) (pc_client_address c) s2 = (Inr (), t)"
      and t: "wg_configs t = set_peer_keys 1 (pc_client_private_key c) pub (pc_preshared_key c) (pc_client_address c) (wg_configs s1)"
        "ext t = ext s1" "wg_fault t = wg_fault s1" "db_fault t = db_fault s1" "clock t = clock s1" "clock_pos t = 1"
      by blast
    let ?al = "\<lparr>pa_config = c, pa_peer_id = 1, pa_expires_at = 9000\<rparr>"
    have al: "allocate_peer demo_server 1 9 9000 demo_wg = (Inr ?al, t)"
      using r add st by (simp add: allocate_peer_def run_and_then run_attempt run_ok Let_def)
    let ?u = "t\<lparr>peers := Map.empty, wg_calls := []\<rparr>"
    have "\<exists>n v. restore_peers demo_server ?u = (Inr n, v) \<and>
        get_client_config demo_server (as_u16 (pa_peer_id ?al)) v = (Inr (pa_config ?al), v) \<and>
        last (wg_calls t) \<in> set (wg_calls v) \<and> snd (last (wg_calls t))"
      using f t by (intro restart_restores_peer [OF al x]) (simp_all add: wg_ok_def s1 upsert_lease_def set_peer_keys_def)
    with al show ?thesis by blast
  qed
qed

end
