(* ===== verification/Lease_Race.thy ===== *)
theory Lease_Race
  imports Lock_Protocol Peer_Manager
begin

text \<open>
  Tasks that lease WireGuard peers at the same time. Every SQL statement is atomic and everything
  in between can interleave: any number of tasks run \<open>allocate_peer\<close>
  (\<open>src/src/wireguard/peer_manager.rs\<close>), which takes the named lock for the registration
  (\<open>src/src/db/wireguard.rs\<close>, \<open>src/src/sync/locks.rs\<close>) and adds the peer after it gave the lock
  back; holders extend their leases, or shorten them, naming the expiry time they were told; the daemon's clean-up (\<open>src/src/db/cleanup.rs\<close>) runs without the
  lock. The steps use the same functions on the rows as the sequential model.
\<close>

subsection \<open>Tasks and steps\<close>

text \<open>Where a task is: an expiry time, and the peer id once there is one.\<close>

datatype pc =
    Idle
  | Waiting int
  | Selecting int bool \<comment> \<open>whether the expired rows have been swept\<close>
  | Full int
  | Sweeping int int \<comment> \<open>with the time read from the clock\<close>
  | Inserting int int
  | Leased int int \<comment> \<open>the row is there, the lock is free again\<close>
  | Peered int int
  | Undoing int int
  | Done int int
  | Gave_up

datatype daemon = Resting | Started int | Removing "int list" int

record race =
  rows :: "wg_row list"
  live :: "int set" \<comment> \<open>peers on the interface\<close>
  today :: int
  holder :: "nat option"
  pcs :: "nat \<Rightarrow> pc"
  daemon :: daemon

fun critical :: "pc \<Rightarrow> bool" where
  "critical (Selecting e r) = True"
| "critical (Full e) = True"
| "critical (Sweeping e c) = True"
| "critical (Inserting e i) = True"
| "critical _ = False"

abbreviation move :: "nat \<Rightarrow> pc \<Rightarrow> race \<Rightarrow> race" where
  "move k p s \<equiv> s\<lparr>pcs := (pcs s)(k := p)\<rparr>"

inductive lease_step :: "int \<Rightarrow> int \<Rightarrow> race \<Rightarrow> race \<Rightarrow> bool" for a b where
  time_passes: "today s \<le> t \<Longrightarrow> lease_step a b s (s\<lparr>today := t\<rparr>)"
| request: "pcs s k = Idle \<Longrightarrow> lease_step a b s (move k (Waiting e) s)"
| acquire: "pcs s k = Waiting e \<Longrightarrow> holder s = None \<Longrightarrow>
    lease_step a b s (move k (Selecting e False) (s\<lparr>holder := Some k\<rparr>))"
| time_out: "pcs s k = Waiting e \<Longrightarrow> lease_step a b s (move k Gave_up s)"
| select_free: "pcs s k = Selecting e r \<Longrightarrow> first_free a b (rows s) = Some i \<Longrightarrow>
    lease_step a b s (move k (Inserting e i) s)"
| select_full: "pcs s k = Selecting e False \<Longrightarrow> first_free a b (rows s) = None \<Longrightarrow>
    lease_step a b s (move k (Full e) s)"
| exhausted: "pcs s k = Selecting e True \<Longrightarrow> first_free a b (rows s) = None \<Longrightarrow>
    lease_step a b s (move k Gave_up (s\<lparr>holder := None\<rparr>))"
| read_clock: "pcs s k = Full e \<Longrightarrow> lease_step a b s (move k (Sweeping e (today s)) s)"
| sweep: "pcs s k = Sweeping e c \<Longrightarrow>
    lease_step a b s (move k (Selecting e True) (s\<lparr>rows := delete_expired c (rows s)\<rparr>))"
| insert_row: "pcs s k = Inserting e i \<Longrightarrow>
    lease_step a b s (move k (Leased e i) (s\<lparr>rows := upsert_lease i e u (rows s), holder := None\<rparr>))"
| sql_error: "critical (pcs s k) \<Longrightarrow> lease_step a b s (move k Gave_up (s\<lparr>holder := None\<rparr>))"
| peer_added: "pcs s k = Leased e i \<Longrightarrow> lease_step a b s (move k (Peered e i) (s\<lparr>live := insert i (live s)\<rparr>))"
| peer_refused: "pcs s k = Leased e i \<Longrightarrow> lease_step a b s (move k (Undoing e i) s)"
| keys_stored: "pcs s k = Peered e i \<Longrightarrow>
    lease_step a b s (move k (Done e i) (s\<lparr>rows := set_peer_keys i priv pub psk ip (rows s)\<rparr>))"
| keys_lost: "pcs s k = Peered e i \<Longrightarrow> lease_step a b s (move k (Undoing e i) (s\<lparr>live := live s - {i}\<rparr>))"
| row_freed: "pcs s k = Undoing e i \<Longrightarrow>
    lease_step a b s (move k Gave_up (s\<lparr>rows := delete_lease i (Some e) (rows s)\<rparr>))"
| row_kept: "pcs s k = Undoing e i \<Longrightarrow> lease_step a b s (move k Gave_up s)"
| extend: "pcs s k = Done e i \<Longrightarrow> c \<le> today s \<Longrightarrow> extend_count i e c (rows s) \<noteq> 0 \<Longrightarrow>
    lease_step a b s (move k (Done new i) (s\<lparr>rows := extend_rows i e new c u (rows s)\<rparr>))"
| cleanup_starts: "daemon s = Resting \<Longrightarrow> lease_step a b s (s\<lparr>daemon := Started (today s)\<rparr>)"
| cleanup_lists: "daemon s = Started c \<Longrightarrow>
    lease_step a b s (s\<lparr>daemon := Removing (map wg_id (filter (\<lambda>r. wg_expires_at r < today s) (rows s))) c\<rparr>)"
| cleanup_list_fails: "daemon s = Started c \<Longrightarrow> lease_step a b s (s\<lparr>daemon := Removing [] c\<rparr>)"
| cleanup_removes: "daemon s = Removing (i # is) c \<Longrightarrow>
    lease_step a b s (s\<lparr>live := live s - {i}, daemon := Removing is c\<rparr>)"
| cleanup_deletes: "daemon s = Removing [] c \<Longrightarrow>
    lease_step a b s (s\<lparr>rows := delete_expired c (rows s), daemon := Resting\<rparr>)"
| cleanup_delete_fails: "daemon s = Removing [] c \<Longrightarrow> lease_step a b s (s\<lparr>daemon := Resting\<rparr>)"

definition start :: "wg_row list \<Rightarrow> int set \<Rightarrow> int \<Rightarrow> race" where
  "start rs ps now = \<lparr>rows = rs, live = ps, today = now, holder = None, pcs = (\<lambda>_. Idle), daemon = Resting\<rparr>"

inductive reachable :: "int \<Rightarrow> int \<Rightarrow> race \<Rightarrow> bool" for a b where
  initially: "distinct (map wg_id rs) \<Longrightarrow> reachable a b (start rs ps now)"
| later: "reachable a b s \<Longrightarrow> lease_step a b s t \<Longrightarrow> reachable a b t"

inductive_cases step_elims: "lease_step a b s t"

subsection \<open>The lock\<close>

text \<open>Seen from the lock manager the tasks follow its protocol, so its guarantees hold for them.\<close>

definition registration_lock :: string where "registration_lock = ''register_wireguard_lease''"

definition phase_of :: "pc \<Rightarrow> phase" where
  "phase_of p = (case p of Waiting e \<Rightarrow> Wanting registration_lock
     | _ \<Rightarrow> if critical p then Within registration_lock else Away)"

definition lock_view :: "race \<Rightarrow> lock_st" where
  "lock_view s = \<lparr>mutexes = [registration_lock \<mapsto> holder s], phase = phase_of \<circ> pcs s\<rparr>"

lemma phase_of_simps [simp]:
  "phase_of Idle = Away" "phase_of (Waiting e) = Wanting registration_lock"
  "phase_of (Selecting e r) = Within registration_lock" "phase_of (Full e) = Within registration_lock"
  "phase_of (Sweeping e c) = Within registration_lock" "phase_of (Inserting e i) = Within registration_lock"
  "phase_of (Leased e i) = Away" "phase_of (Peered e i) = Away" "phase_of (Undoing e i) = Away"
  "phase_of (Done e i) = Away" "phase_of Gave_up = Away"
  by (simp_all add: phase_of_def)

lemma critical_phase: "critical p \<longleftrightarrow> phase_of p = Within registration_lock"
  by (cases p) simp_all

lemma view_leave:
  "critical (pcs s k) \<Longrightarrow> pcs t = (pcs s)(k := p) \<Longrightarrow> phase_of p = Away \<Longrightarrow> holder t = None \<Longrightarrow> lock_step (lock_view s) (lock_view t)"
  using drop_guard [of "lock_view s" k registration_lock] by (simp add: lock_view_def critical_phase fun_upd_comp)

lemma lease_protocol:
  assumes "lease_step a b s t"
  shows "lock_view t = lock_view s \<or> lock_step (lock_view s) (lock_view t)"
  using assms
proof cases
  case (request k e)
  then show ?thesis using ask [of "lock_view s" k registration_lock] by (simp add: lock_view_def lock_entry_def fun_upd_comp)
next
  case (acquire k e)
  then show ?thesis using lock [of "lock_view s" k registration_lock] by (simp add: lock_view_def fun_upd_comp)
next
  case (time_out k e)
  then show ?thesis using give_up [of "lock_view s" k registration_lock] by (simp add: lock_view_def fun_upd_comp)
next
  case (exhausted k e)
  then show ?thesis using view_leave [of s k t Gave_up] by simp
next
  case (insert_row k e i u)
  then show ?thesis using view_leave [of s k t "Leased e i"] by simp
next
  case (sql_error k)
  then show ?thesis using view_leave [of s k t Gave_up] by simp
qed (simp_all add: lock_view_def fun_upd_comp fun_upd_idem_iff)

interpretation tasks: lock_users "lease_step a b" lock_view for a b
  by unfold_locales (rule lease_protocol)

subsection \<open>The invariant\<close>

text \<open>The lease a task has got (and maybe is about to give back).\<close>

fun lease_of :: "pc \<Rightarrow> (int \<times> int) option" where
  "lease_of (Leased e i) = Some (i, e)"
| "lease_of (Peered e i) = Some (i, e)"
| "lease_of (Undoing e i) = Some (i, e)"
| "lease_of (Done e i) = Some (i, e)"
| "lease_of _ = None"

definition covered :: "int \<Rightarrow> int \<Rightarrow> wg_row list \<Rightarrow> bool" where
  "covered i e rs \<longleftrightarrow> (\<exists>r \<in> set rs. wg_id r = i \<and> wg_expires_at r = e)"

definition ids_inv :: "race \<Rightarrow> bool" where
  "ids_inv s \<longleftrightarrow> distinct (map wg_id (rows s))"

definition clock_inv :: "race \<Rightarrow> bool" where
  "clock_inv s \<longleftrightarrow> (\<forall>k e c. pcs s k = Sweeping e c \<longrightarrow> c \<le> today s) \<and>
     (case daemon s of Resting \<Rightarrow> True | Started c \<Rightarrow> c \<le> today s | Removing is c \<Rightarrow> c \<le> today s)"

definition free_inv :: "race \<Rightarrow> bool" where
  "free_inv s \<longleftrightarrow> (\<forall>k e i. pcs s k = Inserting e i \<longrightarrow> i \<notin> set (map wg_id (rows s)))"

definition row_inv :: "race \<Rightarrow> bool" where
  "row_inv s \<longleftrightarrow> (\<forall>k i e. lease_of (pcs s k) = Some (i, e) \<and> today s \<le> e \<longrightarrow> covered i e (rows s))"

definition own_inv :: "race \<Rightarrow> bool" where
  "own_inv s \<longleftrightarrow> (\<forall>j k i e e'. j \<noteq> k \<and> lease_of (pcs s j) = Some (i, e) \<and> lease_of (pcs s k) = Some (i, e') \<longrightarrow>
     e < today s \<or> e' < today s)"

lemma clock_step: "lease_step a b s t \<Longrightarrow> clock_inv s \<Longrightarrow> clock_inv t"
  by (erule step_elims; fastforce simp: clock_inv_def split: if_splits daemon.splits)

text \<open>How the rows may change while a lease stays covered.\<close>

lemma covered_upsert: "covered i e rs \<Longrightarrow> i \<noteq> j \<Longrightarrow> covered i e (upsert_lease j x u rs)"
  by (auto simp: covered_def upsert_lease_def image_iff)

lemma covered_new: "i \<notin> set (map wg_id rs) \<Longrightarrow> covered i e (upsert_lease i e u rs)"
  by (simp add: covered_def upsert_lease_def)

lemma covered_map:
  "covered i e rs \<Longrightarrow> \<forall>r. wg_id r = i \<and> wg_expires_at r = e \<longrightarrow> wg_id (f r) = i \<and> wg_expires_at (f r) = x \<Longrightarrow>
   covered i x (map f rs)"
  by (auto simp: covered_def)

lemma covered_keys: "covered i e rs \<Longrightarrow> covered i e (set_peer_keys j priv pub psk ip rs)"
  unfolding set_peer_keys_def by (erule covered_map) simp

lemma covered_other: "covered i e rs \<Longrightarrow> i \<noteq> j \<Longrightarrow> covered i e (extend_rows j old new c u rs)"
  unfolding extend_rows_def by (erule covered_map) simp

lemma extend_hit:
  assumes "extend_count i old c rs \<noteq> 0"
  shows "covered i old rs" and "covered i new (extend_rows i old new c u rs)"
proof -
  obtain r where r: "r \<in> set rs" "wg_id r = i" "wg_expires_at r = old" "c < old"
    using assms by (auto simp: extend_count_def filter_empty_conv)
  then show old: "covered i old rs" by (auto simp: covered_def)
  show "covered i new (extend_rows i old new c u rs)"
    unfolding extend_rows_def by (rule covered_map [OF old]) (simp add: r(4))
qed

lemma covered_once: "distinct (map wg_id rs) \<Longrightarrow> covered i e rs \<Longrightarrow> covered i x rs \<Longrightarrow> e = x"
  unfolding covered_def by (metis distinct_map inj_onD)

lemma covered_expired: "covered i e rs \<Longrightarrow> c \<le> e \<Longrightarrow> covered i e (delete_expired c rs)"
  by (fastforce simp: covered_def delete_expired_def)

lemma covered_delete: "covered i e rs \<Longrightarrow> j \<noteq> i \<or> x \<noteq> e \<Longrightarrow> covered i e (delete_lease j (Some x) rs)"
  by (fastforce simp: covered_def delete_lease_def)

lemma first_free_free: "first_free a b rs = Some i \<Longrightarrow> i \<notin> set (map wg_id rs)"
  by (auto simp: first_free_def dest: find_SomeD)

lemma ids_same [simp]:
  "wg_id ` set (set_peer_keys j priv pub psk ip rs) = wg_id ` set rs"
  "wg_id ` set (extend_rows j old new c u rs) = wg_id ` set rs"
proof -
  have "map wg_id (set_peer_keys j priv pub psk ip rs) = map wg_id rs" by (simp add: set_peer_keys_def)
  then show "wg_id ` set (set_peer_keys j priv pub psk ip rs) = wg_id ` set rs" by (metis set_map)
  show "wg_id ` set (extend_rows j old new c u rs) = wg_id ` set rs" by (metis map_id_extend set_map)
qed

lemma lock_unique: "tasks.sound s \<Longrightarrow> critical (pcs s j) \<Longrightarrow> critical (pcs s k) \<Longrightarrow> j = k"
  using tasks.exclusive [of s j registration_lock k] by (simp add: critical_phase lock_view_def)

lemma ids_shrink: "wg_id ` set (delete_expired c rs) \<subseteq> wg_id ` set rs" "wg_id ` set (delete_lease j x rs) \<subseteq> wg_id ` set rs"
  by (auto simp: delete_expired_def delete_lease_def)

lemma free_keep:
  "free_inv s \<Longrightarrow> \<forall>k e i. pcs t k = Inserting e i \<longrightarrow> pcs s k = Inserting e i \<Longrightarrow>
   set (map wg_id (rows t)) \<subseteq> set (map wg_id (rows s)) \<Longrightarrow> free_inv t"
  unfolding free_inv_def by blast

lemma free_step:
  assumes "lease_step a b s t" and "tasks.sound s" and "free_inv s"
  shows "free_inv t"
  using assms(1)
proof cases
  case (select_free k e r i)
  then show ?thesis using assms(3) first_free_free by (auto simp: free_inv_def)
next
  case (insert_row k e i u)
  have "pcs s j \<noteq> Inserting x l" if "j \<noteq> k" for j x l
    using lock_unique [OF assms(2), of j k] that insert_row by auto
  then show ?thesis using insert_row by (simp add: free_inv_def)
qed (rule free_keep [OF assms(3)]; simp add: ids_shrink)+

lemma own_keep:
  "own_inv s \<Longrightarrow> today s \<le> today t \<Longrightarrow> \<forall>k. lease_of (pcs t k) \<in> {None, lease_of (pcs s k)} \<Longrightarrow> own_inv t"
  unfolding own_inv_def by (smt (verit) empty_iff insert_iff option.distinct(1))

lemma ids_step: "lease_step a b s t \<Longrightarrow> ids_inv s \<Longrightarrow> ids_inv t"
  by (erule step_elims; simp add: ids_inv_def wg_distinct delete_expired_def delete_lease_def set_peer_keys_def comp_def
      if_distrib [of wg_id] cong: if_cong)

text \<open>An extension that finds its row is the holder's: whoever else was given the peer has no claim any more.\<close>

lemma extender_alone:
  assumes "ids_inv s" and "row_inv s" and "own_inv s" and "pcs s k = Done e i" and "covered i e (rows s)"
    and "lease_of (pcs s j) = Some (i, e')" and "j \<noteq> k"
  shows "e' < today s"
proof (rule ccontr)
  assume live: "\<not> e' < today s"
  then have "covered i e' (rows s)" using assms(2,6) by (auto simp: row_inv_def)
  then have "e' = e" using assms(1,5) covered_once by (simp add: ids_inv_def)
  moreover have "lease_of (pcs s k) = Some (i, e)" using assms(4) by simp
  ultimately show False using assms(3,6,7) live unfolding own_inv_def by blast
qed

lemma own_step:
  assumes "lease_step a b s t" and "free_inv s" and "row_inv s" and "own_inv s" and "ids_inv s"
  shows "own_inv t"
  using assms(1)
proof cases
  case (extend k e i c new u)
  then have "e' < today s" if "lease_of (pcs s j) = Some (i, e')" "j \<noteq> k" for j e'
    using extender_alone [OF assms(5,3,4)] extend_hit(1) that by blast
  with assms(4) show ?thesis by (auto simp: own_inv_def extend)
next
  case (insert_row k e i u)
  have "e' < today s" if "lease_of (pcs s j) = Some (i, e')" for j e'
  proof (rule ccontr)
    assume "\<not> e' < today s"
    then have "covered i e' (rows s)" using assms(3) that by (auto simp: row_inv_def)
    then show False using assms(2) insert_row by (auto simp: covered_def free_inv_def)
  qed
  with assms(4) show ?thesis by (auto simp: own_inv_def insert_row)
qed (rule own_keep [OF assms(4)]; simp)+

lemma row_keep:
  "row_inv s \<Longrightarrow> today s \<le> today t \<Longrightarrow> \<forall>k. lease_of (pcs t k) \<in> {None, lease_of (pcs s k)} \<Longrightarrow>
   \<forall>i e. covered i e (rows s) \<and> today t \<le> e \<longrightarrow> covered i e (rows t) \<Longrightarrow> row_inv t"
  unfolding row_inv_def by (smt (verit) empty_iff insert_iff option.distinct(1))

lemma row_step:
  assumes "lease_step a b s t" and "clock_inv s" and "free_inv s" and "own_inv s" and "row_inv s" and "ids_inv s"
  shows "row_inv t"
  using assms(1)
proof cases
  case (extend k e i c new u)
  have "covered l x (extend_rows i e new c u (rows s))"
    if "j \<noteq> k" "lease_of (pcs s j) = Some (l, x)" "today s \<le> x" for j l x
  proof -
    have "l \<noteq> i" using extender_alone [OF assms(6,5,4)] extend that extend_hit(1) by fastforce
    moreover have "covered l x (rows s)" using assms(5) that by (auto simp: row_inv_def)
    ultimately show ?thesis by (intro covered_other)
  qed
  then show ?thesis using extend_hit(2) extend by (auto simp: row_inv_def)
next
  case (insert_row k e i u)
  have i: "i \<notin> set (map wg_id (rows s))" using assms(3) insert_row by (simp add: free_inv_def)
  have "covered l x (upsert_lease i e u (rows s))" if "lease_of (pcs s j) = Some (l, x)" "today s \<le> x" for j l x
  proof -
    have "covered l x (rows s)" using assms(5) that by (auto simp: row_inv_def)
    moreover have "l \<noteq> i" using calculation i by (auto simp: covered_def)
    ultimately show ?thesis by (rule covered_upsert)
  qed
  then show ?thesis using covered_new [OF i] by (auto simp: row_inv_def insert_row)
next
  case (row_freed k e i)
  have "covered l x (delete_lease i (Some e) (rows s))" if "j \<noteq> k" "lease_of (pcs s j) = Some (l, x)" "today s \<le> x" for j l x
  proof -
    have "covered l x (rows s)" using assms(5) that by (auto simp: row_inv_def)
    moreover have "i \<noteq> l \<or> e \<noteq> x"
      using assms(4) that row_freed unfolding own_inv_def by force
    ultimately show ?thesis by (rule covered_delete)
  qed
  then show ?thesis by (auto simp: row_inv_def row_freed)
next
  case (sweep k e c)
  then have "c \<le> today s" using assms(2) by (simp add: clock_inv_def)
  with sweep show ?thesis by (intro row_keep [OF assms(5)]) (simp_all add: covered_expired)
next
  case (cleanup_deletes c)
  then have "c \<le> today s" using assms(2) by (simp add: clock_inv_def)
  with cleanup_deletes show ?thesis by (intro row_keep [OF assms(5)]) (simp_all add: covered_expired)
qed (rule row_keep [OF assms(5)]; simp add: covered_keys)+

definition race_inv :: "race \<Rightarrow> bool" where
  "race_inv s \<longleftrightarrow> tasks.sound s \<and> clock_inv s \<and> ids_inv s \<and> free_inv s \<and> own_inv s \<and> row_inv s"

lemma race_inv_step: "lease_step a b s t \<Longrightarrow> race_inv s \<Longrightarrow> race_inv t"
  using tasks.sound_step clock_step ids_step free_step own_step row_step by (simp add: race_inv_def)

lemma sound_start: "tasks.sound (start rs ps now)"
  by (simp add: tasks.sound_def lock_view_def start_def lock_ok_def)

lemma race_inv_reachable: "reachable a b s \<Longrightarrow> race_inv s"
proof (induction rule: reachable.induct)
  case (initially rs ps now)
  then show ?case
    using sound_start by (simp add: race_inv_def start_def clock_inv_def ids_inv_def free_inv_def own_inv_def row_inv_def)
qed (rule race_inv_step)

subsection \<open>The sequential registration is one of the interleavings\<close>

lemma path_step: "lease_step a b s t \<Longrightarrow> (lease_step a b)\<^sup>*\<^sup>* t u \<Longrightarrow> (lease_step a b)\<^sup>*\<^sup>* s u"
  by (rule converse_rtranclp_into_rtranclp)

lemma sequential_path:
  assumes "register_wireguard_lease a b e s = (Inr l, t)" and "rows r = wg_configs s"
    and "today r = clock s (clock_pos s)" and "pcs r k = Idle" and "holder r = None"
  shows "(lease_step a b)\<^sup>*\<^sup>* r (move k (Leased e (peer_id l)) (r\<lparr>rows := wg_configs t\<rparr>))"
proof -
  from register_Inr [OF assms(1)] obtain rs i u where rs: "rs = wg_configs s \<or>
      first_free a b (wg_configs s) = None \<and> rs = delete_expired (clock s (clock_pos s)) (wg_configs s)"
    and i: "first_free a b rs = Some i" "l = \<lparr>peer_id = i, lease_expires = e\<rparr>" and t: "wg_configs t = upsert_lease i e u rs"
    by blast
  let ?c = "clock s (clock_pos s)"
  let ?in = "\<lambda>p rs. r\<lparr>rows := rs, holder := Some k, pcs := (pcs r)(k := p)\<rparr>"
  have "r\<lparr>rows := wg_configs t, holder := None\<rparr> = r\<lparr>rows := wg_configs t\<rparr>" using assms(5) by (cases r) simp
  then have fin: "r\<lparr>rows := upsert_lease i e u rs, holder := None, pcs := (pcs r)(k := Leased e i)\<rparr> =
      move k (Leased e (peer_id l)) (r\<lparr>rows := wg_configs t\<rparr>)" using i(2) t by (cases r) simp
  have last2: "(lease_step a b)\<^sup>*\<^sup>* (?in (Selecting e q) rs) (move k (Leased e (peer_id l)) (r\<lparr>rows := wg_configs t\<rparr>))" for q
  proof -
    have "lease_step a b (?in (Selecting e q) rs) (?in (Inserting e i) rs)"
      using select_free [of "?in (Selecting e q) rs" k e q a b i] i(1) by simp
    moreover have "lease_step a b (?in (Inserting e i) rs) (move k (Leased e (peer_id l)) (r\<lparr>rows := wg_configs t\<rparr>))"
      using insert_row [of "?in (Inserting e i) rs" k e i a b u] unfolding fin [symmetric] by simp
    ultimately show ?thesis by (metis path_step rtranclp.rtrancl_refl)
  qed
  have r: "r\<lparr>rows := wg_configs s\<rparr> = r" using assms(2) by (cases r) simp
  have first2: "lease_step a b r (move k (Waiting e) r)" "lease_step a b (move k (Waiting e) r) (?in (Selecting e False) (wg_configs s))"
    using request [of r k a b e] acquire [of "move k (Waiting e) r" k e a b] assms(2,4,5) r by (cases r; simp)+
  from rs show ?thesis
  proof
    assume "rs = wg_configs s"
    then show ?thesis using first2 last2 [of False] by (metis path_step)
  next
    assume full: "first_free a b (wg_configs s) = None \<and> rs = delete_expired (clock s (clock_pos s)) (wg_configs s)"
    have "lease_step a b (?in (Selecting e False) (wg_configs s)) (?in (Full e) (wg_configs s))"
      using select_full [of "?in (Selecting e False) (wg_configs s)" k e a b] full by simp
    moreover have "lease_step a b (?in (Full e) (wg_configs s)) (?in (Sweeping e ?c) (wg_configs s))"
      using read_clock [of "?in (Full e) (wg_configs s)" k e a b] assms(3) by simp
    moreover have "lease_step a b (?in (Sweeping e ?c) (wg_configs s)) (?in (Selecting e True) rs)"
    proof -
      let ?s = "?in (Sweeping e ?c) (wg_configs s)"
      have "?in (Selecting e True) rs = move k (Selecting e True) (?s\<lparr>rows := delete_expired ?c (rows ?s)\<rparr>)"
        by (cases r) (simp add: conjunct2 [OF full])
      moreover have "lease_step a b ?s (move k (Selecting e True) (?s\<lparr>rows := delete_expired ?c (rows ?s)\<rparr>))"
        by (rule sweep) simp
      ultimately show ?thesis by argo
    qed
    ultimately show ?thesis using first2 last2 [of True] by (blast intro: path_step)
  qed
qed

text \<open>C2: Leasing under the named lock is safe for any number of tasks, whatever is interleaved and whatever
  fails: at most one task is in the guarded section; of two tasks that were given the same peer id at
  most one holds a lease that has not expired, extensions included; and the row of a lease that has not
  expired is in the table with the expiry time its holder was told last.\<close>

theorem leases_never_shared:
  assumes "reachable a b s"
  shows "(\<forall>j k. critical (pcs s j) \<and> critical (pcs s k) \<longrightarrow> j = k) \<and>
     (\<forall>j k i e e'. j \<noteq> k \<and> lease_of (pcs s j) = Some (i, e) \<and> lease_of (pcs s k) = Some (i, e') \<longrightarrow>
        e < today s \<or> e' < today s) \<and>
     (\<forall>k i e. pcs s k = Done e i \<and> today s \<le> e \<longrightarrow> (\<exists>r \<in> set (rows s). wg_id r = i \<and> wg_expires_at r = e))"
proof -
  have inv: "tasks.sound s" "own_inv s" "row_inv s" using race_inv_reachable [OF assms] by (simp_all add: race_inv_def)
  have "\<exists>r \<in> set (rows s). wg_id r = i \<and> wg_expires_at r = e" if "pcs s k = Done e i" "today s \<le> e" for k i e
    using inv(3) that unfolding row_inv_def covered_def by (metis lease_of.simps(4))
  then show ?thesis using lock_unique [OF inv(1)] inv(2) unfolding own_inv_def by blast
qed

text \<open>
  A run with one peer id, whose lease has run out: the clean-up lists it, then a task leases it and is done,
  then the clean-up removes the peer it listed. The task's peer is gone though its lease is running.
\<close>

definition old_row :: wg_row where "old_row = demo_row 1 5"

definition new_row :: wg_row where "new_row = (demo_row 1 100)\<lparr>wg_private_key := Some ''a'', wg_public_key := Some ''b'',
     wg_preshared_key := Some ''c'', wg_allowed_ip := Some ''d''\<rparr>"

lemma one_slot:
  "first_free 1 1 [old_row] = None" "delete_expired 10 [old_row] = []" "first_free 1 1 [] = Some 1"
  "set_peer_keys 1 ''a'' ''b'' ''c'' ''d'' (upsert_lease 1 100 ''t'' []) = [new_row]"
  by (simp_all add: first_free_def id_range_def old_row_def new_row_def demo_row_def delete_expired_def upsert_lease_def
      set_peer_keys_def)

definition race_end :: race where
  "race_end = \<lparr>rows = [new_row], live = {}, today = 10, holder = None, pcs = (\<lambda>_. Idle)(0 := Done 100 1),
     daemon = Removing [] 10\<rparr>"

lemma race_end_reachable: "reachable 1 1 race_end"
proof -
  note run = reachable.later [rotated]
  let ?s = "\<lambda>rs ps h p d. \<lparr>rows = rs, live = ps, today = 10, holder = h, pcs = (\<lambda>_. Idle)(0 := p), daemon = d\<rparr>"
  let ?d = "Removing [1] 10" and ?k = "Some (0 :: nat)"
  have "reachable 1 1 (?s [old_row] {1} None Idle Resting)"
    using reachable.initially [of "[old_row]" 1 1 "{1}" 10] by (simp add: start_def fun_upd_idem)
  moreover have "lease_step 1 1 (?s [old_row] {1} None Idle Resting) (?s [old_row] {1} None Idle (Started 10))"
    using cleanup_starts [of "?s [old_row] {1} None Idle Resting"] by simp
  moreover have "lease_step 1 1 (?s [old_row] {1} None Idle (Started 10)) (?s [old_row] {1} None Idle ?d)"
    using cleanup_lists [of "?s [old_row] {1} None Idle (Started 10)"] by (simp add: old_row_def demo_row_def)
  moreover have "lease_step 1 1 (?s [old_row] {1} None Idle ?d) (?s [old_row] {1} None (Waiting 100) ?d)"
    using request [of "?s [old_row] {1} None Idle ?d" 0] by simp
  moreover have "lease_step 1 1 (?s [old_row] {1} None (Waiting 100) ?d) (?s [old_row] {1} ?k (Selecting 100 False) ?d)"
    using acquire [of "?s [old_row] {1} None (Waiting 100) ?d" 0] by simp
  moreover have "lease_step 1 1 (?s [old_row] {1} ?k (Selecting 100 False) ?d) (?s [old_row] {1} ?k (Full 100) ?d)"
    using select_full [of "?s [old_row] {1} ?k (Selecting 100 False) ?d" 0 100 1 1] by (simp add: one_slot)
  moreover have "lease_step 1 1 (?s [old_row] {1} ?k (Full 100) ?d) (?s [old_row] {1} ?k (Sweeping 100 10) ?d)"
    using read_clock [of "?s [old_row] {1} ?k (Full 100) ?d" 0] by simp
  moreover have "lease_step 1 1 (?s [old_row] {1} ?k (Sweeping 100 10) ?d) (?s [] {1} ?k (Selecting 100 True) ?d)"
    using sweep [of "?s [old_row] {1} ?k (Sweeping 100 10) ?d" 0] by (simp add: one_slot)
  moreover have "lease_step 1 1 (?s [] {1} ?k (Selecting 100 True) ?d) (?s [] {1} ?k (Inserting 100 1) ?d)"
    using select_free [of "?s [] {1} ?k (Selecting 100 True) ?d" 0 100 True 1 1] by (simp add: one_slot)
  moreover have "lease_step 1 1 (?s [] {1} ?k (Inserting 100 1) ?d) (?s (upsert_lease 1 100 ''t'' []) {1} None (Leased 100 1) ?d)"
    using insert_row [of "?s [] {1} ?k (Inserting 100 1) ?d" 0] by simp
  moreover have "lease_step 1 1 (?s (upsert_lease 1 100 ''t'' []) {1} None (Leased 100 1) ?d)
      (?s (upsert_lease 1 100 ''t'' []) {1} None (Peered 100 1) ?d)"
    using peer_added [of "?s (upsert_lease 1 100 ''t'' []) {1} None (Leased 100 1) ?d" 0] by simp
  moreover have "lease_step 1 1 (?s (upsert_lease 1 100 ''t'' []) {1} None (Peered 100 1) ?d) (?s [new_row] {1} None (Done 100 1) ?d)"
    using keys_stored [of "?s (upsert_lease 1 100 ''t'' []) {1} None (Peered 100 1) ?d" 0 100 1 1 1 "''a''" "''b''" "''c''" "''d''"]
    by (simp add: one_slot)
  moreover have "lease_step 1 1 (?s [new_row] {1} None (Done 100 1) ?d) race_end"
    using cleanup_removes [of "?s [new_row] {1} None (Done 100 1) ?d" 1 "[]" 10] by (simp add: race_end_def)
  ultimately show ?thesis by (meson reachable.later)
qed

theorem leases_never_shared_witness:
  "\<exists>r \<in> set (rows race_end). wg_id r = 1 \<and> wg_expires_at r = 100"
proof -
  have "pcs race_end 0 = Done 100 1" "today race_end \<le> 100" by (simp_all add: race_end_def)
  then show ?thesis using leases_never_shared [OF race_end_reachable] by blast
qed

theorem cleanup_removes_live_peer:
  "\<exists>s. reachable 1 1 s \<and> pcs s 0 = Done 100 1 \<and> today s < 100 \<and> covered 1 100 (rows s) \<and> 1 \<notin> live s"
  using race_end_reachable
  by (intro exI [of _ race_end]) (simp add: race_end_def covered_def new_row_def demo_row_def)

end
