(* ===== verification/Sock_Race.thy ===== *)
theory Sock_Race
  imports Lock_Protocol Db_Socks5
begin

text \<open>
  Tasks that lease SOCKS5 accounts at the same time (\<open>src/src/db/socks5.rs\<close>). Every SQL statement is
  atomic and everything in between can interleave: exclusive leases are taken under the named lock,
  shared ones (the priority slots) without it; holders of both kinds extend, naming the expiry time they
  were told; \<open>allocate_socks5\<close> (\<open>src/src/service/lease_manager.rs\<close>) frees expired leases before it
  asks for the lock. The steps use the same functions on the rows as the sequential model.
\<close>

subsection \<open>The slots\<close>

text \<open>
  How many available rows come before an id decides what a row is used for: fewer than the number of
  priority slots, and it is shared; that number exactly, and it is the next exclusive one.
\<close>

definition avail_ids :: "socks5_config list \<Rightarrow> int set" where
  "avail_ids rows = sock_id ` {r \<in> set rows. available r}"

definition rank :: "int set \<Rightarrow> int \<Rightarrow> nat" where
  "rank A i = card {j \<in> A. j < i}"

lemma finite_avail [simp]: "finite (avail_ids rows)"
  by (simp add: avail_ids_def)

lemma rank_mono: "finite B \<Longrightarrow> A \<subseteq> B \<Longrightarrow> i \<le> j \<Longrightarrow> rank A i \<le> rank B j"
  unfolding rank_def by (rule card_mono) auto

lemma rank_less: "finite A \<Longrightarrow> i \<in> A \<Longrightarrow> i < j \<Longrightarrow> rank A i < rank A j"
  unfolding rank_def by (rule psubset_card_mono) auto

lemma rank_remove: "finite A \<Longrightarrow> j \<in> A \<Longrightarrow> rank (A - {j}) i = (if j < i then rank A i - 1 else rank A i)"
proof -
  assume A: "finite A" "j \<in> A"
  have "{x \<in> A - {j}. x < i} = {x \<in> A. x < i} - {j}" by blast
  then show ?thesis using A by (simp add: rank_def card_Diff_singleton_if)
qed

lemma rank_nth: "sorted xs \<Longrightarrow> distinct xs \<Longrightarrow> k < length xs \<Longrightarrow> rank (set xs) (xs ! k) = k"
proof -
  assume xs: "sorted xs" "distinct xs" and k: "k < length xs"
  have "{x \<in> set xs. x < xs ! k} = set (take k xs)"
  proof (intro set_eqI iffI)
    fix x assume "x \<in> {x \<in> set xs. x < xs ! k}"
    then obtain j where j: "j < length xs" "x = xs ! j" "xs ! j < xs ! k" by (auto simp: in_set_conv_nth)
    then have "j < k" using xs(1) k by (meson leD linorder_le_less_linear sorted_nth_mono)
    then show "x \<in> set (take k xs)" using j by (auto simp: in_set_conv_nth)
  next
    fix x assume "x \<in> set (take k xs)"
    then obtain j where j: "j < k" "x = xs ! j" using k by (auto simp: in_set_conv_nth)
    then have "x \<le> xs ! k" using xs(1) k by (simp add: sorted_nth_mono)
    moreover have "x \<noteq> xs ! k" using xs(2) j k by (simp add: nth_eq_iff_index_eq)
    ultimately show "x \<in> {x \<in> set xs. x < xs ! k}" using j k by auto
  qed
  then show ?thesis using xs(2) k by (simp add: rank_def distinct_card)
qed

lemma avail_ids_sorted: "set (map sock_id (available_rows rows)) = avail_ids rows"
  by (auto simp: avail_ids_def available_rows_def)

lemma rank_available:
  assumes "distinct (map sock_id rows)" and "k < length (available_rows rows)"
  shows "rank (avail_ids rows) (sock_id (available_rows rows ! k)) = k"
proof -
  let ?xs = "map sock_id (available_rows rows)"
  have "distinct ?xs" using assms(1) by (auto simp: available_rows_def distinct_map intro: inj_on_subset)
  then show ?thesis using rank_nth [of ?xs k] assms(2) by (simp add: available_rows_def avail_ids_sorted [symmetric])
qed

lemma priority_rank:
  assumes "distinct (map sock_id rows)" and "0 \<le> slots" and "c \<in> set (priority_rows slots rows)"
  shows "c \<in> set rows" and "available c" and "rank (avail_ids rows) (sock_id c) < nat slots"
proof -
  from assms(2,3) obtain k where "k < nat slots" "k < length (available_rows rows)" "c = available_rows rows ! k"
    by (auto simp: priority_rows_def sql_limit_def in_set_conv_nth)
  with rank_available [OF assms(1)] show "rank (avail_ids rows) (sock_id c) < nat slots" by simp
qed (use priority_available [OF assms(3)] in auto)

lemma exclusive_rank:
  assumes "distinct (map sock_id rows)" and "next_exclusive slots rows = Some c"
  shows "rank (avail_ids rows) (sock_id c) = nat slots"
proof -
  from assms(2) obtain cs where cs: "drop (nat slots) (available_rows rows) = c # cs"
    by (auto simp: next_exclusive_def sql_offset_def split: list.splits)
  then have "nat slots < length (available_rows rows)" by (metis drop_all linorder_not_le list.distinct(1))
  moreover from this cs have "c = available_rows rows ! nat slots" by (metis Cons_nth_drop_Suc list.inject)
  ultimately show ?thesis using rank_available [OF assms(1)] by simp
qed

text \<open>The ids of the shared rows, and when they stay the same: every exclusive lease that can run out has
  enough available rows before it.\<close>

definition shared_ids :: "int \<Rightarrow> int set \<Rightarrow> int set" where
  "shared_ids slots A = {i \<in> A. rank A i < nat slots}"

definition settled :: "int \<Rightarrow> socks5_config list \<Rightarrow> bool" where
  "settled slots rows \<longleftrightarrow>
     (\<forall>r \<in> set rows. \<not> available r \<and> 0 < expires_at r \<longrightarrow> nat slots \<le> rank (avail_ids rows) (sock_id r))"

lemma shared_remove:
  assumes "finite A" and "j \<in> A" and "nat slots \<le> rank A j"
  shows "shared_ids slots (A - {j}) = shared_ids slots A"
proof -
  have "rank (A - {j}) i < nat slots \<longleftrightarrow> rank A i < nat slots" if i: "i \<in> A" "i \<noteq> j" for i
  proof (cases "j < i")
    case True
    then have "rank A j < rank A i" using assms by (intro rank_less)
    then show ?thesis using True assms by (simp add: rank_remove)
  qed (simp add: rank_remove assms)
  moreover have "\<not> rank A j < nat slots" using assms(3) by simp
  ultimately show ?thesis unfolding shared_ids_def by blast
qed

lemma shared_add:
  assumes "finite A" and "finite B" and "\<forall>j \<in> B. nat slots \<le> rank A j"
  shows "shared_ids slots (A \<union> B) = shared_ids slots A"
proof -
  have low: "rank (A \<union> B) i = rank A i" if "rank A i < nat slots" for i
  proof -
    have "i \<le> j" if "j \<in> B" for j
      using assms that \<open>rank A i < nat slots\<close> rank_mono [of A A j i] by fastforce
    then have "{j \<in> A \<union> B. j < i} = {j \<in> A. j < i}" by force
    then show ?thesis by (simp add: rank_def)
  qed
  have up: "rank A i \<le> rank (A \<union> B) i" for i using assms by (intro rank_mono) auto
  have "rank (A \<union> B) i < nat slots \<longleftrightarrow> rank A i < nat slots" for i using low [of i] up [of i] by linarith
  moreover have "\<not> rank A j < nat slots" if "j \<in> B" for j using assms(3) that by fastforce
  ultimately show ?thesis unfolding shared_ids_def by blast
qed

subsection \<open>Statements on the available rows\<close>

definition hit_ids :: "int \<Rightarrow> socks5_config list \<Rightarrow> int set" where
  "hit_ids c rows = sock_id ` {r \<in> set rows. \<not> available r \<and> 0 < expires_at r \<and> expires_at r \<le> c}"

lemma avail_map: "\<forall>r. sock_id (f r) = sock_id r \<Longrightarrow> avail_ids (map f rows) = sock_id ` {r \<in> set rows. available (f r)}"
proof -
  assume f: "\<forall>r. sock_id (f r) = sock_id r"
  have "{r \<in> set (map f rows). available r} = f ` {r \<in> set rows. available (f r)}" by auto
  then show ?thesis using f by (simp add: avail_ids_def image_image)
qed

lemma avail_touch [simp]: "avail_ids (touch_lease e n u rows) = avail_ids rows"
  unfolding touch_lease_def by (subst avail_map) (simp_all add: avail_ids_def if_distrib [of available] cong: if_cong)

lemma avail_extend [simp]: "avail_ids (extend_socks u x w n rows) = avail_ids rows"
  unfolding extend_socks_def by (subst avail_map) (simp_all add: avail_ids_def if_distrib [of available] cong: if_cong)

lemma avail_release: "avail_ids (release_expired c rows) = avail_ids rows \<union> hit_ids c rows"
  unfolding release_expired_def
  by (subst avail_map) (auto simp: avail_ids_def hit_ids_def split: if_splits)

lemma avail_take:
  assumes "distinct (map sock_id rows)" and "distinct (map username rows)" and "c \<in> set rows"
  shows "avail_ids (take_exclusive e n (username c) (password c) rows) = avail_ids rows - {sock_id c}"
proof -
  have u: "username r = username c \<longleftrightarrow> r = c" if "r \<in> set rows" for r using assms(2,3) that by (metis distinct_map inj_onD)
  have i: "sock_id r = sock_id c \<longleftrightarrow> r = c" if "r \<in> set rows" for r using assms(1,3) that by (metis distinct_map inj_onD)
  have "avail_ids (take_exclusive e n (username c) (password c) rows) = sock_id ` {r \<in> set rows. available r \<and> r \<noteq> c}"
    unfolding take_exclusive_def by (subst avail_map) (auto simp: u)
  also have "\<dots> = avail_ids rows - {sock_id c}" using i by (auto simp: avail_ids_def)
  finally show ?thesis .
qed

subsection \<open>Tasks and steps\<close>

text \<open>Where a task is: an expiry time, then the row it read, then the account it was given and the expiry time
  it was told.\<close>

datatype task =
    Fresh
  | Queueing int
  | Seeking int bool \<comment> \<open>whether the expired leases have been freed\<close>
  | None_left int
  | Freeing int int \<comment> \<open>with the time read from the clock\<close>
  | Marking int socks5_config
  | Owning int string \<comment> \<open>an exclusive lease\<close>
  | Picked int string
  | Sharing int string \<comment> \<open>a lease of a priority slot\<close>
  | Dropped

record sock_race =
  accts :: "socks5_config list"
  wall :: int
  guard_of :: "nat option"
  at :: "nat \<Rightarrow> task"

fun inside :: "task \<Rightarrow> bool" where
  "inside (Seeking e r) = True"
| "inside (None_left e) = True"
| "inside (Freeing e c) = True"
| "inside (Marking e c) = True"
| "inside _ = False"

fun told :: "task \<Rightarrow> (string \<times> int) option" where
  "told (Owning e u) = Some (u, e)"
| "told (Sharing e u) = Some (u, e)"
| "told _ = None"

fun retell :: "int \<Rightarrow> task \<Rightarrow> task" where
  "retell new (Owning e u) = Owning new u"
| "retell new (Sharing e u) = Sharing new u"
| "retell new t = t"

abbreviation goto :: "nat \<Rightarrow> task \<Rightarrow> sock_race \<Rightarrow> sock_race" where
  "goto k p s \<equiv> s\<lparr>at := (at s)(k := p)\<rparr>"

inductive sock_step :: "int \<Rightarrow> sock_race \<Rightarrow> sock_race \<Rightarrow> bool" for slots where
  clock_ticks: "wall s \<le> t \<Longrightarrow> sock_step slots s (s\<lparr>wall := t\<rparr>)"
| ask_exclusive: "at s k = Fresh \<Longrightarrow> sock_step slots s (goto k (Queueing e) s)"
| enter: "at s k = Queueing e \<Longrightarrow> guard_of s = None \<Longrightarrow>
    sock_step slots s (goto k (Seeking e False) (s\<lparr>guard_of := Some k\<rparr>))"
| wait_over: "at s k = Queueing e \<Longrightarrow> sock_step slots s (goto k Dropped s)"
| found: "at s k = Seeking e r \<Longrightarrow> next_exclusive slots (accts s) = Some c \<Longrightarrow>
    sock_step slots s (goto k (Marking e c) s)"
| none_found: "at s k = Seeking e False \<Longrightarrow> next_exclusive slots (accts s) = None \<Longrightarrow>
    sock_step slots s (goto k (None_left e) s)"
| still_none: "at s k = Seeking e True \<Longrightarrow> next_exclusive slots (accts s) = None \<Longrightarrow>
    sock_step slots s (goto k Dropped (s\<lparr>guard_of := None\<rparr>))"
| read_time: "at s k = None_left e \<Longrightarrow> sock_step slots s (goto k (Freeing e (wall s)) s)"
| free: "at s k = Freeing e c \<Longrightarrow>
    sock_step slots s (goto k (Seeking e True) (s\<lparr>accts := release_expired c (accts s)\<rparr>))"
| mark: "at s k = Marking e c \<Longrightarrow>
    sock_step slots s (goto k (Owning e (username c))
      (s\<lparr>accts := take_exclusive e n (username c) (password c) (accts s), guard_of := None\<rparr>))"
| statement_fails: "inside (at s k) \<Longrightarrow> sock_step slots s (goto k Dropped (s\<lparr>guard_of := None\<rparr>))"
| ask_shared: "at s k = Fresh \<Longrightarrow> c \<in> set (priority_rows slots (accts s)) \<Longrightarrow>
    sock_step slots s (goto k (Picked e (username c)) s)"
| touch: "at s k = Picked e u \<Longrightarrow>
    sock_step slots s (goto k (Sharing e u) (s\<lparr>accts := touch_lease e n u (accts s)\<rparr>))"
| touch_fails: "at s k = Picked e u \<Longrightarrow> sock_step slots s (goto k Dropped s)"
| extend: "told (at s k) = Some (u, e) \<Longrightarrow> 0 \<le> c \<Longrightarrow> c \<le> wall s \<Longrightarrow> \<exists>r \<in> set (accts s). extend_hits u e c r \<Longrightarrow>
    sock_step slots s (goto k (retell new (at s k)) (s\<lparr>accts := extend_socks u e new c (accts s)\<rparr>))"
| free_unlocked: "c \<le> wall s \<Longrightarrow> sock_step slots s (s\<lparr>accts := release_expired c (accts s)\<rparr>)"

definition first_accts :: "int \<Rightarrow> socks5_config list \<Rightarrow> bool" where
  "first_accts slots rows \<longleftrightarrow> distinct (map sock_id rows) \<and> distinct (map username rows) \<and> settled slots rows"

inductive sock_reachable :: "int \<Rightarrow> sock_race \<Rightarrow> bool" for slots where
  at_first: "first_accts slots rows \<Longrightarrow> 0 \<le> now \<Longrightarrow>
    sock_reachable slots \<lparr>accts = rows, wall = now, guard_of = None, at = (\<lambda>k. Fresh)\<rparr>"
| and_then_step: "sock_reachable slots s \<Longrightarrow> sock_step slots s t \<Longrightarrow> sock_reachable slots t"

inductive_cases sock_step_elims: "sock_step slots s t"

subsection \<open>The lock\<close>

definition socks_lock :: string where "socks_lock = ''get_socks5_config''"

definition task_phase :: "task \<Rightarrow> phase" where
  "task_phase p = (case p of Queueing e \<Rightarrow> Wanting socks_lock | _ \<Rightarrow> if inside p then Within socks_lock else Away)"

definition sock_view :: "sock_race \<Rightarrow> lock_st" where
  "sock_view s = \<lparr>mutexes = [socks_lock \<mapsto> guard_of s], phase = task_phase \<circ> at s\<rparr>"

lemma task_phase_simps [simp]:
  "task_phase Fresh = Away" "task_phase (Queueing e) = Wanting socks_lock" "task_phase (Seeking e r) = Within socks_lock"
  "task_phase (None_left e) = Within socks_lock" "task_phase (Freeing e c) = Within socks_lock"
  "task_phase (Marking e row) = Within socks_lock" "task_phase (Owning e u) = Away" "task_phase (Picked e u) = Away"
  "task_phase (Sharing e u) = Away" "task_phase Dropped = Away"
  by (simp_all add: task_phase_def)

lemma inside_phase: "inside p \<longleftrightarrow> task_phase p = Within socks_lock"
  by (cases p) simp_all

lemma retell_phase [simp]: "task_phase (retell new p) = task_phase p"
  by (cases p) simp_all

lemma sock_view_leave:
  "inside (at s k) \<Longrightarrow> at t = (at s)(k := p) \<Longrightarrow> task_phase p = Away \<Longrightarrow> guard_of t = None \<Longrightarrow> lock_step (sock_view s) (sock_view t)"
  using drop_guard [of "sock_view s" k socks_lock] by (simp add: sock_view_def inside_phase fun_upd_comp)

lemma sock_protocol:
  assumes "sock_step slots s t"
  shows "sock_view t = sock_view s \<or> lock_step (sock_view s) (sock_view t)"
  using assms
proof cases
  case (ask_exclusive k e)
  then show ?thesis using ask [of "sock_view s" k socks_lock] by (simp add: sock_view_def lock_entry_def fun_upd_comp)
next
  case (enter k e)
  then show ?thesis using lock [of "sock_view s" k socks_lock] by (simp add: sock_view_def fun_upd_comp)
next
  case (wait_over k e)
  then show ?thesis using give_up [of "sock_view s" k socks_lock] by (simp add: sock_view_def fun_upd_comp)
next
  case (still_none k e)
  then show ?thesis using sock_view_leave [of s k t Dropped] by simp
next
  case (mark k e c n)
  then show ?thesis using sock_view_leave [of s k t "Owning e (username c)"] by simp
next
  case (statement_fails k)
  then show ?thesis using sock_view_leave [of s k t Dropped] by simp
qed (simp_all add: sock_view_def fun_upd_comp fun_upd_idem_iff)

interpretation sock_tasks: lock_users "sock_step slots" sock_view for slots
  by unfold_locales (rule sock_protocol)

lemma inside_alone: "sock_tasks.sound s \<Longrightarrow> inside (at s j) \<Longrightarrow> inside (at s k) \<Longrightarrow> j = k"
  using sock_tasks.exclusive [of s j socks_lock k] by (simp add: inside_phase sock_view_def)

subsection \<open>What stays true of the table\<close>

definition base :: "socks5_config list \<Rightarrow> (int \<times> string \<times> string) list" where
  "base rows = map (\<lambda>r. (sock_id r, username r, password r)) rows"

text \<open>\<open>B\<close> are the accounts, \<open>S\<close> the ids of the shared ones; neither ever changes.\<close>

definition table_inv :: "int \<Rightarrow> (int \<times> string \<times> string) list \<Rightarrow> int set \<Rightarrow> socks5_config list \<Rightarrow> bool" where
  "table_inv slots B S rows \<longleftrightarrow> base rows = B \<and> distinct (map sock_id rows) \<and> distinct (map username rows) \<and>
     shared_ids slots (avail_ids rows) = S \<and> settled slots rows"

lemma base_same [simp]:
  "base (touch_lease e n u rows) = base rows" "base (take_exclusive e n u p rows) = base rows"
  "base (extend_socks u x w n rows) = base rows" "base (release_expired n rows) = base rows"
  by (simp_all add: base_def touch_lease_def take_exclusive_def extend_socks_def release_expired_def)

lemma base_row: "(i, u, p) \<in> set (base rows) \<longleftrightarrow> (\<exists>r \<in> set rows. sock_id r = i \<and> username r = u \<and> password r = p)"
  by (auto simp: base_def image_iff)

lemma table_available: "table_inv slots B S rows \<Longrightarrow> r \<in> set rows \<Longrightarrow> sock_id r \<in> avail_ids rows \<longleftrightarrow> available r"
  unfolding table_inv_def avail_ids_def by (auto simp: distinct_map dest: inj_onD)

lemma table_name: "table_inv slots B S rows \<Longrightarrow> r \<in> set rows \<Longrightarrow> x \<in> set rows \<Longrightarrow> username r = username x \<Longrightarrow> r = x"
  unfolding table_inv_def by (auto simp: distinct_map dest: inj_onD)

lemma table_id: "table_inv slots B S rows \<Longrightarrow> r \<in> set rows \<Longrightarrow> x \<in> set rows \<Longrightarrow> sock_id r = sock_id x \<Longrightarrow> r = x"
  unfolding table_inv_def by (auto simp: distinct_map dest: inj_onD)

lemma settled_map:
  assumes "\<forall>r. sock_id (f r) = sock_id r"
    and "\<And>r. r \<in> set rows \<Longrightarrow> \<not> available (f r) \<Longrightarrow> 0 < expires_at (f r) \<Longrightarrow> nat slots \<le> rank (avail_ids (map f rows)) (sock_id r)"
  shows "settled slots (map f rows)"
  using assms by (auto simp: settled_def)

text \<open>A shared account is available.\<close>

lemma shared_available:
  assumes "table_inv slots B S rows" and "(i, u, p) \<in> set B" and "i \<in> S" and "r \<in> set rows" and "username r = u"
  shows "available r" and "sock_id r = i"
proof -
  from assms(1,2) obtain x where x: "x \<in> set rows" "sock_id x = i" "username x = u"
    unfolding table_inv_def by (auto simp: base_row)
  then have "r = x" using table_name [OF assms(1)] assms(4,5) by blast
  moreover have "i \<in> avail_ids rows" using assms(1,3) by (auto simp: table_inv_def shared_ids_def)
  ultimately show "available r" "sock_id r = i" using x table_available [OF assms(1)] by auto
qed

lemma table_touch:
  assumes "table_inv slots B S rows" and "(i, u, p) \<in> set B" and "i \<in> S"
  shows "table_inv slots B S (touch_lease e n u rows)"
proof -
  have "settled slots (touch_lease e n u rows)"
    unfolding touch_lease_def
  proof (rule settled_map)
    fix r assume r: "r \<in> set rows" and un: "\<not> available (if username r = u then r\<lparr>expires_at := e, updated := n\<rparr> else r)"
      and pos: "0 < expires_at (if username r = u then r\<lparr>expires_at := e, updated := n\<rparr> else r)"
    have "username r \<noteq> u" using shared_available(1) [OF assms r] un by (auto split: if_splits)
    then show "nat slots \<le> rank (avail_ids (map (\<lambda>r. if username r = u then r\<lparr>expires_at := e, updated := n\<rparr> else r) rows)) (sock_id r)"
      using assms(1) r un pos unfolding touch_lease_def [symmetric] by (auto simp: table_inv_def settled_def split: if_splits)
  qed simp
  then show ?thesis using assms(1) by (simp add: table_inv_def row_maps_keep)
qed

lemma table_extend:
  assumes "table_inv slots B S rows" and "0 \<le> c"
  shows "table_inv slots B S (extend_socks u x w c rows)"
proof -
  have "settled slots (extend_socks u x w c rows)"
    unfolding extend_socks_def
  proof (rule settled_map)
    fix r assume "r \<in> set rows" "\<not> available (if extend_hits u x c r then r\<lparr>expires_at := w, updated := c\<rparr> else r)"
      "0 < expires_at (if extend_hits u x c r then r\<lparr>expires_at := w, updated := c\<rparr> else r)"
    then show "nat slots \<le> rank (avail_ids (map (\<lambda>r. if extend_hits u x c r then r\<lparr>expires_at := w, updated := c\<rparr> else r) rows)) (sock_id r)"
      using assms unfolding extend_socks_def [symmetric]
      by (auto simp: table_inv_def settled_def extend_hits_def split: if_splits)
  qed simp
  then show ?thesis using assms(1) by (simp add: table_inv_def row_maps_keep)
qed

lemma table_release:
  assumes "table_inv slots B S rows"
  shows "table_inv slots B S (release_expired c rows)"
proof -
  let ?A = "avail_ids rows" and ?H = "hit_ids c rows"
  have fin: "finite ?H" by (simp add: hit_ids_def)
  have "\<forall>j \<in> ?H. nat slots \<le> rank ?A j" using assms by (auto simp: table_inv_def settled_def hit_ids_def)
  then have "shared_ids slots (?A \<union> ?H) = S" using shared_add [of ?A ?H slots] fin assms by (simp add: table_inv_def)
  moreover have "settled slots (release_expired c rows)"
    unfolding release_expired_def
  proof (rule settled_map)
    fix r assume r: "r \<in> set rows" "\<not> available (if 0 < expires_at r \<and> expires_at r \<le> c then r\<lparr>available := True, expires_at := 0\<rparr> else r)"
      "0 < expires_at (if 0 < expires_at r \<and> expires_at r \<le> c then r\<lparr>available := True, expires_at := 0\<rparr> else r)"
    then have "nat slots \<le> rank ?A (sock_id r)" using assms by (auto simp: table_inv_def settled_def split: if_splits)
    also have "\<dots> \<le> rank (?A \<union> ?H) (sock_id r)" using fin by (intro rank_mono) auto
    finally show "nat slots \<le> rank (avail_ids (map (\<lambda>r. if 0 < expires_at r \<and> expires_at r \<le> c
        then r\<lparr>available := True, expires_at := 0\<rparr> else r) rows)) (sock_id r)"
      unfolding release_expired_def [symmetric] avail_release .
  qed simp
  ultimately show ?thesis using assms by (simp add: table_inv_def row_maps_keep avail_release)
qed

lemma table_take:
  assumes t: "table_inv slots B S rows" and c: "c \<in> set rows" "available c" and far: "nat slots \<le> rank (avail_ids rows) (sock_id c)"
  shows "table_inv slots B S (take_exclusive e n (username c) (password c) rows)"
proof -
  let ?A = "avail_ids rows" and ?new = "take_exclusive e n (username c) (password c) rows"
  have in_A: "sock_id c \<in> ?A" using table_available [OF t] c by simp
  have A: "avail_ids ?new = ?A - {sock_id c}" using t c(1) by (intro avail_take) (auto simp: table_inv_def)
  have "shared_ids slots (avail_ids ?new) = S"
    using shared_remove [OF finite_avail in_A far] t by (simp add: A table_inv_def)
  moreover have keep: "nat slots \<le> rank (?A - {sock_id c}) i" if "nat slots \<le> rank ?A i" for i
    using rank_less [OF finite_avail in_A, of i] far that by (auto simp: rank_remove in_A)
  have "settled slots ?new"
    unfolding take_exclusive_def
  proof (rule settled_map)
    let ?f = "\<lambda>r. if username r = username c \<and> password r = password c
        then r\<lparr>available := False, expires_at := e, updated := n\<rparr> else r"
    fix r assume r: "r \<in> set rows" "\<not> available (?f r)" "0 < expires_at (?f r)"
    have "nat slots \<le> rank ?A (sock_id r)"
    proof (cases "username r = username c")
      case True
      then show ?thesis using table_name [OF t r(1) c(1)] far by simp
    next
      case False
      then show ?thesis using r t by (simp add: table_inv_def settled_def)
    qed
    from keep [OF this] show "nat slots \<le> rank (avail_ids (map ?f rows)) (sock_id r)"
      using A by (simp add: take_exclusive_def)
  qed simp
  ultimately show ?thesis using t by (simp add: table_inv_def row_maps_keep)
qed

subsection \<open>What stays true of the tasks\<close>

definition held :: "string \<Rightarrow> int \<Rightarrow> socks5_config list \<Rightarrow> bool" where
  "held u e rows \<longleftrightarrow> (\<exists>r \<in> set rows. username r = u \<and> \<not> available r \<and> expires_at r = e)"

definition names_inv :: "(int \<times> string \<times> string) list \<Rightarrow> int set \<Rightarrow> sock_race \<Rightarrow> bool" where
  "names_inv B S s \<longleftrightarrow>
     (\<forall>k e u. at s k = Picked e u \<or> at s k = Sharing e u \<longrightarrow> (\<exists>i p. (i, u, p) \<in> set B \<and> i \<in> S)) \<and>
     (\<forall>k e u. at s k = Owning e u \<longrightarrow> (\<exists>i p. (i, u, p) \<in> set B \<and> i \<notin> S))"

definition takeable :: "int \<Rightarrow> socks5_config \<Rightarrow> socks5_config list \<Rightarrow> bool" where
  "takeable slots c rows \<longleftrightarrow> (\<exists>r \<in> set rows. sock_id r = sock_id c \<and> username r = username c \<and> password r = password c \<and>
     available r \<and> nat slots \<le> rank (avail_ids rows) (sock_id r))"

definition mark_inv :: "int \<Rightarrow> sock_race \<Rightarrow> bool" where
  "mark_inv slots s \<longleftrightarrow> (\<forall>k e c. at s k = Marking e c \<longrightarrow> takeable slots c (accts s))"

definition time_inv :: "sock_race \<Rightarrow> bool" where
  "time_inv s \<longleftrightarrow> 0 \<le> wall s \<and> (\<forall>k e c. at s k = Freeing e c \<longrightarrow> c \<le> wall s)"

definition held_inv :: "sock_race \<Rightarrow> bool" where
  "held_inv s \<longleftrightarrow> (\<forall>k e u. at s k = Owning e u \<and> wall s < e \<longrightarrow> held u e (accts s))"

definition owner_inv :: "sock_race \<Rightarrow> bool" where
  "owner_inv s \<longleftrightarrow> (\<forall>j k e e' u. j \<noteq> k \<and> at s j = Owning e u \<and> at s k = Owning e' u \<longrightarrow> e \<le> wall s \<or> e' \<le> wall s)"

lemma time_step: "sock_step slots s t \<Longrightarrow> time_inv s \<Longrightarrow> time_inv t"
  by (erule sock_step_elims; force simp: time_inv_def elim!: retell.elims split: if_splits)

text \<open>The statements that change the table.\<close>

definition table_moves :: "int \<Rightarrow> sock_race \<Rightarrow> sock_race \<Rightarrow> bool" where
  "table_moves slots s t \<longleftrightarrow> accts t = accts s \<or>
     (\<exists>k e c n. at s k = Marking e c \<and> accts t = take_exclusive e n (username c) (password c) (accts s)) \<or>
     (\<exists>k e u n. at s k = Picked e u \<and> accts t = touch_lease e n u (accts s)) \<or>
     (\<exists>u x w c. 0 \<le> c \<and> accts t = extend_socks u x w c (accts s)) \<or>
     (\<exists>c. accts t = release_expired c (accts s))"

lemma step_moves: "sock_step slots s t \<Longrightarrow> table_moves slots s t"
  by (erule sock_step_elims; simp add: table_moves_def; blast)

lemma table_step:
  assumes "sock_step slots s t" and "table_inv slots B S (accts s)" and "names_inv B S s" and "mark_inv slots s"
  shows "table_inv slots B S (accts t)"
  using step_moves [OF assms(1)] unfolding table_moves_def
proof (elim disjE exE conjE)
  fix k e c n assume m: "at s k = Marking e c" "accts t = take_exclusive e n (username c) (password c) (accts s)"
  then obtain r where "r \<in> set (accts s)" "available r" "nat slots \<le> rank (avail_ids (accts s)) (sock_id r)"
      "username r = username c" "password r = password c" using assms(4) unfolding mark_inv_def takeable_def by metis
  then show ?thesis using table_take [OF assms(2), of r e n] m by simp
next
  fix k e u n assume "at s k = Picked e u" "accts t = touch_lease e n u (accts s)"
  moreover from this obtain i p where "(i, u, p) \<in> set B" "i \<in> S" using assms(3) unfolding names_inv_def by metis
  ultimately show ?thesis using table_touch [OF assms(2)] by simp
qed (use assms(2) table_extend table_release in auto)

lemma names_keep:
  "names_inv B S s \<Longrightarrow> \<forall>j e u. (at t j = Picked e u \<or> at t j = Sharing e u \<longrightarrow> (\<exists>x. at s j \<in> {Picked x u, Sharing x u})) \<and>
     (at t j = Owning e u \<longrightarrow> (\<exists>x. at s j = Owning x u)) \<Longrightarrow> names_inv B S t"
  unfolding names_inv_def by (smt (verit) insert_iff singletonD)

lemma shared_row:
  assumes "table_inv slots B S rows" and "0 \<le> slots" and "c \<in> set (priority_rows slots rows)"
  shows "(sock_id c, username c, password c) \<in> set B" and "sock_id c \<in> S"
proof -
  have d: "distinct (map sock_id rows)" using assms(1) by (simp add: table_inv_def)
  note c = priority_rank [OF d assms(2,3)]
  show "(sock_id c, username c, password c) \<in> set B" using assms(1) c(1) unfolding table_inv_def by (auto simp: base_row)
  show "sock_id c \<in> S" using assms(1) c table_available [OF assms(1) c(1)] unfolding table_inv_def by (auto simp: shared_ids_def)
qed

lemma names_step:
  assumes "sock_step slots s t" and "0 \<le> slots" and "table_inv slots B S (accts s)" and "names_inv B S s" and "mark_inv slots s"
  shows "names_inv B S t"
  using assms(1)
proof cases
  case (ask_shared k c e)
  then show ?thesis using assms(4) shared_row [OF assms(3,2)] by (fastforce simp: names_inv_def)
next
  case (mark k e c n)
  then obtain r where r: "r \<in> set (accts s)" "username r = username c" "nat slots \<le> rank (avail_ids (accts s)) (sock_id r)"
    using assms(5) unfolding mark_inv_def takeable_def by metis
  then have "(sock_id r, username c, password r) \<in> set B" "sock_id r \<notin> S"
    using assms(3) unfolding table_inv_def by (auto simp: base_row shared_ids_def)
  then show ?thesis using assms(4) mark by (fastforce simp: names_inv_def)
next
  case (extend k u e c new)
  show ?thesis by (rule names_keep [OF assms(4)]) (cases "at s k"; auto simp: extend)
qed (rule names_keep [OF assms(4)]; auto)+

lemma takeable_map:
  assumes "takeable slots c rows"
    and "\<forall>r. sock_id (f r) = sock_id r \<and> username (f r) = username r \<and> password (f r) = password r \<and> (available r \<longrightarrow> available (f r))"
  shows "takeable slots c (map f rows)"
proof -
  from assms(1) obtain r where r: "r \<in> set rows" "sock_id r = sock_id c" "username r = username c" "password r = password c"
      "available r" "nat slots \<le> rank (avail_ids rows) (sock_id r)" unfolding takeable_def by blast
  have "avail_ids rows \<subseteq> avail_ids (map f rows)" using assms(2) by (subst avail_map) (auto simp: avail_ids_def)
  then have "nat slots \<le> rank (avail_ids (map f rows)) (sock_id r)" using r(6) rank_mono [of "avail_ids (map f rows)"] by (meson finite_avail order.refl order_trans)
  then show ?thesis unfolding takeable_def using r assms(2) by (intro bexI [of _ "f r"]) auto
qed

lemma takeable_same:
  "takeable slots c rows \<Longrightarrow> takeable slots c (touch_lease e n u rows)"
  "takeable slots c rows \<Longrightarrow> takeable slots c (extend_socks u x w n rows)"
  "takeable slots c rows \<Longrightarrow> takeable slots c (release_expired n rows)"
  unfolding touch_lease_def extend_socks_def release_expired_def by (erule takeable_map; simp)+

lemma mark_keep:
  "mark_inv slots s \<Longrightarrow> \<forall>k e c. at t k = Marking e c \<longrightarrow> at s k = Marking e c \<and> (takeable slots c (accts s) \<longrightarrow> takeable slots c (accts t)) \<Longrightarrow>
   mark_inv slots t"
  unfolding mark_inv_def by blast

lemma mark_step:
  assumes "sock_step slots s t" and "sock_tasks.sound s" and "table_inv slots B S (accts s)" and "mark_inv slots s"
  shows "mark_inv slots t"
  using assms(1)
proof cases
  case (found k e r c)
  have d: "distinct (map sock_id (accts s))" using assms(3) by (simp add: table_inv_def)
  have "takeable slots c (accts s)"
    using next_exclusive_available [OF found(3)] exclusive_rank [OF d found(3)] unfolding takeable_def by fastforce
  then show ?thesis using assms(4) by (simp add: mark_inv_def found)
next
  case (mark k e c n)
  have "at s j \<noteq> Marking x y" if "j \<noteq> k" for j x y using inside_alone [OF assms(2), of j k] that mark by auto
  then show ?thesis by (simp add: mark_inv_def mark)
next
  case (extend k u e c new)
  have "retell new (at s k) \<noteq> Marking x y" for x y using extend(2) by (cases "at s k") auto
  then show ?thesis by (intro mark_keep [OF assms(4)]) (simp add: extend takeable_same)
qed (rule mark_keep [OF assms(4)]; simp add: takeable_same)+

text \<open>An account that was handed out exclusively and is available again was freed, which reset its expiry time.\<close>

definition freed_inv :: "sock_race \<Rightarrow> bool" where
  "freed_inv s \<longleftrightarrow> (\<forall>k e u. at s k = Owning e u \<longrightarrow>
     (\<forall>r \<in> set (accts s). username r = u \<and> available r \<longrightarrow> expires_at r \<le> 0))"

lemma owner_not_shared:
  assumes "names_inv B S s" and "table_inv slots B S (accts s)" and "at s j = Owning e u"
    and "at s k = Picked e' v \<or> at s k = Sharing e' v"
  shows "u \<noteq> v"
proof
  assume "u = v"
  with assms(1,3,4) obtain i p i' p' where "(i, u, p) \<in> set B" "i \<notin> S" "(i', u, p') \<in> set B" "i' \<in> S"
    unfolding names_inv_def by metis
  with assms(2) show False unfolding table_inv_def by (auto simp: base_row distinct_map dest: inj_onD)
qed

text \<open>An extension that finds its row is made by the only task with a claim to the account.\<close>

lemma sock_extender_alone:
  assumes "table_inv slots B S (accts s)" and "names_inv B S s" and "held_inv s" and "owner_inv s"
    and "told (at s k) = Some (u, e)" and "r \<in> set (accts s)" and "extend_hits u e c r"
    and "at s j = Owning e' u" and "j \<noteq> k"
  shows "e' \<le> wall s"
proof (rule ccontr)
  assume live: "\<not> e' \<le> wall s"
  then obtain x where x: "x \<in> set (accts s)" "username x = u" "expires_at x = e'"
    using assms(3,8) unfolding held_inv_def held_def by (metis linorder_not_le)
  have "x = r" using table_name [OF assms(1) x(1) assms(6)] assms(7) x by (simp add: extend_hits_def)
  then have e: "e' = e" using assms(7) x by (simp add: extend_hits_def)
  show False
  proof (cases "at s k")
    case (Owning y v)
    then show ?thesis using assms(4,5,8,9) live e unfolding owner_inv_def by (metis option.inject prod.inject told.simps(1))
  next
    case (Sharing y v)
    then show ?thesis using owner_not_shared [OF assms(2,1,8), of k y v] assms(5) by simp
  qed (use assms(5) in simp_all)
qed

lemma freed_keep:
  "freed_inv s \<Longrightarrow> \<forall>k e u. at t k = Owning e u \<longrightarrow> (\<exists>x. at s k = Owning x u) \<Longrightarrow>
   \<forall>k e u. at s k = Owning e u \<longrightarrow> (\<forall>r \<in> set (accts s). username r = u \<and> available r \<longrightarrow> expires_at r \<le> 0) \<longrightarrow>
     (\<forall>r \<in> set (accts t). username r = u \<and> available r \<longrightarrow> expires_at r \<le> 0) \<Longrightarrow> freed_inv t"
  unfolding freed_inv_def by metis

lemma freed_step:
  assumes "sock_step slots s t" and "table_inv slots B S (accts s)" and "names_inv B S s" and "mark_inv slots s" and "freed_inv s"
  shows "freed_inv t"
  using assms(1)
proof cases
  case (mark k e c n)
  then obtain x where x: "x \<in> set (accts s)" "username x = username c" "password x = password c"
    using assms(4) unfolding mark_inv_def takeable_def by metis
  have gone: "\<not> available (if username r = username c \<and> password r = password c
      then r\<lparr>available := False, expires_at := e, updated := n\<rparr> else r)" if "r \<in> set (accts s)" "username r = username c" for r
    using table_name [OF assms(2) that(1) x(1)] that x by simp
  show ?thesis using assms(5) unfolding freed_inv_def mark take_exclusive_def
    by (auto dest: gone split: if_splits)
next
  case (touch k e u n)
  have "\<forall>j x. at s j \<noteq> Owning x u" using owner_not_shared [OF assms(3,2)] touch by metis
  then show ?thesis by (intro freed_keep [OF assms(5)]) (auto simp: touch touch_lease_def)
next
  case (extend k u e c new)
  show ?thesis
    by (rule freed_keep [OF assms(5)]; cases "at s k")
      (use extend in \<open>auto simp: extend_socks_def extend_hits_def split: if_splits\<close>)
qed (rule freed_keep [OF assms(5)]; auto simp: release_expired_def split: if_splits)+

text \<open>Other accounts keep their leases.\<close>

lemma held_other:
  "held v x rows \<Longrightarrow> v \<noteq> u \<Longrightarrow> held v x (touch_lease e n u rows)"
  "held v x rows \<Longrightarrow> v \<noteq> u \<Longrightarrow> held v x (take_exclusive e n u p rows)"
  "held v x rows \<Longrightarrow> v \<noteq> u \<Longrightarrow> held v x (extend_socks u y w n rows)"
  "held v x rows \<Longrightarrow> n < x \<Longrightarrow> held v x (release_expired n rows)"
  by (auto simp: held_def touch_lease_def take_exclusive_def extend_socks_def extend_hits_def release_expired_def image_iff
      intro!: bexI [rotated])

lemma held_map: "x \<in> set rows \<Longrightarrow> username (f x) = u \<Longrightarrow> \<not> available (f x) \<Longrightarrow> expires_at (f x) = e \<Longrightarrow> held u e (map f rows)"
  by (auto simp: held_def)

lemma held_keep:
  "held_inv s \<Longrightarrow> wall s \<le> wall t \<Longrightarrow> \<forall>k e u. at t k = Owning e u \<longrightarrow> at s k = Owning e u \<Longrightarrow>
   \<forall>k e u. at s k = Owning e u \<and> wall s < e \<and> held u e (accts s) \<longrightarrow> held u e (accts t) \<Longrightarrow> held_inv t"
  unfolding held_inv_def by (meson order.strict_trans1)

lemma held_step:
  assumes "sock_step slots s t" and "table_inv slots B S (accts s)" and "names_inv B S s" and "mark_inv slots s"
    and "time_inv s" and "owner_inv s" and "freed_inv s" and "held_inv s"
  shows "held_inv t"
  using assms(1)
proof cases
  case (mark k e c n)
  then obtain x where x: "x \<in> set (accts s)" "username x = username c" "password x = password c" "available x"
    using assms(4) unfolding mark_inv_def takeable_def by metis
  have "held (username c) e (take_exclusive e n (username c) (password c) (accts s))"
    unfolding take_exclusive_def by (rule held_map [OF x(1)]) (simp_all add: x)
  moreover have "held v y (take_exclusive e n (username c) (password c) (accts s))"
    if "at s j = Owning y v" "wall s < y" for j y v
  proof -
    have h: "held v y (accts s)" using assms(8) that unfolding held_inv_def by blast
    then have "v \<noteq> username c" using x table_name [OF assms(2)] unfolding held_def by metis
    with h show ?thesis by (rule held_other(2))
  qed
  ultimately show ?thesis by (auto simp: held_inv_def mark)
next
  case (touch k e u n)
  have "\<forall>j x. at s j \<noteq> Owning x u" using owner_not_shared [OF assms(3,2)] touch by metis
  then show ?thesis by (intro held_keep [OF assms(8)]) (auto simp: touch intro!: held_other(1))
next
  case (extend k u e c new)
  then obtain r where r: "r \<in> set (accts s)" "extend_hits u e c r" by blast
  have other: "held v y (extend_socks u e new c (accts s))" if "j \<noteq> k" "at s j = Owning y v" "wall s < y" for j y v
  proof -
    have "held v y (accts s)" using assms(8) that unfolding held_inv_def by blast
    moreover have "v \<noteq> u" using sock_extender_alone [OF assms(2,3,8,6) extend(2) r, of j y] that by auto
    ultimately show ?thesis by (rule held_other(3))
  qed
  have mine: "held u new (extend_socks u e new c (accts s))" if "at s k = Owning y u" for y
  proof -
    have "username r = u" "expires_at r > 0" using r(2) extend(3) by (auto simp: extend_hits_def)
    then have "\<not> available r" using assms(7) that r(1) unfolding freed_inv_def by fastforce
    then show ?thesis unfolding extend_socks_def using \<open>username r = u\<close> r by (intro held_map [OF r(1)]) simp_all
  qed
  show ?thesis using extend(2) other mine unfolding held_inv_def extend(1) by (cases "at s k") auto
next
  case (free k e c)
  then have "c \<le> wall s" using assms(5) by (auto simp: time_inv_def)
  then show ?thesis by (intro held_keep [OF assms(8)]) (auto simp: free intro!: held_other(4))
qed (rule held_keep [OF assms(8)]; auto intro!: held_other(4))+

lemma owner_keep:
  "owner_inv s \<Longrightarrow> wall s \<le> wall t \<Longrightarrow> \<forall>k e u. at t k = Owning e u \<longrightarrow> at s k = Owning e u \<Longrightarrow> owner_inv t"
  unfolding owner_inv_def by (meson order.trans)

lemma owner_new:
  assumes "owner_inv s" and "wall t = wall s" and "\<forall>j. j \<noteq> k \<longrightarrow> at t j = at s j" and "at t k = Owning e u"
    and "\<And>j y. j \<noteq> k \<Longrightarrow> at s j = Owning y u \<Longrightarrow> y \<le> wall s"
  shows "owner_inv t"
  using assms unfolding owner_inv_def by (metis task.inject(6))

lemma owner_step:
  assumes "sock_step slots s t" and "table_inv slots B S (accts s)" and "names_inv B S s" and "mark_inv slots s"
    and "held_inv s" and "owner_inv s"
  shows "owner_inv t"
  using assms(1)
proof cases
  case (mark k e c n)
  then obtain x where x: "x \<in> set (accts s)" "username x = username c" "available x"
    using assms(4) unfolding mark_inv_def takeable_def by metis
  have "y \<le> wall s" if "at s j = Owning y (username c)" for j y
    using assms(5) that x table_name [OF assms(2)] unfolding held_inv_def held_def by (metis linorder_not_le)
  then show ?thesis by (intro owner_new [OF assms(6), of t k e "username c"]) (simp_all add: mark)
next
  case (extend k u e c new)
  then obtain r where r: "r \<in> set (accts s)" "extend_hits u e c r" by blast
  have alone: "y \<le> wall s" if "j \<noteq> k" "at s j = Owning y u" for j y
    using sock_extender_alone [OF assms(2,3,5,6) extend(2) r] that by blast
  show ?thesis
  proof (cases "at s k")
    case (Owning x v)
    then show ?thesis using extend alone by (intro owner_new [OF assms(6), of t k new u]) simp_all
  next
    case (Sharing x v)
    then show ?thesis by (intro owner_keep [OF assms(6)]) (simp_all add: extend)
  qed (use extend(2) in simp_all)
qed (rule owner_keep [OF assms(6)]; simp)+

definition sock_inv :: "int \<Rightarrow> (int \<times> string \<times> string) list \<Rightarrow> int set \<Rightarrow> sock_race \<Rightarrow> bool" where
  "sock_inv slots B S s \<longleftrightarrow> sock_tasks.sound s \<and> table_inv slots B S (accts s) \<and> names_inv B S s \<and> mark_inv slots s \<and>
     time_inv s \<and> freed_inv s \<and> held_inv s \<and> owner_inv s"

lemma sock_inv_step:
  assumes "sock_step slots s t" and "0 \<le> slots" and "sock_inv slots B S s"
  shows "sock_inv slots B S t"
proof -
  have i: "sock_tasks.sound s" "table_inv slots B S (accts s)" "names_inv B S s" "mark_inv slots s" "time_inv s"
      "freed_inv s" "held_inv s" "owner_inv s" using assms(3) by (simp_all add: sock_inv_def)
  have "table_inv slots B S (accts t)" using table_step [OF assms(1) i(2,3,4)] .
  moreover have "names_inv B S t" using names_step [OF assms(1,2) i(2,3,4)] .
  moreover have "mark_inv slots t" using mark_step [OF assms(1) i(1,2,4)] .
  moreover have "freed_inv t" using freed_step [OF assms(1) i(2,3,4,6)] .
  moreover have "held_inv t" using held_step [OF assms(1) i(2,3,4,5,8,6,7)] .
  moreover have "owner_inv t" using owner_step [OF assms(1) i(2,3,4,7,8)] .
  ultimately show ?thesis using sock_tasks.sound_step [OF assms(1) i(1)] time_step [OF assms(1) i(5)] by (simp add: sock_inv_def)
qed

lemma sock_inv_reachable: "sock_reachable slots s \<Longrightarrow> 0 \<le> slots \<Longrightarrow> \<exists>B S. sock_inv slots B S s"
proof (induction rule: sock_reachable.induct)
  case (at_first rows now)
  then have "sock_inv slots (base rows) (shared_ids slots (avail_ids rows))
      \<lparr>accts = rows, wall = now, guard_of = None, at = (\<lambda>k. Fresh)\<rparr>"
    by (simp add: sock_inv_def sock_tasks.sound_def sock_view_def lock_ok_def table_inv_def first_accts_def names_inv_def
        mark_inv_def time_inv_def freed_inv_def held_inv_def owner_inv_def)
  then show ?case by blast
next
  case (and_then_step s t)
  then show ?case using sock_inv_step by blast
qed

subsection \<open>The sequential allocation is one of the interleavings\<close>

lemma sock_path: "sock_step slots s t \<Longrightarrow> (sock_step slots)\<^sup>*\<^sup>* t u \<Longrightarrow> (sock_step slots)\<^sup>*\<^sup>* s u"
  by (rule converse_rtranclp_into_rtranclp)

lemma exclusive_path:
  assumes "get_socks5_config_non_priority e slots s = (Inr c, t)" and "accts r = socks_configs s"
    and "wall r = clock s (clock_pos s)" and "at r k = Fresh" and "guard_of r = None"
  shows "(sock_step slots)\<^sup>*\<^sup>* r (goto k (Owning e (username c)) (r\<lparr>accts := socks_configs t\<rparr>))"
proof -
  let ?c = "clock s (clock_pos s)"
  from non_priority_Inr [OF assms(1)] obtain rs n where rs: "rs = socks_configs s \<or>
      next_exclusive slots (socks_configs s) = None \<and> rs = release_expired ?c (socks_configs s)"
    and c: "next_exclusive slots rs = Some c" and t: "socks_configs t = take_exclusive e n (username c) (password c) rs"
    by blast
  let ?in = "\<lambda>p rs. r\<lparr>accts := rs, guard_of := Some k, at := (at r)(k := p)\<rparr>"
  have fin: "r\<lparr>accts := x, guard_of := None, at := q\<rparr> = r\<lparr>accts := x, at := q\<rparr>" for x q using assms(5) by (cases r) simp
  have order: "r\<lparr>guard_of := g, accts := x, at := q\<rparr> = r\<lparr>accts := x, guard_of := g, at := q\<rparr>" for g x q by (cases r) simp
  have last2: "(sock_step slots)\<^sup>*\<^sup>* (?in (Seeking e q) rs) (goto k (Owning e (username c)) (r\<lparr>accts := socks_configs t\<rparr>))" for q
  proof -
    have 1: "sock_step slots (?in (Seeking e q) rs) (?in (Marking e c) rs)"
      using found [of "?in (Seeking e q) rs" k e q slots c] c by simp
    have 2: "sock_step slots (?in (Marking e c) rs) (goto k (Owning e (username c)) (r\<lparr>accts := socks_configs t\<rparr>))"
      using mark [of "?in (Marking e c) rs" k e c slots n] by (simp add: fin t)
    show ?thesis by (rule sock_path [OF 1 sock_path [OF 2 rtranclp.rtrancl_refl]])
  qed
  have r: "r\<lparr>accts := socks_configs s, guard_of := g, at := q\<rparr> = r\<lparr>guard_of := g, at := q\<rparr>" for g q
    using assms(2) by (cases r) simp
  have first2: "sock_step slots r (goto k (Queueing e) r)" "sock_step slots (goto k (Queueing e) r) (?in (Seeking e False) (socks_configs s))"
    using ask_exclusive [OF assms(4), of slots e] enter [of "goto k (Queueing e) r" k e slots] assms(5) by (simp_all add: r)
  from rs show ?thesis
  proof
    assume "rs = socks_configs s"
    with first2 have "sock_step slots (goto k (Queueing e) r) (?in (Seeking e False) rs)" by simp
    then show ?thesis by (rule sock_path [OF first2(1) sock_path [OF _ last2]])
  next
    assume full: "next_exclusive slots (socks_configs s) = None \<and> rs = release_expired ?c (socks_configs s)"
    have 1: "sock_step slots (?in (Seeking e False) (socks_configs s)) (?in (None_left e) (socks_configs s))"
      using none_found [of "?in (Seeking e False) (socks_configs s)" k e slots] full by simp
    have 2: "sock_step slots (?in (None_left e) (socks_configs s)) (?in (Freeing e ?c) (socks_configs s))"
      using read_time [of "?in (None_left e) (socks_configs s)" k e slots] assms(3) by simp
    have 3: "sock_step slots (?in (Freeing e ?c) (socks_configs s)) (?in (Seeking e True) rs)"
      using free [of "?in (Freeing e ?c) (socks_configs s)" k e ?c slots] full by (simp add: order)
    show ?thesis by (rule sock_path [OF first2(1) sock_path [OF first2(2) sock_path [OF 1 sock_path [OF 2 sock_path [OF 3 last2]]]]])
  qed
qed

lemma shared_path:
  assumes "get_socks5_config_priority e slots s = (Inr c, t)" and "\<forall>n m. 0 < m \<longrightarrow> rand_below s n m < m"
    and "accts r = socks_configs s" and "at r k = Fresh"
  shows "(sock_step slots)\<^sup>*\<^sup>* r (goto k (Sharing e (username c)) (r\<lparr>accts := socks_configs t\<rparr>))"
proof -
  from priority_Inr [OF assms(1)] obtain j n where j: "priority_rows slots (socks_configs s) \<noteq> []"
      "c = priority_rows slots (socks_configs s) ! j" "j = rand_below s (rand_pos s) (length (priority_rows slots (socks_configs s)))"
    and t: "socks_configs t = touch_lease e n (username c) (socks_configs s)" by blast
  then have "c \<in> set (priority_rows slots (accts r))" using assms(2,3) by simp
  then have "sock_step slots r (goto k (Picked e (username c)) r)" by (rule ask_shared [OF assms(4)])
  moreover have "sock_step slots (goto k (Picked e (username c)) r) (goto k (Sharing e (username c)) (r\<lparr>accts := socks_configs t\<rparr>))"
    using touch [of "goto k (Picked e (username c)) r" k e "username c" slots n] t assms(3) by simp
  ultimately show ?thesis by (metis sock_path rtranclp.rtrancl_refl)
qed

subsection \<open>Properties\<close>

text \<open>C3: SOCKS5 accounts leased exclusively belong to one client: for any number of tasks, whatever is interleaved and
  whatever fails, at most one task is in the guarded section, two tasks that were given the same account
  exclusively never both hold a lease in force (extensions included), an account that is given out exclusively is
  never also given to a client of the shared slots, and the row of an exclusive lease in force is unavailable
  and has the expiry time its holder was told last.\<close>

theorem exclusive_accounts_never_shared:
  assumes "sock_reachable slots s" and "0 \<le> slots"
  shows "(\<forall>j k. inside (at s j) \<and> inside (at s k) \<longrightarrow> j = k) \<and>
     (\<forall>j k e e' u. j \<noteq> k \<and> at s j = Owning e u \<and> at s k = Owning e' u \<longrightarrow> e \<le> wall s \<or> e' \<le> wall s) \<and>
     (\<forall>j k e e' u. at s j = Owning e u \<longrightarrow> at s k \<noteq> Sharing e' u) \<and>
     (\<forall>k e u. at s k = Owning e u \<and> wall s < e \<longrightarrow>
        (\<exists>r \<in> set (accts s). username r = u \<and> \<not> available r \<and> expires_at r = e))"
proof -
  obtain B S where inv: "sock_tasks.sound s" "table_inv slots B S (accts s)" "names_inv B S s" "held_inv s" "owner_inv s"
    using sock_inv_reachable [OF assms] unfolding sock_inv_def by blast
  have "at s k \<noteq> Sharing e' u" if "at s j = Owning e u" for j k e e' u
    using owner_not_shared [OF inv(3,2) that] by blast
  then show ?thesis
    using inside_alone [OF inv(1)] inv(5) inv(4) [unfolded held_inv_def held_def] unfolding owner_inv_def by blast
qed

text \<open>Two accounts, the first of them a shared slot: task 0 leases the second one exclusively, task 1 gets the first.\<close>

definition two_accts :: "socks5_config list" where
  "two_accts = [demo_sock 1 ''a'' True 0, demo_sock 2 ''b'' True 0]"

definition sock_end :: sock_race where
  "sock_end = \<lparr>accts = touch_lease 90 8 ''a'' (take_exclusive 100 7 ''b'' ''pb'' two_accts), wall = 10, guard_of = None,
     at = (\<lambda>k. Fresh)(0 := Owning 100 ''b'', 1 := Sharing 90 ''a'')\<rparr>"

lemma two_accts:
  "first_accts 1 two_accts" "next_exclusive 1 two_accts = Some (demo_sock 2 ''b'' True 0)"
  "demo_sock 1 ''a'' True 0 \<in> set (priority_rows 1 (take_exclusive 100 7 ''b'' ''pb'' two_accts))"
  by (simp_all add: first_accts_def settled_def two_accts_def demo_sock_def next_exclusive_def sql_offset_def available_rows_def
      priority_rows_def sql_limit_def take_exclusive_def)

lemma sock_end_reachable: "sock_reachable 1 sock_end"
proof -
  let ?s = "\<lambda>rs h p. \<lparr>accts = rs, wall = 10, guard_of = h, at = p\<rparr>" and ?b = "demo_sock 2 ''b'' True 0"
  let ?taken = "take_exclusive 100 7 ''b'' ''pb'' two_accts" and ?me = "Some (0 :: nat)"
  let ?p = "\<lambda>x. (\<lambda>k. Fresh)(0 := x)" and ?q = "\<lambda>x. (\<lambda>k. Fresh)(0 := Owning 100 ''b'', 1 := x)"
  have b: "username ?b = ''b''" "password ?b = ''pb''" "username (demo_sock 1 ''a'' True 0) = ''a''" by (simp_all add: demo_sock_def)
  have "sock_reachable 1 (?s two_accts None (\<lambda>k. Fresh))" by (rule at_first [OF two_accts(1)]) simp
  moreover have "sock_step 1 (?s two_accts None (\<lambda>k. Fresh)) (?s two_accts None (?p (Queueing 100)))"
    using ask_exclusive [of "?s two_accts None (\<lambda>k. Fresh)" 0] by simp
  moreover have "sock_step 1 (?s two_accts None (?p (Queueing 100))) (?s two_accts ?me (?p (Seeking 100 False)))"
    using enter [of "?s two_accts None (?p (Queueing 100))" 0] by simp
  moreover have "sock_step 1 (?s two_accts ?me (?p (Seeking 100 False))) (?s two_accts ?me (?p (Marking 100 ?b)))"
    using found [of "?s two_accts ?me (?p (Seeking 100 False))" 0 100 False 1 ?b] two_accts(2) by simp
  moreover have "sock_step 1 (?s two_accts ?me (?p (Marking 100 ?b))) (?s ?taken None (?p (Owning 100 ''b'')))"
    using mark [of "?s two_accts ?me (?p (Marking 100 ?b))" 0 100 ?b 1 7] by (simp add: b)
  moreover have "sock_step 1 (?s ?taken None (?p (Owning 100 ''b''))) (?s ?taken None (?q (Picked 90 ''a'')))"
    using ask_shared [of "?s ?taken None (?p (Owning 100 ''b''))" 1 _ 1 90] two_accts(3) by (fastforce simp: b)
  moreover have "sock_step 1 (?s ?taken None (?q (Picked 90 ''a''))) sock_end"
    using touch [of "?s ?taken None (?q (Picked 90 ''a''))" 1 90 "''a''" 1 8] by (simp add: sock_end_def)
  ultimately show ?thesis by (meson and_then_step)
qed

theorem exclusive_accounts_never_shared_witness:
  "\<exists>r \<in> set (accts sock_end). username r = ''b'' \<and> \<not> available r \<and> expires_at r = 100"
proof -
  have "at sock_end 0 = Owning 100 ''b''" "wall sock_end < 100" by (simp_all add: sock_end_def)
  then show ?thesis using exclusive_accounts_never_shared [OF sock_end_reachable] by simp
qed

text \<open>
  An exclusive lease whose expiry time is not positive (the 64-bit product of \<open>lease_manager.rs\<close> can wrap around) is
  over before it starts, and its account is lost: nothing ever makes it available again.
\<close>

lemma held_release: "held v x rows \<Longrightarrow> x \<le> 0 \<Longrightarrow> held v x (release_expired n rows)"
  unfolding held_def release_expired_def by force

lemma lost_step:
  assumes "sock_step slots s t" and "sock_inv slots B S s" and "held u e (accts s)" and "e \<le> 0"
  shows "held u e (accts t)"
proof -
  have inv: "table_inv slots B S (accts s)" "names_inv B S s" "mark_inv slots s" using assms(2) by (simp_all add: sock_inv_def)
  from assms(3) obtain x where x: "x \<in> set (accts s)" "username x = u" "\<not> available x" "expires_at x = e" unfolding held_def by blast
  show ?thesis using assms(1)
  proof cases
    case (mark k e' c n)
    then obtain r where "r \<in> set (accts s)" "username r = username c" "available r"
      using inv(3) unfolding mark_inv_def takeable_def by metis
    then have "u \<noteq> username c" using table_name [OF inv(1)] x by metis
    then show ?thesis using held_other(2) [OF assms(3)] by (simp add: mark)
  next
    case (touch k e' v n)
    then obtain i p where "(i, v, p) \<in> set B" "i \<in> S" using inv(2) unfolding names_inv_def by metis
    then have "u \<noteq> v" using shared_available(1) [OF inv(1) _ _ x(1)] x by blast
    then show ?thesis using held_other(1) [OF assms(3)] by (simp add: touch)
  next
    case (extend k v e' c new)
    then obtain r where "r \<in> set (accts s)" "extend_hits v e' c r" by blast
    then have "u \<noteq> v" using table_name [OF inv(1) x(1)] x assms(4) extend(3) by (force simp: extend_hits_def)
    then show ?thesis using held_other(3) [OF assms(3)] by (simp add: extend)
  qed (use assms held_release in simp_all)
qed

theorem account_lost_by_overflow:
  assumes "sock_reachable slots s" and "0 \<le> slots" and "held u e (accts s)" and "e \<le> 0" and "(sock_step slots)\<^sup>*\<^sup>* s t"
  shows "held u e (accts t)"
proof -
  obtain B S where inv: "sock_inv slots B S s" using sock_inv_reachable [OF assms(1,2)] by blast
  from assms(5) have "sock_inv slots B S t \<and> held u e (accts t)"
    by (induction rule: rtranclp_induct) (use inv assms(2,3,4) sock_inv_step lost_step in blast)+
  then show ?thesis ..
qed

end
