(* ===== verification/Cache.thy ===== *)
theory Cache
  imports Peer_Manager
begin

text \<open>
  The TTL cache of \<open>src/src/service/cache.rs\<close> and the state of the whole application:
  \<open>app_st\<close> adds to the WireGuard state the cache, the monotonic clock it reads (\<open>Instant\<close>, in
  nanoseconds) and the answers of the name service, which \<open>src/src/net/dns.rs\<close> asks. The
  contract a cache owes its clients is the locale \<open>ttl_cache\<close>.
\<close>

record cache_entry =
  ce_value :: json
  ce_expires_at :: "int option"

datatype ip_addr = IpV4 ipv4 | IpV6 "u8 list"

record app_st = wg_st +
  cache :: "string \<rightharpoonup> cache_entry"
  instant :: "nat \<Rightarrow> int"
  instant_pos :: nat
  lookup_host :: "nat \<Rightarrow> string \<Rightarrow> string + ip_addr list"
  lookup_pos :: nat

type_synonym ('z, 'a) app_op = "('z app_st_scheme, app_error, 'a) rm"

definition instant_now :: "('z, int) app_op" where
  "instant_now s = (Inr (instant s (instant_pos s)), s\<lparr>instant_pos := Suc (instant_pos s)\<rparr>)"

lemma run_instant_now [run_simps, inv_simps]:
  "instant_now s = (Inr (instant s (instant_pos s)), s\<lparr>instant_pos := Suc (instant_pos s)\<rparr>)"
  by (simp add: instant_now_def)

subsection \<open>Operations\<close>

definition cache_remove :: "string \<Rightarrow> ('z, unit) app_op" where
  "cache_remove key = modify (\<lambda>s. s\<lparr>cache := (cache s)(key := None)\<rparr>)"

definition cache_get :: "string \<Rightarrow> ('z, json option) app_op" where
  "cache_get key =
     and_then (gets (\<lambda>s. cache s key)) (\<lambda>found.
     case found of
       None \<Rightarrow> ok None
     | Some entry \<Rightarrow>
         (case ce_expires_at entry of
            None \<Rightarrow> ok (Some (ce_value entry))
          | Some expires \<Rightarrow>
              and_then instant_now (\<lambda>now.
              if now > expires then and_then (cache_remove key) (\<lambda>_. ok None)
              else ok (Some (ce_value entry)))))"

definition cache_get_string :: "string \<Rightarrow> ('z, string option) app_op" where
  "cache_get_string key =
     and_then (cache_get key) (\<lambda>v.
     ok (case v of None \<Rightarrow> None | Some j \<Rightarrow> as_str j))"

definition cache_set :: "string \<Rightarrow> json \<Rightarrow> int option \<Rightarrow> ('z, unit) app_op" where
  "cache_set key v ttl =
     and_then (case ttl of
         None \<Rightarrow> ok None
       | Some d \<Rightarrow> and_then instant_now (\<lambda>now. ok (Some (now + d)))) (\<lambda>expires.
     modify (\<lambda>s. s\<lparr>cache := (cache s)(key \<mapsto> \<lparr>ce_value = v, ce_expires_at = expires\<rparr>)\<rparr>))"

definition cache_set_string :: "string \<Rightarrow> string \<Rightarrow> int option \<Rightarrow> ('z, unit) app_op" where
  "cache_set_string key v ttl = cache_set key (JStr v) ttl"

definition cache_contains :: "string \<Rightarrow> ('z, bool) app_op" where
  "cache_contains key = and_then (cache_get key) (\<lambda>v. ok (v \<noteq> None))"

definition unexpired :: "int \<Rightarrow> cache_entry \<Rightarrow> bool" where
  "unexpired now entry = (case ce_expires_at entry of None \<Rightarrow> True | Some x \<Rightarrow> now \<le> x)"

definition evict_expired :: "('z, unit) app_op" where
  "evict_expired =
     and_then instant_now (\<lambda>now.
     modify (\<lambda>s. s\<lparr>cache := (\<lambda>k. case cache s k of
         None \<Rightarrow> None
       | Some entry \<Rightarrow> if unexpired now entry then Some entry else None)\<rparr>))"

subsection \<open>The contract of a cache\<close>

text \<open>
  \<open>entry s\<close> is what is stored, with the time each value expires at, \<open>now s\<close> the time the
  next operation reads.
\<close>

locale ttl_cache =
  fixes entry :: "'s \<Rightarrow> string \<rightharpoonup> json \<times> int option"
    and now :: "'s \<Rightarrow> int"
    and lookup :: "string \<Rightarrow> ('s, app_error, json option) rm"
    and store :: "string \<Rightarrow> json \<Rightarrow> int option \<Rightarrow> ('s, app_error, unit) rm"
  assumes lookup_absent: "entry s k = None \<Longrightarrow> lookup k s = (Inr None, s)"
    and lookup_present:
      "entry s k = Some (v, x) \<Longrightarrow> (\<And>e. x = Some e \<Longrightarrow> now s \<le> e) \<Longrightarrow>
       \<exists>t. lookup k s = (Inr (Some v), t) \<and> entry t = entry s"
    and lookup_expired:
      "entry s k = Some (v, Some e) \<Longrightarrow> e < now s \<Longrightarrow>
       \<exists>t. lookup k s = (Inr None, t) \<and> entry t = (entry s)(k := None)"
    and store_entry:
      "\<exists>t. store k v ttl s = (Inr (), t) \<and>
           entry t = (entry s)(k \<mapsto> (v, map_option (\<lambda>d. now s + d) ttl))"
begin

text \<open>A value can be read back until its time to live is over, and not after.\<close>

lemma lookup_after_store:
  assumes "store k v ttl s = (Inr (), t)" and "entry u = entry t"
  shows "\<exists>w. lookup k u =
    (Inr (if (\<forall>d. ttl = Some d \<longrightarrow> now u \<le> now s + d) then Some v else None), w)"
proof -
  have e: "entry u k = Some (v, map_option (\<lambda>d. now s + d) ttl)"
    using store_entry [of k v ttl s] assms by auto
  show ?thesis
  proof (cases "\<forall>d. ttl = Some d \<longrightarrow> now u \<le> now s + d")
    case True
    then have "\<And>x. map_option (\<lambda>d. now s + d) ttl = Some x \<Longrightarrow> now u \<le> x" by (cases ttl) auto
    with lookup_present [OF e] True show ?thesis by auto
  next
    case False
    then obtain d where "ttl = Some d" "now s + d < now u" by auto
    with e lookup_expired [of u k v "now s + d"] show ?thesis by auto
  qed
qed

lemma store_other: "k' \<noteq> k \<Longrightarrow> entry (snd (store k v ttl s)) k' = entry s k'"
  using store_entry [of k v ttl s] by auto

text \<open>Looking a key up never changes another key, and removes at most an expired entry.\<close>

lemma lookup_frame: "k' \<noteq> k \<Longrightarrow> entry (snd (lookup k s)) k' = entry s k'"
proof (cases "entry s k")
  case None
  then show ?thesis using lookup_absent [of s k] by simp
next
  case (Some p)
  assume ne: "k' \<noteq> k"
  obtain v x where p: "p = (v, x)" by (cases p)
  show ?thesis
  proof (cases "\<exists>e. x = Some e \<and> e < now s")
    case True
    then obtain e where "x = Some e" "e < now s" by blast
    with Some p ne lookup_expired [of s k v e] show ?thesis by auto
  next
    case False
    with Some p lookup_present [of s k v x] show ?thesis by force
  qed
qed

end

definition cache_view :: "'z app_st_scheme \<Rightarrow> string \<rightharpoonup> json \<times> int option" where
  "cache_view s = (\<lambda>k. map_option (\<lambda>e. (ce_value e, ce_expires_at e)) (cache s k))"

lemma cache_view_upd [simp]:
  "cache_view (s\<lparr>cache := (cache s)(k := e)\<rparr>) = (cache_view s)(k := map_option (\<lambda>e. (ce_value e, ce_expires_at e)) e)"
  by (simp add: cache_view_def fun_eq_iff)

lemma cache_view_instant [simp]: "cache_view (s\<lparr>instant_pos := n\<rparr>) = cache_view s"
  by (simp add: cache_view_def)

lemma cache_get_run:
  "cache_get k s =
     (case cache s k of
        None \<Rightarrow> (Inr None, s)
      | Some e \<Rightarrow>
          (case ce_expires_at e of
             None \<Rightarrow> (Inr (Some (ce_value e)), s)
           | Some x \<Rightarrow>
               let t = s\<lparr>instant_pos := Suc (instant_pos s)\<rparr> in
               if instant s (instant_pos s) > x then (Inr None, t\<lparr>cache := (cache t)(k := None)\<rparr>)
               else (Inr (Some (ce_value e)), t)))"
  by (simp add: cache_get_def cache_remove_def seq_simps run_simps Let_def split: option.split)

interpretation app_cache: ttl_cache cache_view "\<lambda>s. instant s (instant_pos s)" cache_get cache_set
proof
  fix s :: "'z app_st_scheme" and k v x e ttl
  show "cache_get k s = (Inr None, s)" if "cache_view s k = None"
    using that by (simp add: cache_get_run cache_view_def)
  show "\<exists>t. cache_get k s = (Inr (Some v), t) \<and> cache_view t = cache_view s"
    if "cache_view s k = Some (v, x)" "\<And>e. x = Some e \<Longrightarrow> instant s (instant_pos s) \<le> e"
    using that by (fastforce simp: cache_get_run cache_view_def Let_def split: option.split)
  show "\<exists>t. cache_get k s = (Inr None, t) \<and> cache_view t = (cache_view s)(k := None)"
    if "cache_view s k = Some (v, Some e)" "e < instant s (instant_pos s)"
    using that by (auto simp: cache_get_run cache_view_def Let_def fun_eq_iff)
  show "\<exists>t. cache_set k v ttl s = (Inr (), t) \<and>
      cache_view t = (cache_view s)(k \<mapsto> (v, map_option (\<lambda>d. instant s (instant_pos s) + d) ttl))"
    by (cases ttl) (simp_all add: cache_set_def seq_simps run_simps cache_view_def fun_eq_iff)
qed

end
