(* ===== verification/Net_Ip.thy ===== *)
theory Net_Ip
  imports State
begin

text \<open>
  Address checks of \<open>src/src/net/ip.rs\<close>. They work on the text of addresses: a subnet is
  reduced to a textual prefix of whole octets.
\<close>

definition sanitize_ipv4 :: "string \<Rightarrow> string" where
  "sanitize_ipv4 ip =
     (let trimmed = trim ip;
          stripped = (case strip_prefix ''::ffff:'' trimmed of None \<Rightarrow> trimmed | Some r \<Rightarrow> r)
      in if stripped = ''::1'' then ''127.0.0.1'' else stripped)"

definition subnet_prefix :: "string \<Rightarrow> string" where
  "subnet_prefix cidr =
     (let parts = split_char (CHR ''/'') cidr;
          ip = (case parts of [] \<Rightarrow> [] | p # _ \<Rightarrow> p);
          mask_bits = (case parts of
              _ # m # _ \<Rightarrow> (case parse_u32 m of None \<Rightarrow> 16 | Some n \<Rightarrow> n)
            | _ \<Rightarrow> 16);
          prefix = take (mask_bits div 8) (split_char (CHR ''.'') ip)
      in if prefix = [] then [] else join_str ''.'' prefix @ ''.'')"

definition is_local_ip :: "string \<Rightarrow> string \<Rightarrow> string \<Rightarrow> bool" where
  "is_local_ip ip internal_subnet external_subnet =
     (let sanitized = sanitize_ipv4 ip in
      if sanitized = ''127.0.0.1'' \<or> sanitized = ''localhost'' \<or> sanitized = ''::1'' then True
      else starts_with (subnet_prefix internal_subnet) sanitized \<or>
           starts_with (subnet_prefix external_subnet) sanitized)"

text \<open>\<open>IpAddr::from_str\<close> tries the IPv4 syntax first.\<close>

definition is_valid_ipv4 :: "string \<Rightarrow> bool" where
  "is_valid_ipv4 ip = (parse_ipv4 ip \<noteq> None)"

subsection \<open>Addresses in dotted form\<close>

lemma show_ipv4_graphic: "\<forall>c \<in> set (show_ipv4 a). graphic c"
  using show_ipv4_chars is_digit_graphic by (fastforce simp: graphic_def)

lemma show_ipv4_hd: "\<exists>c cs. show_ipv4 a = c # cs \<and> is_digit c"
proof -
  obtain w x y z where a: "a = Ipv4 w x y z" by (cases a)
  obtain c cs where "show_nat (unat w) = c # cs" by (cases "show_nat (unat w)") simp_all
  moreover have "c \<in> set (show_nat (unat w))" using calculation by simp
  ultimately show ?thesis
    using show_nat_digits [of c "unat w"] by (auto simp: a show_ipv4_def)
qed

lemma sanitize_show_ipv4 [simp]: "sanitize_ipv4 (show_ipv4 a) = show_ipv4 a"
proof -
  obtain c cs where c: "show_ipv4 a = c # cs" "is_digit c" using show_ipv4_hd by blast
  have "trim (show_ipv4 a) = show_ipv4 a" by (rule trim_all_graphic [OF show_ipv4_graphic])
  with c show ?thesis by (auto simp: sanitize_ipv4_def Let_def is_digit_def)
qed

lemma is_valid_show_ipv4 [simp]: "is_valid_ipv4 (show_ipv4 a)"
  by (simp add: is_valid_ipv4_def)

definition octets :: "ipv4 \<Rightarrow> u8 list" where
  "octets a = [oct0 a, oct1 a, oct2 a, oct3 a]"

lemma show_ipv4_octets: "show_ipv4 a = join_str ''.'' (map (\<lambda>b. show_nat (unat b)) (octets a))"
  by (cases a) (simp add: show_ipv4_def octets_def)

lemma join_str_append:
  "xs \<noteq> [] \<Longrightarrow> zs \<noteq> [] \<Longrightarrow> join_str sep (xs @ zs) = join_str sep xs @ sep @ join_str sep zs"
  by (induction sep xs rule: join_str.induct) (auto simp: neq_Nil_conv)

lemma join_prefix_inject:
  assumes "\<forall>x \<in> set xs. c \<notin> set x" and "\<forall>y \<in> set ys. c \<notin> set y" and "xs \<noteq> []" and "length xs < length ys"
  shows "starts_with (join_str [c] xs @ [c]) (join_str [c] ys) \<longleftrightarrow> take (length xs) ys = xs"
proof
  assume "take (length xs) ys = xs"
  then have ys: "ys = xs @ drop (length xs) ys" by (metis append_take_drop_id)
  have "drop (length xs) ys \<noteq> []" using assms(4) by simp
  then have "join_str [c] (xs @ drop (length xs) ys) = join_str [c] xs @ [c] @ join_str [c] (drop (length xs) ys)"
    using assms(3) by (intro join_str_append)
  then show "starts_with (join_str [c] xs @ [c]) (join_str [c] ys)"
    using ys by (metis append.assoc starts_with_append)
next
  assume "starts_with (join_str [c] xs @ [c]) (join_str [c] ys)"
  then obtain t where t: "join_str [c] ys = join_str [c] xs @ c # t"
    by (auto simp: starts_with_iff)
  have "split_char c (join_str [c] xs @ c # t) = xs @ split_char c t"
    using assms(1,3)
  proof (induction "[c]" xs rule: join_str.induct)
    case (2 x)
    then show ?case using split_char_append_sep [of c x t] by simp
  next
    case (3 x y zs)
    then show ?case using split_char_append_sep [of c x "join_str [c] (y # zs) @ c # t"] by simp
  qed simp
  moreover have "split_char c (join_str [c] ys) = ys"
    using assms(2,4) by (intro split_join) auto
  ultimately have "ys = xs @ split_char c t" using t by simp
  then show "take (length xs) ys = xs" by simp
qed

lemma subnet_prefix_cidr:
  assumes "b < 2 ^ 32"
  shows "subnet_prefix (show_ipv4 n @ CHR ''/'' # show_nat b) =
    (if b < 8 then []
     else join_str ''.'' (take (b div 8) (map (\<lambda>o'. show_nat (unat o')) (octets n))) @ ''.'')"
proof -
  have "CHR ''/'' \<notin> set (show_ipv4 n)" "CHR ''/'' \<notin> set (show_nat b)"
    using show_ipv4_chars [of "CHR ''/''" n] show_nat_digits [of "CHR ''/''" b] by (auto simp: is_digit_def)
  then have "split_char (CHR ''/'') (show_ipv4 n @ ''/'' @ show_nat b) = [show_ipv4 n, show_nat b]"
    by (simp add: split_char_append_sep split_char_no_sep)
  moreover have "split_char (CHR ''.'') (show_ipv4 n) = map (\<lambda>o'. show_nat (unat o')) (octets n)"
    unfolding show_ipv4_octets by (intro split_join) (auto simp: octets_def show_nat_no_dot)
  moreover have "take (b div 8) (map (\<lambda>o'. show_nat (unat o')) (octets n)) = [] \<longleftrightarrow> b < 8"
    by (auto simp: octets_def)
  moreover have "octets n \<noteq> []" by (simp add: octets_def)
  ultimately show ?thesis
    using assms by (auto simp: subnet_prefix_def Let_def parse_u32_show_nat octets_def)
qed

lemma starts_with_subnet:
  assumes "1 \<le> k" and "k \<le> 3"
  shows "starts_with (subnet_prefix (show_ipv4 n @ ''/'' @ show_nat (8 * k))) (show_ipv4 a) \<longleftrightarrow>
    take k (octets a) = take k (octets n)"
proof -
  let ?f = "map (\<lambda>o'. show_nat (unat (o' :: u8)))"
  have "subnet_prefix (show_ipv4 n @ ''/'' @ show_nat (8 * k)) = join_str ''.'' (take k (?f (octets n))) @ ''.''"
    using assms by (simp add: subnet_prefix_cidr)
  moreover have "starts_with (join_str ''.'' (take k (?f (octets n))) @ ''.'') (join_str ''.'' (?f (octets a))) \<longleftrightarrow>
      take (length (take k (?f (octets n)))) (?f (octets a)) = take k (?f (octets n))"
    using assms by (intro join_prefix_inject) (auto simp: octets_def show_nat_no_dot dest!: in_set_takeD)
  moreover have "length (take k (?f (octets n))) = k" using assms by (simp add: octets_def)
  moreover have "?f xs = ?f ys \<longleftrightarrow> xs = ys" for xs ys
    by (rule inj_map_eq_map) (auto intro!: injI unsigned_word_eqI)
  ultimately show ?thesis
    by (simp add: show_ipv4_octets take_map)
qed

lemma show_ipv4_loopback: "show_ipv4 a = ''127.0.0.1'' \<longleftrightarrow> a = Ipv4 127 0 0 1"
proof -
  have "''127.0.0.1'' = show_ipv4 (Ipv4 127 0 0 1)" by code_simp
  then show ?thesis by simp
qed

lemma show_ipv4_not_word: "show_ipv4 a \<noteq> ''localhost''" "show_ipv4 a \<noteq> ''::1''"
  using show_ipv4_hd [of a] by (auto simp: is_digit_def)

subsection \<open>Properties\<close>

text \<open>C40: For subnets given with a prefix length of 8, 16 or 24 bits, \<open>is_local_ip\<close> is what its name
  says: it accepts the loopback address and the addresses whose leading octets are those of
  one of the two subnets, and no other.\<close>

theorem is_local_ip_octets:
  assumes "1 \<le> k" and "k \<le> 3" and "1 \<le> j" and "j \<le> 3"
  shows "is_local_ip (show_ipv4 a) (show_ipv4 n @ ''/'' @ show_nat (8 * k)) (show_ipv4 m @ ''/'' @ show_nat (8 * j)) \<longleftrightarrow>
    a = Ipv4 127 0 0 1 \<or> take k (octets a) = take k (octets n) \<or> take j (octets a) = take j (octets m)"
  using starts_with_subnet [OF assms(1,2), of n a] starts_with_subnet [OF assms(3,4), of m a]
  by (simp add: is_local_ip_def Let_def show_ipv4_loopback show_ipv4_not_word)

theorem is_local_ip_octets_witness:
  "is_local_ip (show_ipv4 (Ipv4 172 20 9 1)) (show_ipv4 (Ipv4 172 20 0 0) @ ''/'' @ show_nat (8 * 2))
     (show_ipv4 (Ipv4 172 21 0 0) @ ''/'' @ show_nat (8 * 2)) \<and>
   \<not> is_local_ip (show_ipv4 (Ipv4 172 22 9 1)) (show_ipv4 (Ipv4 172 20 0 0) @ ''/'' @ show_nat (8 * 2))
     (show_ipv4 (Ipv4 172 21 0 0) @ ''/'' @ show_nat (8 * 2))"
  by (simp only: is_local_ip_octets [of 2 2]) (simp add: octets_def)

text \<open>A prefix length below eight bits opens the worker to everybody: the subnet's textual prefix is
  then empty, and \<open>is_local_ip\<close> accepts every address.\<close>

theorem short_mask_accepts_all:
  assumes "b < 8"
  shows "is_local_ip ip (show_ipv4 n @ ''/'' @ show_nat b) external_subnet"
  using assms by (simp add: is_local_ip_def Let_def subnet_prefix_cidr starts_with_def)

theorem short_mask_accepts_all_witness:
  "is_local_ip ''203.0.113.9'' (show_ipv4 (Ipv4 172 0 0 0) @ ''/'' @ show_nat 7) ''172.21.0.0/16''"
  by (rule short_mask_accepts_all) simp

end
