(* ===== verification/Net_Dns.thy ===== *)
theory Net_Dns
  imports Cache Net_Ip "HOL-Library.List_Lexorder" "HOL-Library.Char_ord"
begin

text \<open>
  Name resolution with a cache, from \<open>src/src/net/dns.rs\<close>. The name service itself is a
  parameter in the state: \<open>lookup_host s n\<close> is its answer to the \<open>n\<close>-th question.
  Rust orders strings by their bytes, which is the lexicographic order on characters here.
\<close>

definition DNS_CACHE_TTL :: int where "DNS_CACHE_TTL = 15 * 60 * 1000000000"

fun show_ip :: "ip_addr \<Rightarrow> string" where
  "show_ip (IpV4 a) = show_ipv4 a"
| "show_ip (IpV6 bs) = show_ipv6 bs"

fun is_ipv4 :: "ip_addr \<Rightarrow> bool" where
  "is_ipv4 (IpV4 a) = True"
| "is_ipv4 (IpV6 bs) = False"

definition first_part :: "char \<Rightarrow> string \<Rightarrow> string" where
  "first_part c s = (case split_char c s of [] \<Rightarrow> s | p # _ \<Rightarrow> p)"

definition extract_hostname :: "string \<Rightarrow> string" where
  "extract_hostname input =
     (case (if contains_str ''://'' input then split_str_nth1 ''://'' input else None) of
        Some after_scheme \<Rightarrow> first_part (CHR '':'') (first_part (CHR ''/'') after_scheme)
      | None \<Rightarrow> first_part (CHR '':'') input)"

text \<open>\<open>tokio::net::lookup_host\<close>, with its error as the operation reports it.\<close>

definition ask_dns :: "string \<Rightarrow> ('z, ip_addr list) app_op" where
  "ask_dns domain =
     and_then (gets (\<lambda>s. lookup_host s (lookup_pos s) (domain @ '':0''))) (\<lambda>answer.
     and_then (modify (\<lambda>s. s\<lparr>lookup_pos := Suc (lookup_pos s)\<rparr>)) (\<lambda>_.
     case answer of
       Inl e \<Rightarrow> err (Internal (''DNS resolution failed for '' @ domain @ '': '' @ e))
     | Inr ips \<Rightarrow> ok ips))"

definition no_address :: "string \<Rightarrow> app_error" where
  "no_address domain = Internal (''No IPv4 address found for '' @ domain)"

definition resolve_domain_to_ip :: "string \<Rightarrow> ('z, string) app_op" where
  "resolve_domain_to_ip url =
     (let domain = extract_hostname url; cache_key = ''resolved_domain_'' @ domain in
      if is_valid_ipv4 domain then ok (sanitize_ipv4 domain)
      else
        and_then (cache_get_string cache_key) (\<lambda>cached.
        case cached of
          Some v \<Rightarrow> ok v
        | None \<Rightarrow>
            and_then (ask_dns domain) (\<lambda>ips.
            and_then (ok_or (no_address domain) (map_option show_ip (find is_ipv4 ips))) (\<lambda>resolved.
            let sanitized = sanitize_ipv4 resolved in
            and_then (cache_set_string cache_key sanitized (Some DNS_CACHE_TTL)) (\<lambda>_.
            ok sanitized)))))"

definition cached_ips :: "string \<Rightarrow> string list" where
  "cached_ips cached =
     map sanitize_ipv4 (filter (\<lambda>s. s \<noteq> []) (map trim (split_char (CHR '','') cached)))"

text \<open>\<open>sort\<close> and \<open>dedup\<close>, which drops repetitions next to each other.\<close>

definition sorted_ips :: "ip_addr list \<Rightarrow> string list" where
  "sorted_ips ips = remdups_adj (sort (map (\<lambda>ip. sanitize_ipv4 (show_ip ip)) (filter is_ipv4 ips)))"

definition resolve_ipv4s_fresh :: "string \<Rightarrow> string \<Rightarrow> ('z, string list) app_op" where
  "resolve_ipv4s_fresh cache_key domain =
     and_then (ask_dns domain) (\<lambda>ips.
     let resolved = sorted_ips ips in
     if resolved = [] then err (no_address domain)
     else
       and_then (cache_set_string cache_key (join_str '','' resolved) (Some DNS_CACHE_TTL)) (\<lambda>_.
       ok resolved))"

definition resolve_domain_to_ipv4s :: "string \<Rightarrow> ('z, string list) app_op" where
  "resolve_domain_to_ipv4s url =
     (let domain = extract_hostname url; cache_key = ''resolved_domain_ipv4s_'' @ domain in
      if is_valid_ipv4 domain then ok [sanitize_ipv4 domain]
      else
        and_then (cache_get_string cache_key) (\<lambda>cached.
        let values = (case cached of None \<Rightarrow> [] | Some c \<Rightarrow> cached_ips c) in
        if values \<noteq> [] then ok values
        else resolve_ipv4s_fresh cache_key domain))"

subsection \<open>Resolved lists survive the cache\<close>

lemma distinct_remdups_adj_sorted: "sorted xs \<Longrightarrow> distinct (remdups_adj (xs :: 'a :: linorder list))"
  by (induction xs rule: remdups_adj.induct) (auto simp: order_le_less)

lemma sorted_ips_spec:
  "sorted (sorted_ips ips) \<and> distinct (sorted_ips ips) \<and>
   set (sorted_ips ips) = {show_ipv4 a | a. IpV4 a \<in> set ips}"
proof -
  have "set (sorted_ips ips) = (\<lambda>ip. sanitize_ipv4 (show_ip ip)) ` {ip \<in> set ips. is_ipv4 ip}"
    by (simp add: sorted_ips_def)
  also have "\<dots> = {show_ipv4 a | a. IpV4 a \<in> set ips}"
  proof -
    have "is_ipv4 ip \<longleftrightarrow> (\<exists>a. ip = IpV4 a)" for ip by (cases ip) simp_all
    then show ?thesis by (auto simp: image_iff) (metis is_ipv4.simps(1) sanitize_show_ipv4 show_ip.simps(1))
  qed
  finally show ?thesis
    by (auto simp: sorted_ips_def intro: sorted_remdups_adj distinct_remdups_adj_sorted)
qed

lemma show_ipv4_no_comma: "CHR '','' \<notin> set (show_ipv4 a)"
  using show_ipv4_chars [of "CHR '',''" a] by (auto simp: is_digit_def)

lemma cached_ips_join:
  assumes "xs \<noteq> []" and "\<forall>x \<in> set xs. \<exists>a. x = show_ipv4 a"
  shows "cached_ips (join_str '','' xs) = xs"
proof -
  have "split_char (CHR '','') (join_str '','' xs) = xs"
    using assms show_ipv4_no_comma by (intro split_join) auto
  moreover have "map trim xs = xs"
    using assms(2) trim_all_graphic [OF show_ipv4_graphic] by (intro map_idI) auto
  moreover have "filter (\<lambda>s. s \<noteq> []) xs = xs"
    using assms(2) by (intro filter_True ballI) (metis show_ipv4_neq_Nil)
  moreover have "map sanitize_ipv4 xs = xs"
    using assms(2) by (intro map_idI) auto
  ultimately show ?thesis by (simp add: cached_ips_def)
qed

subsection \<open>Host names in URLs\<close>

lemma first_part_stop:
  assumes "c \<notin> set s" and "t = [] \<or> hd t = c"
  shows "first_part c (s @ t) = s"
  using assms split_char_append_sep [of c s "tl t"]
  by (cases t) (simp_all add: first_part_def split_char_no_sep)

lemma after_str_scheme: "CHR '':'' \<notin> set s \<Longrightarrow> after_str ''://'' (s @ ''://'' @ t) = Some t"
  by (induction s) (auto simp: strip_prefix_Some split: option.split)

lemma before_str_host: "CHR '':'' \<notin> set s \<Longrightarrow> before_str ''://'' (s @ t) = s @ before_str ''://'' t"
  by (induction s) (auto simp: starts_with_iff)

lemma before_str_hd: "before_str p t = [] \<or> hd (before_str p t) = hd t"
  by (cases t) auto

lemma contains_str_append: "contains_str p (s @ p @ t)"
proof (induction s)
  case Nil
  then show ?case by (cases p; cases "p @ t") (auto simp: starts_with_iff)
qed simp

lemma extract_hostname_url:
  assumes "CHR '':'' \<notin> set scheme" and "CHR '':'' \<notin> set host" "CHR ''/'' \<notin> set host"
    and "rest = [] \<or> hd rest = CHR '':'' \<or> hd rest = CHR ''/''"
  shows "extract_hostname (scheme @ ''://'' @ host @ rest) = host"
proof -
  define w where "w = before_str ''://'' rest"
  have w: "w = [] \<or> hd w = CHR '':'' \<or> hd w = CHR ''/''"
    using assms(4) before_str_hd [of "''://''" rest] by (auto simp: w_def)
  have "split_str_nth1 ''://'' (scheme @ ''://'' @ host @ rest) = Some (host @ w)"
    using after_str_scheme [OF assms(1), of "host @ rest"] before_str_host [OF assms(2), of rest]
    by (simp add: split_str_nth1_def w_def)
  moreover have "first_part (CHR '':'') (first_part (CHR ''/'') (host @ w)) = host"
  proof (cases "w \<noteq> [] \<and> hd w = CHR '':''")
    case False
    with w have "first_part (CHR ''/'') (host @ w) = host"
      using first_part_stop [OF assms(3)] by auto
    then show ?thesis using first_part_stop [OF assms(2), of "[]"] by simp
  next
    case True
    then obtain v where v: "w = CHR '':'' # v" by (cases w) auto
    have split: "split_char c (a @ d # b) = (a @ d # hd (split_char c b)) # tl (split_char c b)"
      if "c \<notin> set a" "d \<noteq> c" for a b and c d :: char
      using that by (induction a) (auto split: list.split)
    have "first_part (CHR ''/'') (host @ w) = host @ CHR '':'' # hd (split_char (CHR ''/'') v)"
      using split [OF assms(3), of "CHR '':''" v] by (simp add: first_part_def v)
    then show ?thesis
      using first_part_stop [OF assms(2), of "CHR '':'' # hd (split_char (CHR ''/'') v)"] by simp
  qed
  ultimately show ?thesis
    using contains_str_append [of "''://''" scheme "host @ rest"] by (simp add: extract_hostname_def)
qed

subsection \<open>Properties\<close>

text \<open>C29: Resolving a name the cache does not hold asks the name service once and returns its IPv4
  addresses, all of them, sorted and without repetition; for fifteen minutes after that the
  same list is returned from the cache, however the service would answer now.\<close>

theorem resolve_ipv4s_cached:
  fixes s u :: "'z app_st_scheme"
  assumes "resolve_domain_to_ipv4s url s = (Inr ips, t)"
    and "\<not> is_valid_ipv4 (extract_hostname url)"
    and "cache s (''resolved_domain_ipv4s_'' @ extract_hostname url) = None"
    and "cache u = cache t" and "instant u (instant_pos u) \<le> instant s (instant_pos s) + DNS_CACHE_TTL"
  shows "\<exists>found. lookup_host s (lookup_pos s) (extract_hostname url @ '':0'') = Inr found \<and>
           sorted ips \<and> distinct ips \<and> ips \<noteq> [] \<and> set ips = {show_ipv4 a | a. IpV4 a \<in> set found} \<and>
           (\<exists>v. resolve_domain_to_ipv4s url u = (Inr ips, v) \<and> lookup_pos v = lookup_pos u)"
proof -
  let ?d = "extract_hostname url" and ?key = "''resolved_domain_ipv4s_'' @ extract_hostname url"
  have "cache_get ?key s = (Inr None, s)"
    using assms(3) by (simp add: cache_get_run)
  then have fresh: "resolve_ipv4s_fresh ?key ?d s = (Inr ips, t)"
    using assms(1,2) by (simp add: resolve_domain_to_ipv4s_def cache_get_string_def Let_def run_and_then run_ok)
  let ?s = "s\<lparr>lookup_pos := Suc (lookup_pos s)\<rparr>"
  from fresh obtain found where found: "lookup_host s (lookup_pos s) (?d @ '':0'') = Inr found"
    and ips: "ips = sorted_ips found" "ips \<noteq> []"
    and store: "cache_set ?key (JStr (join_str '','' ips)) (Some DNS_CACHE_TTL) ?s = (Inr (), t)"
    by (auto simp: resolve_ipv4s_fresh_def ask_dns_def cache_set_string_def inv_simps Let_def
        split: sum.splits if_splits)
  note spec = sorted_ips_spec [of found, folded ips(1)]
  have "cache_view u = cache_view t" using assms(4) by (simp add: cache_view_def)
  from app_cache.lookup_after_store [OF store this] obtain v where
    v: "cache_get ?key u = (Inr (Some (JStr (join_str '','' ips))), v)"
    using assms(5) by auto
  have "lookup_pos v = lookup_pos u"
    using v by (auto simp: cache_get_run Let_def split: option.splits if_splits)
  moreover have "cached_ips (join_str '','' ips) = ips"
    using spec ips(2) by (intro cached_ips_join) auto
  then have "resolve_domain_to_ipv4s url u = (Inr ips, v)"
    using v assms(2) ips(2)
    by (simp add: resolve_domain_to_ipv4s_def cache_get_string_def Let_def run_and_then run_ok)
  ultimately show ?thesis using found spec ips(2) by blast
qed

definition demo_app :: app_st where
  "demo_app = wg_st.extend demo_wg
     \<lparr>cache = Map.empty, instant = (\<lambda>n. int n), instant_pos = 0,
      lookup_host = (\<lambda>n name. if name = ''pool.example:0'' then Inr [IpV4 (Ipv4 198 51 100 9), IpV6 (replicate 16 1),
                       IpV4 (Ipv4 192 0 2 1), IpV4 (Ipv4 198 51 100 9)] else Inl ''unknown''),
      lookup_pos = 0\<rparr>"

lemma demo_app_simps [simp]:
  "clock demo_app = (\<lambda>n. 1000 + int n)" "clock_pos demo_app = 0" "db_pos demo_app = 0"
  "db_fault demo_app = (\<lambda>n. None)" "lock_timeout demo_app = (\<lambda>n. False)" "lock_pos demo_app = 0"
  "ext demo_app = demo_ext" "rand_pos demo_app = 0" "rand_bytes demo_app = (\<lambda>n. replicate 32 (word_of_nat n))"
  "rand_below demo_app = (\<lambda>n k. n mod k)" "wg_configs demo_app = []" "wg_servers demo_app = []"
  "peers demo_app = Map.empty" "wg_calls demo_app = []" "wg_fault demo_app = (\<lambda>n. None)"
  "socks_configs demo_app = []" "credentials demo_app = Map.empty" "cache demo_app = Map.empty"
  "instant demo_app = (\<lambda>n. int n)" "instant_pos demo_app = 0" "lookup_pos demo_app = 0"
  "lookup_host demo_app = (\<lambda>n name. if name = ''pool.example:0'' then Inr [IpV4 (Ipv4 198 51 100 9), IpV6 (replicate 16 1),
       IpV4 (Ipv4 192 0 2 1), IpV4 (Ipv4 198 51 100 9)] else Inl ''unknown'')"
  by (simp_all add: demo_app_def demo_wg_def demo_cred_def demo_db_def cred_st.defs db_st.defs wg_st.defs)

text \<open>The repository's own test of \<open>extract_hostname\<close>.\<close>

lemma hostname_tests:
  "extract_hostname ''https://example.com:3000/path'' = ''example.com''"
  "extract_hostname ''http://1.2.3.4:3000'' = ''1.2.3.4''"
  "extract_hostname ''example.com:3000'' = ''example.com''"
  "extract_hostname ''1.2.3.4'' = ''1.2.3.4''"
  by code_simp+

lemma demo_hostname: "extract_hostname ''http://pool.example:3000'' = ''pool.example''"
  using extract_hostname_url [of "''http''" "''pool.example''" "'':3000''"] by simp

theorem resolve_ipv4s_cached_witness:
  "\<exists>ips t v. resolve_domain_to_ipv4s ''http://pool.example:3000'' demo_app = (Inr ips, t) \<and>
     set ips = {''192.0.2.1'', ''198.51.100.9''} \<and>
     resolve_domain_to_ipv4s ''http://pool.example:3000'' (t\<lparr>lookup_host := (\<lambda>n name. Inl ''down'')\<rparr>) = (Inr ips, v)"
proof -
  let ?url = "''http://pool.example:3000''"
  let ?found = "[IpV4 (Ipv4 198 51 100 9), IpV6 (replicate 16 1), IpV4 (Ipv4 192 0 2 1), IpV4 (Ipv4 198 51 100 9)]"
  have nv: "\<not> is_valid_ipv4 (extract_hostname ?url)"
    unfolding demo_hostname by code_simp
  have ne: "sorted_ips ?found \<noteq> []" by (simp add: sorted_ips_def)
  have res: "\<exists>t. resolve_domain_to_ipv4s ?url demo_app = (Inr (sorted_ips ?found), t) \<and> instant_pos t = 1 \<and>
      instant t = instant demo_app"
    using nv ne unfolding demo_hostname resolve_domain_to_ipv4s_def
    by (simp add: cache_get_string_def cache_get_run resolve_ipv4s_fresh_def ask_dns_def cache_set_string_def
        cache_set_def Let_def seq_simps run_simps del: remdups_adj.simps)
  then obtain t where t: "resolve_domain_to_ipv4s ?url demo_app = (Inr (sorted_ips ?found), t)"
    "instant_pos t = 1" "instant t = instant demo_app" by blast
  have "show_ipv4 (Ipv4 192 0 2 1) = ''192.0.2.1''" "show_ipv4 (Ipv4 198 51 100 9) = ''198.51.100.9''"
    by code_simp+
  moreover have "set (sorted_ips ?found) = {show_ipv4 (Ipv4 192 0 2 1), show_ipv4 (Ipv4 198 51 100 9)}"
    using sorted_ips_spec [of ?found] by auto
  ultimately have s: "set (sorted_ips ?found) = {''192.0.2.1'', ''198.51.100.9''}" by simp
  have "instant demo_app 1 \<le> instant demo_app (instant_pos demo_app) + DNS_CACHE_TTL"
    by (simp add: DNS_CACHE_TTL_def)
  with resolve_ipv4s_cached [OF t(1) nv, of "t\<lparr>lookup_host := (\<lambda>n name. Inl ''down'')\<rparr>"] t s
  show ?thesis by auto
qed

end
