(* ===== verification/Lease_Token.thy ===== *)
theory Lease_Token
  imports State
begin

text \<open>
  Lease extension tokens of \<open>src/src/crypto/lease_token.rs\<close>: an HMAC-SHA256 of the lease
  reference, printed in URL-safe base64, and its verification. HMAC, base64 and the
  constant-time comparison belong to other crates.
\<close>

definition sign_lease_token :: "externals \<Rightarrow> string \<Rightarrow> string \<Rightarrow> string" where
  "sign_lease_token x lease_ref secret =
     ext_b64_url_encode x (ext_hmac_sha256 x (bytes_of_string secret) (bytes_of_string lease_ref))"

definition verify_lease_token :: "externals \<Rightarrow> string \<Rightarrow> string \<Rightarrow> string \<Rightarrow> bool" where
  "verify_lease_token x lease_ref token secret =
     ext_ct_eq x (bytes_of_string (sign_lease_token x lease_ref secret)) (bytes_of_string token)"

text \<open>The comparison decides equality, and base64 is injective.\<close>

definition token_ext_ok :: "externals \<Rightarrow> bool" where
  "token_ext_ok x \<longleftrightarrow> (\<forall>a b. ext_ct_eq x a b \<longleftrightarrow> a = b) \<and> inj (ext_b64_url_encode x)"

lemma verify_iff: "token_ext_ok x \<Longrightarrow> verify_lease_token x r token secret \<longleftrightarrow> token = sign_lease_token x r secret"
  by (auto simp: verify_lease_token_def token_ext_ok_def)

lemma string_of_bytes_inject [simp]: "string_of_bytes a = string_of_bytes b \<longleftrightarrow> a = b"
proof
  assume "string_of_bytes a = string_of_bytes b"
  then show "a = b"
    by (induction a arbitrary: b)
      (auto simp: string_of_bytes_def map_eq_Cons_conv unsigned_word_eqI of_char_of unat_u8_less)
qed simp

lemma demo_token_ext_ok [simp]: "token_ext_ok demo_ext"
  by (auto simp: token_ext_ok_def demo_ext_def inj_def)

lemma demo_hmac [simp]: "ext_hmac_sha256 demo_ext k m = m @ k"
  by (simp add: demo_ext_def)



end
