(* ===== verification/Rust_F64.thy ===== *)
theory Rust_F64
  imports Rust_Num
begin

text \<open>
  The part of Rust's \<open>f64\<close> the lease API uses on \<open>lease_minutes\<close>: parsing a decimal number,
  one multiplication by 60 and the cast to \<open>i64\<close>. A finite value is a sign, a significand
  below \<open>2 ^ 53\<close> and a binary exponent; parsing and multiplying round to the nearest value,
  ties to even.
\<close>

datatype f64 = NaN | Infinite bool | Finite bool nat int

text \<open>Number of binary digits.\<close>

fun bitlen :: "nat \<Rightarrow> nat" where
  "bitlen n = (if n = 0 then 0 else Suc (bitlen (n div 2)))"

declare bitlen.simps [simp del]

definition round_half_even :: "nat \<Rightarrow> nat \<Rightarrow> nat" where
  "round_half_even a d =
     (let q = a div d; r = a mod d in
      if 2 * r < d then q else if 2 * r > d then Suc q else if even q then q else Suc q)"

text \<open>
  The fraction \<open>a / d\<close> rounded: the exponent leaves a significand of 53 bits, or is that of
  the subnormal numbers.
\<close>

definition f64_exponent :: "nat \<Rightarrow> nat \<Rightarrow> int" where
  "f64_exponent a d = max (- 1074) (int (bitlen (a * 2 ^ 1127 div d)) - 1127 - 53)"

definition f64_of_fraction :: "bool \<Rightarrow> nat \<Rightarrow> nat \<Rightarrow> f64" where
  "f64_of_fraction neg a d =
     (let e = f64_exponent a d;
          m = (if e \<ge> 0 then round_half_even a (d * 2 ^ nat e) else round_half_even (a * 2 ^ nat (- e)) d)
      in if e \<ge> 0 \<and> m * 2 ^ nat e \<ge> 2 ^ 1024 then Infinite neg else Finite neg m e)"

definition f64_times60 :: "f64 \<Rightarrow> f64" where
  "f64_times60 x =
     (case x of
        Finite neg m e \<Rightarrow>
          if e \<ge> 0 then f64_of_fraction neg (60 * m * 2 ^ nat e) 1
          else f64_of_fraction neg (60 * m) (2 ^ nat (- e))
      | y \<Rightarrow> y)"

text \<open>\<open>as i64\<close>: towards zero, saturating, and 0 for NaN.\<close>

definition saturate64 :: "int \<Rightarrow> int" where
  "saturate64 i = max (- (2 ^ 63)) (min (2 ^ 63 - 1) i)"

definition f64_as_i64 :: "f64 \<Rightarrow> int" where
  "f64_as_i64 x =
     (case x of
        NaN \<Rightarrow> 0
      | Infinite neg \<Rightarrow> if neg then - (2 ^ 63) else 2 ^ 63 - 1
      | Finite neg m e \<Rightarrow>
          let t = (if e \<ge> 0 then m * 2 ^ nat e else m div 2 ^ nat (- e))
          in saturate64 (if neg then - int t else int t))"

subsection \<open>Decimal syntax\<close>

definition ascii_lower :: "string \<Rightarrow> string" where
  "ascii_lower = map (\<lambda>c. let n = (of_char c :: nat) in if 65 \<le> n \<and> n \<le> 90 then char_of (n + 32) else c)"

definition take_sign :: "string \<Rightarrow> bool \<times> string" where
  "take_sign s =
     (case s of
        c # cs \<Rightarrow> if c = CHR ''-'' then (True, cs) else if c = CHR ''+'' then (False, cs) else (False, s)
      | [] \<Rightarrow> (False, []))"

definition digits_of :: "string \<Rightarrow> string \<times> string" where
  "digits_of s = (takeWhile is_digit s, dropWhile is_digit s)"

definition digits_value :: "string \<Rightarrow> nat" where
  "digits_value s = foldl (\<lambda>n c. 10 * n + (case digit_val c of None \<Rightarrow> 0 | Some d \<Rightarrow> d)) 0 s"

definition parse_exponent :: "string \<Rightarrow> int option" where
  "parse_exponent s =
     (case s of
        [] \<Rightarrow> Some 0
      | c # cs \<Rightarrow>
          if c = CHR ''e'' \<or> c = CHR ''E'' then
            (case take_sign cs of (neg, ds) \<Rightarrow>
               if ds \<noteq> [] \<and> list_all is_digit ds
               then Some (if neg then - int (digits_value ds) else int (digits_value ds)) else None)
          else None)"

text \<open>\<open>Digit+ [. Digit*] [Exp]\<close> or \<open>Digit* . Digit+ [Exp]\<close>\<close>

definition parse_number :: "bool \<Rightarrow> string \<Rightarrow> f64 option" where
  "parse_number neg s =
     (case digits_of s of (whole, r) \<Rightarrow>
      case (case r of c # cs \<Rightarrow> if c = CHR ''.'' then digits_of cs else ([], r) | [] \<Rightarrow> ([], [])) of (frac, r') \<Rightarrow>
        if whole = [] \<and> frac = [] then None
        else
          map_option (\<lambda>x.
            let ds = digits_value (whole @ frac); e = x - int (length frac) in
            if e \<ge> 0 then f64_of_fraction neg (ds * 10 ^ nat e) 1 else f64_of_fraction neg ds (10 ^ nat (- e)))
          (parse_exponent r'))"

definition parse_f64 :: "string \<Rightarrow> f64 option" where
  "parse_f64 s =
     (case take_sign s of (neg, r) \<Rightarrow>
        if ascii_lower r = ''inf'' \<or> ascii_lower r = ''infinity'' then Some (Infinite neg)
        else if ascii_lower r = ''nan'' then Some NaN
        else parse_number neg r)"

definition minutes_to_seconds :: "string \<Rightarrow> int" where
  "minutes_to_seconds lm =
     f64_as_i64 (f64_times60 (case parse_f64 lm of None \<Rightarrow> Finite False 0 (- 1074) | Some x \<Rightarrow> x))"

subsection \<open>Whole minutes\<close>

lemma bitlen_le: "n < 2 ^ k \<Longrightarrow> bitlen n \<le> k"
proof (induction n arbitrary: k rule: bitlen.induct)
  case (1 n)
  show ?case
  proof (cases "n = 0")
    case False
    with 1(2) obtain j where k: "k = Suc j" by (cases k) auto
    with 1(2) have "n div 2 < 2 ^ j" by simp
    with 1(1) [OF False] k False show ?thesis by (simp add: bitlen.simps [of n])
  qed (simp add: bitlen.simps)
qed

lemma round_half_even_exact: "0 < d \<Longrightarrow> round_half_even (n * d) d = n"
  by (simp add: round_half_even_def Let_def)

text \<open>Whole numbers below \<open>2 ^ 53\<close> are exact.\<close>

lemma f64_exact:
  assumes "n < 2 ^ 53" and "0 < d"
  shows "\<exists>k. f64_of_fraction neg (n * d) d = Finite neg (n * 2 ^ k) (- int k)"
proof -
  have "n * d * 2 ^ 1127 div d = n * 2 ^ 1127" using assms(2) by simp
  moreover have "n * 2 ^ 1127 < 2 ^ (53 + 1127)"
    using assms(1) unfolding power_add by simp
  ultimately have "bitlen (n * d * 2 ^ 1127 div d) \<le> 53 + 1127"
    using bitlen_le by metis
  then have e: "f64_exponent (n * d) d \<le> 0" by (simp add: f64_exponent_def)
  define k where "k = nat (- f64_exponent (n * d) d)"
  with e have k: "f64_exponent (n * d) d = - int k" by simp
  have "f64_of_fraction neg (n * d) d = Finite neg (n * 2 ^ k) (- int k)"
  proof (cases "k = 0")
    case True
    then have "f64_exponent (n * d) d = 0" using k by simp
    moreover have "n < 2 ^ 1024" using assms(1) by (rule order_less_trans) simp
    ultimately show ?thesis
      using True assms(2) by (simp add: f64_of_fraction_def Let_def round_half_even_exact)
  next
    case False
    have "round_half_even (n * d * 2 ^ k) d = n * 2 ^ k"
      using round_half_even_exact [OF assms(2), of "n * 2 ^ k"] by (simp add: ac_simps)
    with False k show ?thesis by (simp add: f64_of_fraction_def Let_def)
  qed
  then show ?thesis by blast
qed

lemma f64_as_i64_exact: "n < 2 ^ 63 \<Longrightarrow> f64_as_i64 (Finite False (n * 2 ^ k) (- int k)) = int n"
  by (cases "k = 0") (simp_all add: f64_as_i64_def saturate64_def Let_def)

lemma digits_value_parse: "parse_acc a s = Some v \<Longrightarrow>
    foldl (\<lambda>n c. 10 * n + (case digit_val c of None \<Rightarrow> 0 | Some d \<Rightarrow> d)) a s = v"
  by (induction a s rule: parse_acc.induct) (auto split: option.splits)

lemma digits_value_show: "digits_value (show_nat n) = n"
  unfolding digits_value_def by (rule digits_value_parse) (rule parse_acc_show_nat)

lemma parse_f64_show:
  assumes "n < 2 ^ 53"
  shows "\<exists>k. parse_f64 (show_nat n) = Some (Finite False (n * 2 ^ k) (- int k))"
proof -
  have dig: "\<forall>c \<in> set (show_nat n). is_digit c" using show_nat_digits by blast
  obtain c cs where c: "show_nat n = c # cs" "is_digit c"
    using dig by (cases "show_nat n") auto
  have "take_sign (show_nat n) = (False, show_nat n)"
    using c by (auto simp: take_sign_def is_digit_def)
  moreover have "ascii_lower (show_nat n) \<noteq> ''inf''" "ascii_lower (show_nat n) \<noteq> ''infinity''"
    "ascii_lower (show_nat n) \<noteq> ''nan''"
    using c by (auto simp: ascii_lower_def is_digit_def Let_def split: if_splits)
  moreover have "digits_of (show_nat n) = (show_nat n, [])"
    using dig by (simp add: digits_of_def takeWhile_eq_all_conv)
  ultimately have "parse_f64 (show_nat n) = Some (f64_of_fraction False n 1)"
    using c digits_value_show [of n] by (simp add: parse_f64_def parse_number_def parse_exponent_def)
  then show ?thesis using f64_exact [OF assms, of 1 False] by simp
qed

lemma minutes_to_seconds_whole:
  assumes "60 * n < 2 ^ 53"
  shows "minutes_to_seconds (show_nat n) = 60 * int n"
proof -
  have n: "n < 2 ^ 53" using assms by linarith
  obtain k where k: "parse_f64 (show_nat n) = Some (Finite False (n * 2 ^ k) (- int k))"
    using parse_f64_show [OF n] by blast
  have "f64_times60 (Finite False (n * 2 ^ k) (- int k)) = f64_of_fraction False (60 * n * 2 ^ k) (2 ^ k)"
    by (cases "k = 0") (simp_all add: f64_times60_def ac_simps)
  moreover obtain j where "f64_of_fraction False (60 * n * 2 ^ k) (2 ^ k) = Finite False (60 * n * 2 ^ j) (- int j)"
    using f64_exact [OF assms, of "2 ^ k" False] by auto
  moreover have "60 * n < 2 ^ 63" using assms by (rule order_less_trans) simp
  ultimately show ?thesis
    using k f64_as_i64_exact [of "60 * n" j] by (simp add: minutes_to_seconds_def)
qed

end
