(* ===== verification/Lease_Manager.thy ===== *)
theory Lease_Manager
  imports Peer_Manager Rust_F64
begin

text \<open>
  The lease manager of \<open>src/src/service/lease_manager.rs\<close>: a new WireGuard or SOCKS5 lease, or
  the extension of one, with the configuration the client gets. Expiry times are computed in
  \<open>i64\<close>, wrapping around as in a release build.
\<close>

record lease_result =
  lr_text :: "string option"
  lr_json :: "json option"
  lr_ref :: string
  lr_expires :: int

definition expiry_after :: "int \<Rightarrow> int \<Rightarrow> int" where
  "expiry_after now lease_seconds = wrap64 (now + wrap64 (lease_seconds * 1000))"

subsection \<open>Rendering\<close>

definition format_peer_config :: "peer_config \<Rightarrow> string \<Rightarrow> string option \<times> json option" where
  "format_peer_config c fmt =
     (if fmt = ''text'' then (Some (to_text c), None) else (None, Some (to_json c)))"

definition format_socks5_config :: "socks5_config \<Rightarrow> string \<Rightarrow> string option \<times> json option" where
  "format_socks5_config c fmt =
     (if fmt = ''text'' then
        (Some (''socks5://'' @ username c @ '':'' @ password c @ ''@'' @ ip_address c @ '':'' @ show_int (port c)),
         None)
      else
        (None, Some (JObj [(''username'', JStr (username c)), (''password'', JStr (password c)),
                           (''ip_address'', JStr (ip_address c)), (''port'', JInt (port c))])))"

definition mock_text :: string where
  "mock_text = join_str NL
     [''[Interface]'', ''Address = 10.0.0.2/32'', ''PrivateKey = mock'', ''DNS = 1.1.1.1'', [],
      ''[Peer]'', ''PublicKey = mock'', ''PresharedKey = mock'', ''AllowedIPs = 0.0.0.0/0, ::/0'',
      ''Endpoint = 127.0.0.1:51820'']"

definition mock_json :: json where
  "mock_json = JObj
     [(''interface'', JObj [(''Address'', JStr ''10.0.0.2/32''), (''PrivateKey'', JStr ''mock''), (''DNS'', JStr ''1.1.1.1'')]),
      (''peer'', JObj [(''PublicKey'', JStr ''mock''), (''PresharedKey'', JStr ''mock''),
                     (''AllowedIPs'', JStr ''0.0.0.0/0, ::/0''), (''Endpoint'', JStr ''127.0.0.1:51820'')])]"

subsection \<open>New leases\<close>

definition no_server :: app_error where
  "no_server = Internal ''WireGuard server not available''"

definition allocate_wireguard :: "config \<Rightarrow> wg_server option \<Rightarrow> int \<Rightarrow> string \<Rightarrow> ('z, lease_result) wg_op" where
  "allocate_wireguard cfg srv lease_seconds fmt =
     (let start_id = 1; end_id = uint (effective_peer_count cfg) in
      and_then now_ms (\<lambda>now.
      let expires = expiry_after now lease_seconds in
      if ci_mock_wg_container cfg then
        and_then (register_wireguard_lease start_id end_id expires) (\<lambda>lease.
        ok \<lparr>lr_text = Some mock_text, lr_json = Some mock_json, lr_ref = show_int (peer_id lease),
            lr_expires = expires\<rparr>)
      else
        and_then (ok_or no_server srv) (\<lambda>server.
        and_then (allocate_peer server start_id end_id expires) (\<lambda>allocation.
        let (txt, js) = format_peer_config (pa_config allocation) fmt in
        ok \<lparr>lr_text = txt, lr_json = js, lr_ref = show_int (pa_peer_id allocation),
            lr_expires = pa_expires_at allocation\<rparr>))))"

definition ensure_available :: "int \<Rightarrow> ('z, unit) wg_op" where
  "ensure_available slots =
     and_then (count_available_socks slots) (\<lambda>count.
     if count = 0 then
       and_then cleanup_expired_socks5_configs (\<lambda>_.
       and_then (count_available_socks slots) (\<lambda>new_count.
       if new_count = 0 then err (LeaseUnavailable ''No available SOCKS5 slots after cleanup'') else ok ()))
     else ok ())"

definition allocate_socks5 :: "config \<Rightarrow> int \<Rightarrow> bool \<Rightarrow> string \<Rightarrow> ('z, lease_result) wg_op" where
  "allocate_socks5 cfg lease_seconds priority fmt =
     and_then now_ms (\<lambda>now.
     let expires = expiry_after now lease_seconds; slots = priority_slots cfg in
     and_then (if \<not> priority then ensure_available slots else ok ()) (\<lambda>_.
     and_then (get_socks5_config expires priority slots) (\<lambda>sock.
     let (txt, js) = format_socks5_config sock fmt in
     ok \<lparr>lr_text = txt, lr_json = js, lr_ref = username sock, lr_expires = expires\<rparr>)))"

subsection \<open>Extensions\<close>

definition extend_wireguard :: "wg_server option \<Rightarrow> string \<Rightarrow> string \<Rightarrow> int \<Rightarrow> int \<Rightarrow> ('z, lease_result) wg_op" where
  "extend_wireguard srv fmt ref_val expected new =
     and_then (ok_or (Validation ''Invalid extend_ref for wireguard: must be numeric'') (parse_i32 ref_val)) (\<lambda>i.
     and_then (extend_wireguard_lease i expected new) (\<lambda>result.
     and_then (ok_or no_server srv) (\<lambda>server.
     and_then (get_client_config server (as_u16 i)) (\<lambda>peer_cfg.
     let (txt, js) = format_peer_config peer_cfg fmt in
     ok \<lparr>lr_text = txt, lr_json = js, lr_ref = show_int i, lr_expires = lease_expires result\<rparr>))))"

definition extend_socks5 :: "string \<Rightarrow> string \<Rightarrow> int \<Rightarrow> int \<Rightarrow> ('z, lease_result) wg_op" where
  "extend_socks5 fmt user expected new =
     and_then (extend_socks5_lease user expected new) (\<lambda>result.
     and_then (read_socks5_config_by_username user) (\<lambda>found.
     and_then (ok_or (Internal (''SOCKS5 config not found for '' @ user @ '' after extension'')) found) (\<lambda>sock.
     let (txt, js) = format_socks5_config sock fmt in
     ok \<lparr>lr_text = txt, lr_json = js, lr_ref = user, lr_expires = ext_expires_at result\<rparr>)))"

definition get_worker_config ::
    "config \<Rightarrow> wg_server option \<Rightarrow> string \<Rightarrow> int \<Rightarrow> bool \<Rightarrow> string \<Rightarrow> string option \<Rightarrow> int option \<Rightarrow>
     ('z, lease_result) wg_op" where
  "get_worker_config cfg srv lease_type lease_seconds priority fmt extend_ref extend_expires_at =
     (case extend_ref of
        Some ref_val \<Rightarrow>
          and_then (ok_or (Validation ''extend_expires_at is required when extend_ref is provided'') extend_expires_at) (\<lambda>expected.
          and_then now_ms (\<lambda>now.
          let new = expiry_after now lease_seconds in
          if lease_type = ''wireguard'' then extend_wireguard srv fmt ref_val expected new
          else if lease_type = ''socks5'' then extend_socks5 fmt ref_val expected new
          else err (Validation (''Unsupported type for lease extension: '' @ lease_type))))
      | None \<Rightarrow>
          if lease_type = ''wireguard'' then allocate_wireguard cfg srv lease_seconds fmt
          else if lease_type = ''socks5'' then allocate_socks5 cfg lease_seconds priority fmt
          else err (Validation (''Invalid type: '' @ lease_type @ ''. Must be one of '' @ [CHR 0x27] @ ''wireguard''
                      @ [CHR 0x27] @ '', '' @ [CHR 0x27] @ ''socks5'' @ [CHR 0x27])))"

subsection \<open>Expiry times\<close>

lemma expiry_after_exact:
  "0 \<le> now \<Longrightarrow> 0 \<le> secs \<Longrightarrow> now + secs * 1000 < 2 ^ 63 \<Longrightarrow> expiry_after now secs = now + secs * 1000"
  by (simp add: expiry_after_def in_i64_def)

lemma expiry_in_i64 [simp]: "in_i64 (expiry_after now secs)"
  by (simp add: expiry_after_def)

subsection \<open>Extensions that succeed\<close>

lemma extend_wireguard_run:
  assumes "wg_ok t" and "lease_map (wg_configs t) i = Some old" and "clock t (clock_pos t) < old"
    and "db_fault t (db_pos t) = None" and "peers t (as_u16 i) = Some st" and "in_i32 i"
  shows "\<exists>v. extend_wireguard (Some srv) fmt (show_int i) old new t =
     (Inr \<lparr>lr_text = fst (format_peer_config (client_config srv (as_u16 i) st) fmt),
           lr_json = snd (format_peer_config (client_config srv (as_u16 i) st) fmt),
           lr_ref = show_int i, lr_expires = new\<rparr>, v)"
proof -
  have "extend_count i old (clock t (clock_pos t)) (wg_configs t) \<noteq> 0"
    using assms(1-3) by (simp add: extend_count_pos wg_ok_def)
  then show ?thesis
    using assms(4-6)
    by (simp add: extend_wireguard_def extend_wireguard_lease_def parse_i32_show_int ok_or_def get_client_config_def
        update_wg_def seq_simps run_simps split: prod.split)
qed

lemma extend_socks5_run:
  assumes "socks_ok t" and "r \<in> set (socks_configs t)" and "clock t (clock_pos t) < expires_at r"
    and "no_faults t"
  shows "\<exists>v. extend_socks5 fmt (username r) (expires_at r) new t =
     (Inr \<lparr>lr_text = fst (format_socks5_config r fmt), lr_json = snd (format_socks5_config r fmt),
           lr_ref = username r, lr_expires = new\<rparr>, v)"
proof -
  let ?now = "clock t (clock_pos t)"
  let ?ext = "extend_socks (username r) (expires_at r) new ?now (socks_configs t)"
  let ?r = "r\<lparr>expires_at := new, updated := ?now\<rparr>"
  have d: "distinct (map username (socks_configs t))" using assms(1) by (simp add: socks_ok_def)
  have "r \<in> set (filter (extend_hits (username r) (expires_at r) ?now) (socks_configs t))"
    using assms(2,3) by (simp add: extend_hits_def)
  then have hits: "filter (extend_hits (username r) (expires_at r) ?now) (socks_configs t) \<noteq> []" by force
  have "?r \<in> set ?ext"
    using assms(2,3) by (auto simp: extend_socks_def extend_hits_def image_iff intro!: bexI [of _ r])
  moreover have "distinct (map username ?ext)" using d by (simp only: row_maps_keep)
  ultimately have "find (\<lambda>x. username x = username r) ?ext = Some ?r"
    using find_distinct_key [of username ?ext ?r] by simp
  moreover have "format_socks5_config ?r fmt = format_socks5_config r fmt"
    by (simp add: format_socks5_config_def)
  ultimately show ?thesis
    using hits assms(4)
    by (simp add: extend_socks5_def extend_socks5_lease_def read_socks5_config_by_username_def no_faults_def
        ok_or_def update_socks_def seq_simps run_simps split: prod.split)
qed

subsection \<open>What a granted lease leaves behind\<close>

lemma allocate_wireguard_Inr:
  assumes "allocate_wireguard cfg (Some srv) secs fmt s = (Inr l, t)" and "\<not> ci_mock_wg_container cfg"
    and "wg_ext_ok (ext s)" and "\<forall>n. length (rand_bytes s n) = 32" and "wg_ok s"
  shows "\<exists>i st. 1 \<le> i \<and> i \<le> 253 \<and> lease_map (wg_configs t) i = Some (lr_expires l) \<and>
     lr_expires l = expiry_after (clock s (clock_pos s)) secs \<and>
     peers t (as_u16 i) = Some st \<and> wg_ok t \<and> lr_ref l = show_int i \<and>
     (lr_text l, lr_json l) = format_peer_config (client_config srv (as_u16 i) st) fmt"
proof -
  let ?e = "expiry_after (clock s (clock_pos s)) secs" and ?s = "s\<lparr>clock_pos := Suc (clock_pos s)\<rparr>"
  let ?max = "uint (effective_peer_count cfg)"
  from assms(1,2) obtain al where al: "allocate_peer srv 1 ?max ?e ?s = (Inr al, t)"
    and l: "(lr_text l, lr_json l) = format_peer_config (pa_config al) fmt"
      "lr_ref l = show_int (pa_peer_id al)" "lr_expires l = pa_expires_at al"
    by (auto simp: allocate_wireguard_def Let_def inv_simps case_prod_beta)
  have max: "1 \<le> ?max" "?max \<le> 253"
    using unat_effective_peer_count [of cfg] by (simp_all only: uint_nat) linarith+
  have x: "wg_ext_ok (ext ?s)" "\<forall>n. length (rand_bytes ?s n) = 32" using assms(3,4) by simp_all
  obtain rows i u secret psk addr where
    rows: "rows = wg_configs ?s \<or> rows = delete_expired (clock ?s (clock_pos ?s)) (wg_configs ?s)"
    and i: "first_free 1 ?max rows = Some i"
    and "length secret = 32" "length psk = 32" "ext_ip_mask (ext ?s) (show_ipv4 (peer_ip srv (as_u16 i))) = Inr addr"
    and alv: "al = \<lparr>pa_config = client_config srv (as_u16 i) (fresh_state (ext ?s) srv (as_u16 i) secret psk),
         pa_peer_id = i, pa_expires_at = ?e\<rparr>"
    and t: "wg_configs t = set_peer_keys i (ext_b64_encode (ext ?s) secret)
       (ext_b64_encode (ext ?s) (ext_x25519_public (ext ?s) secret)) (ext_b64_encode (ext ?s) psk)
       (show_ipv4 (peer_ip srv (as_u16 i))) (upsert_lease i ?e u rows)"
    and "wg_calls t = wg_calls ?s @
       [(Configure_peer (kernel_peer (ext ?s) (ext_x25519_public (ext ?s) secret) psk addr), True)]"
    and p: "peers t = (peers ?s)(as_u16 i \<mapsto> fresh_state (ext ?s) srv (as_u16 i) secret psk)"
    by (rule allocate_peer_Inr [OF al x])
  have keys: "lease_map (set_peer_keys i a b c d rs) = lease_map rs"
    "map wg_id (set_peer_keys i a b c d rs) = map wg_id rs" for a b c d rs
    by (auto simp: set_peer_keys_def lease_map_def key_map_map intro!: key_map_cong)
  have "distinct (map wg_id rows)"
    using rows assms(5) by (auto simp: wg_ok_def delete_expired_def distinct_filter_ids)
  then have "wg_ok t"
    unfolding wg_ok_def t keys by (rule distinct_upsert)
  moreover have "1 \<le> i" "i \<le> 253"
    using i max by (auto simp: first_free_def id_range_def find_upto_Some)
  moreover have "lease_map (wg_configs t) i = Some ?e"
    unfolding t keys lease_map_upsert by simp
  ultimately show ?thesis using p l alv by auto
qed

definition socks_ready :: "(nat \<Rightarrow> nat \<Rightarrow> nat) \<Rightarrow> 'z db_st_scheme \<Rightarrow> bool" where
  "socks_ready rb s \<longleftrightarrow> socks_ok s \<and> rand_below s = rb"

lemma env_blind_socks_ready [simp]: "env_blind (socks_ready rb)"
  by (simp add: env_blind_def socks_ready_def socks_ok_def)

lemma keeps_ensure_available: "keeps (socks_ready rb) (ensure_available slots)"
  unfolding ensure_available_def count_available_socks_def cleanup_expired_socks5_configs_def
  by (intro keeps_rules env_blind_socks_ready; simp add: socks_ready_def socks_ok_update row_maps_keep
      del: map_map) (simp add: update_socks_def)

lemma get_socks5_row:
  assumes "get_socks5_config e pr slots s = (Inr c, t)" and "socks_ok s"
    and "\<forall>m n. 0 < n \<longrightarrow> rand_below s m n < n"
  shows "\<exists>r \<in> set (socks_configs t). username r = username c \<and> password r = password c \<and>
     ip_address r = ip_address c \<and> port r = port c \<and> expires_at r = e \<and> socks_ok t"
proof -
  have ok: "socks_ok t" using keepsD [OF keeps_socks_get assms(2), of e pr slots] assms(1) by simp
  show ?thesis
  proof (cases pr)
    case True
    with assms(1) have "get_socks5_config_priority e slots s = (Inr c, t)" by (simp add: get_socks5_config_def)
    from priority_Inr [OF this] obtain k now where
      ne: "priority_rows slots (socks_configs s) \<noteq> []"
      and c: "c = priority_rows slots (socks_configs s) ! k"
      and k: "k = rand_below s (rand_pos s) (length (priority_rows slots (socks_configs s)))"
      and t: "socks_configs t = touch_lease e now (username c) (socks_configs s)" by blast
    have "c \<in> set (priority_rows slots (socks_configs s))"
      using assms(3) ne by (simp add: c k)
    then have "c \<in> set (socks_configs s)" using priority_available by blast
    then have "c\<lparr>expires_at := e, updated := now\<rparr> \<in> set (socks_configs t)"
      by (auto simp: t touch_lease_def image_iff intro!: bexI [of _ c])
    with ok show ?thesis by (intro bexI [of _ "c\<lparr>expires_at := e, updated := now\<rparr>"]) auto
  next
    case False
    with assms(1) have "get_socks5_config_non_priority e slots s = (Inr c, t)" by (simp add: get_socks5_config_def)
    from non_priority_Inr [OF this] obtain rows now where
      c: "next_exclusive slots rows = Some c"
      and t: "socks_configs t = take_exclusive e now (username c) (password c) rows" by blast
    have "c\<lparr>available := False, expires_at := e, updated := now\<rparr> \<in> set (socks_configs t)"
      using next_exclusive_available [OF c] by (auto simp: t take_exclusive_def image_iff intro!: bexI [of _ c])
    with ok show ?thesis
      by (intro bexI [of _ "c\<lparr>available := False, expires_at := e, updated := now\<rparr>"]) auto
  qed
qed

lemma allocate_socks5_Inr:
  assumes "allocate_socks5 cfg secs pr fmt s = (Inr l, t)" and "socks_ok s"
    and "\<forall>m n. 0 < n \<longrightarrow> rand_below s m n < n"
  shows "\<exists>r \<in> set (socks_configs t). lr_ref l = username r \<and> lr_expires l = expires_at r \<and>
     lr_expires l = expiry_after (clock s (clock_pos s)) secs \<and> socks_ok t \<and>
     (lr_text l, lr_json l) = format_socks5_config r fmt"
proof -
  let ?e = "expiry_after (clock s (clock_pos s)) secs" and ?s = "s\<lparr>clock_pos := Suc (clock_pos s)\<rparr>"
  let ?m = "if \<not> pr then ensure_available (priority_slots cfg) else ok ()"
  from assms(1) obtain x u c where u: "?m ?s = (Inr x, u)"
    and c: "get_socks5_config ?e pr (priority_slots cfg) u = (Inr c, t)"
    and l: "(lr_text l, lr_json l) = format_socks5_config c fmt" "lr_ref l = username c" "lr_expires l = ?e"
    by (auto simp: allocate_socks5_def Let_def and_then_Inr run_now_ms run_ok case_prod_beta)
  have "keeps (socks_ready (rand_below s)) ?m" by (intro keeps_rules keeps_ensure_available)
  from keepsD [OF this, of ?s] u assms(2) have "socks_ok u" "rand_below u = rand_below s"
    by (simp_all add: socks_ready_def socks_ok_def)
  from get_socks5_row [OF c this(1)] this(2) assms(3) obtain r where
    r: "r \<in> set (socks_configs t)" "username r = username c" "password r = password c"
      "ip_address r = ip_address c" "port r = port c" "expires_at r = ?e" "socks_ok t" by auto
  then have "format_socks5_config r fmt = format_socks5_config c fmt"
    by (simp add: format_socks5_config_def)
  with r l show ?thesis by (intro bexI [of _ r]) auto
qed

lemma allocate_peer_expires:
  "allocate_peer srv a b e s = (Inr al, t) \<Longrightarrow> pa_expires_at al = e"
  by (auto simp: allocate_peer_def and_then_def run_attempt run_err run_ok Let_def split: prod.splits sum.splits)

lemma new_lease_expires:
  assumes "get_worker_config cfg srv lease_type secs pr fmt None None s = (Inr l, t)"
  shows "lr_expires l = expiry_after (clock s (clock_pos s)) secs"
  using assms
  by (auto simp: get_worker_config_def allocate_wireguard_def allocate_socks5_def Let_def inv_simps case_prod_beta
      split: if_splits dest!: allocate_peer_expires)

lemma lease_then_extend:
  fixes s t u :: "'z wg_st_scheme"
  assumes "get_worker_config cfg (Some srv) lease_type secs pr fmt None None s = (Inr l, t)"
    and "\<not> ci_mock_wg_container cfg" and "wg_ext_ok (ext s)" and "\<forall>n. length (rand_bytes s n) = 32"
    and "\<forall>m n. 0 < n \<longrightarrow> rand_below s m n < n" and "wg_ok s" and "socks_ok s"
    and "wg_configs u = wg_configs t" and "socks_configs u = socks_configs t" and "socks_seq u = socks_seq t"
    and "peers u = peers t" and "no_faults u" and "clock u (Suc (clock_pos u)) < lr_expires l"
  shows "\<exists>v. get_worker_config cfg (Some srv) lease_type secs' pr' fmt (Some (lr_ref l)) (Some (lr_expires l)) u =
           (Inr (l\<lparr>lr_expires := expiry_after (clock u (clock_pos u)) secs'\<rparr>), v)"
proof (cases "lease_type = ''wireguard''")
  case True
  with assms(1) have "allocate_wireguard cfg (Some srv) secs fmt s = (Inr l, t)"
    by (simp add: get_worker_config_def)
  from allocate_wireguard_Inr [OF this assms(2,3,4,6)] obtain i st where
    i: "1 \<le> i" "i \<le> 253" and l: "lease_map (wg_configs t) i = Some (lr_expires l)" "peers t (as_u16 i) = Some st"
      "wg_ok t" "lr_ref l = show_int i" "(lr_text l, lr_json l) = format_peer_config (client_config srv (as_u16 i) st) fmt"
    by blast
  let ?t = "u\<lparr>clock_pos := Suc (clock_pos u)\<rparr>" and ?new = "expiry_after (clock u (clock_pos u)) secs'"
  have "wg_ok ?t" "in_i32 i" "db_fault ?t (db_pos ?t) = None"
    using l(3) i assms(8,12) by (simp_all add: wg_ok_def in_i32_def no_faults_def)
  with extend_wireguard_run [of ?t i "lr_expires l" st srv fmt ?new] l(1,2) assms(8,11,13) obtain v where
    "extend_wireguard (Some srv) fmt (lr_ref l) (lr_expires l) ?new ?t =
      (Inr \<lparr>lr_text = lr_text l, lr_json = lr_json l, lr_ref = lr_ref l, lr_expires = ?new\<rparr>, v)"
    unfolding l(4) l(5) [symmetric] by auto
  with True show ?thesis
    by (cases l) (simp add: get_worker_config_def ok_or_def seq_simps run_simps Let_def)
next
  case False
  with assms(1) have ty: "lease_type = ''socks5''" and "allocate_socks5 cfg secs pr fmt s = (Inr l, t)"
    by (auto simp: get_worker_config_def run_err split: if_splits)
  from allocate_socks5_Inr [OF this(2) assms(7,5)] obtain r where
    r: "r \<in> set (socks_configs t)" "lr_ref l = username r" "lr_expires l = expires_at r" "socks_ok t"
      "(lr_text l, lr_json l) = format_socks5_config r fmt" by blast
  let ?t = "u\<lparr>clock_pos := Suc (clock_pos u)\<rparr>" and ?new = "expiry_after (clock u (clock_pos u)) secs'"
  have "socks_ok ?t" "no_faults ?t"
    using r(4) assms(9,10,12) by (simp_all add: socks_ok_def no_faults_def)
  with extend_socks5_run [of ?t r fmt ?new] r(1) assms(9,13) obtain v where
    "extend_socks5 fmt (lr_ref l) (lr_expires l) ?new ?t =
      (Inr \<lparr>lr_text = lr_text l, lr_json = lr_json l, lr_ref = lr_ref l, lr_expires = ?new\<rparr>, v)"
    unfolding r(2,3) r(5) [symmetric] by auto
  with ty show ?thesis
    by (cases l) (simp add: get_worker_config_def ok_or_def seq_simps run_simps Let_def)
qed

subsection \<open>A concrete worker\<close>

definition demo_config :: config where
  "demo_config =
     \<lparr>run_mode = Worker, server_port = 3000, server_public_host = ''203.0.113.1'', server_public_protocol = ''http'',
      server_public_url = [], mining_pool_url = ''http://pool.example:3000'', mining_pool_name = [],
      mining_pool_rewards = [], mining_pool_website_url = [], wireguard_peer_count = 253,
      wireguard_server_port = 51820, wg_interface_name = ''wg0'', wg_subnet = ''10.13.13.0'', wg_dns = ''1.1.1.1'',
      wg_public_reachability_check = True, wg_public_reachability_timeout_ms = 60000, socks5_port = 1080,
      http_proxy_port = 3128, proxy_credential_count = 256, dante_port = 1080, password_dir = ''/passwords'',
      dante_regen_dir = ''/dante_regen_requests'', priority_slots = 1, payment_address_evm = [], payment_address_bittensor = [],
      sqlite_path = ''tpn-worker.db'', ci_mode = False, ci_mock_wg_container = False, ci_mock_worker_responses = False,
      ci_mock_mining_pool_responses = False, force_destroy_database = False, beta_refresh_lease = False,
      lease_token_secret = ''key'', admin_api_key = [], validator_lease_api_keys = [], login_password = [],
      jwt_secret = ''jwt'', github_repo = ''shellawesome/tpn-worker'', daemon_interval_s = 300, log_level = ''info'',
      broadcast_message = [], contact_method = [], tpn_internal_subnet = ''172.20.0.0/16'',
      tpn_external_subnet = ''172.21.0.0/16''\<rparr>"

lemma demo_config_simps [simp]:
  "run_mode demo_config = Worker" "mining_pool_url demo_config = ''http://pool.example:3000''"
  "priority_slots demo_config = 1" "ci_mock_wg_container demo_config = False"
  "ci_mock_worker_responses demo_config = False" "lease_token_secret demo_config = ''key''"
  "login_password demo_config = []" "jwt_secret demo_config = ''jwt''"
  "tpn_internal_subnet demo_config = ''172.20.0.0/16''" "tpn_external_subnet demo_config = ''172.21.0.0/16''"
  "wireguard_peer_count demo_config = 253"
  by (simp_all add: demo_config_def)

text \<open>Two credentials, of which the second is the exclusive one.\<close>

definition two_socks :: "'z db_st_scheme \<Rightarrow> 'z db_st_scheme" where
  "two_socks s = s\<lparr>socks_configs := [demo_sock 1 ''a'' True 0, demo_sock 2 ''b'' True 0], socks_seq := 2\<rparr>"

lemma two_socks_simps [simp]:
  "lock_pos (two_socks s) = lock_pos s" "lock_timeout (two_socks s) = lock_timeout s"
  "db_fault (two_socks s) = db_fault s" "db_pos (two_socks s) = db_pos s" "clock (two_socks s) = clock s"
  "clock_pos (two_socks s) = clock_pos s" "ext (two_socks s) = ext s" "rand_bytes (two_socks s) = rand_bytes s"
  "rand_below (two_socks s) = rand_below s" "wg_configs (two_socks s) = wg_configs s"
  "socks_configs (two_socks s) = [demo_sock 1 ''a'' True 0, demo_sock 2 ''b'' True 0]"
  by (simp_all add: two_socks_def)

lemma two_socks_ok: "socks_ok (two_socks s)"
  by (simp add: two_socks_def socks_ok_def demo_sock_def)

lemma demo_socks_lease:
  fixes s :: "'z wg_st_scheme"
  assumes "no_faults s" and "lock_timeout s (lock_pos s) = False" and "in_i64 (clock s (clock_pos s) + secs * 1000)"
    and "in_i64 (secs * 1000)" and "socks_configs s = [demo_sock 1 ''a'' True 0, demo_sock 2 ''b'' True 0]"
  shows "\<exists>t. get_worker_config demo_config (Some demo_server) ''socks5'' secs False ''text'' None None s =
      (Inr \<lparr>lr_text = Some ''socks5://b:pb@203.0.113.1:1080'', lr_json = None, lr_ref = ''b'',
            lr_expires = clock s (clock_pos s) + secs * 1000\<rparr>, t) \<and>
    db_fault t = db_fault s \<and> clock t = clock s \<and> clock_pos t = clock_pos s + 2 \<and> ext t = ext s"
proof -
  have "available_rows (socks_configs s) = [demo_sock 1 ''a'' True 0, demo_sock 2 ''b'' True 0]"
    by (simp add: available_rows_def assms(5) demo_sock_def)
  then have ne: "next_exclusive 1 (socks_configs s) = Some (demo_sock 2 ''b'' True 0)"
    and n: "length (sql_offset 1 (available_rows (socks_configs s))) = 1"
    by (simp_all add: next_exclusive_def sql_offset_def)
  have "show_int 1080 = ''1080''" by code_simp
  then have f: "format_socks5_config (demo_sock 2 ''b'' True 0) ''text'' = (Some ''socks5://b:pb@203.0.113.1:1080'', None)"
    by (simp add: format_socks5_config_def demo_sock_def)
  show ?thesis
    using assms(1-4) ne n f
    by (simp add: get_worker_config_def allocate_socks5_def ensure_available_def count_available_socks_def
        get_socks5_config_def get_socks5_config_non_priority_def run_with_lock find_exclusive_def no_faults_def
        expiry_after_def update_socks_def seq_simps run_simps Let_def demo_sock_def)
qed

subsection \<open>Properties\<close>

text \<open>The extension protocol is a round trip: whoever holds a lease can extend it, at any time before
  it runs out, with the reference and the expiry time it was handed, and gets back the very
  same client configuration, under the same reference, with the new expiry time. The state \<open>u\<close>
  is any later one in which the tables and the peers are as the request left them.\<close>

theorem lease_extension_roundtrip:
  fixes s t u :: "'z wg_st_scheme"
  assumes "get_worker_config cfg (Some srv) lease_type secs pr fmt None None s = (Inr l, t)"
    and "\<not> ci_mock_wg_container cfg" and "wg_ext_ok (ext s)" and "\<forall>n. length (rand_bytes s n) = 32"
    and "\<forall>m n. 0 < n \<longrightarrow> rand_below s m n < n" and "wg_ok s" and "socks_ok s"
    and "wg_configs u = wg_configs t" and "socks_configs u = socks_configs t" and "socks_seq u = socks_seq t"
    and "peers u = peers t" and "no_faults u" and "clock u (Suc (clock_pos u)) < lr_expires l"
  shows "\<exists>v. get_worker_config cfg (Some srv) lease_type secs' pr' fmt (Some (lr_ref l)) (Some (lr_expires l)) u =
           (Inr (l\<lparr>lr_expires := expiry_after (clock u (clock_pos u)) secs'\<rparr>), v)"
  by (rule lease_then_extend [OF assms])

theorem lease_extension_roundtrip_witness:
  "\<exists>l t v. get_worker_config demo_config (Some demo_server) ''socks5'' 60 False ''text'' None None (two_socks demo_wg) =
       (Inr l, t) \<and> lr_text l = Some ''socks5://b:pb@203.0.113.1:1080'' \<and>
     get_worker_config demo_config (Some demo_server) ''socks5'' 120 False ''text'' (Some (lr_ref l)) (Some (lr_expires l)) t =
       (Inr (l\<lparr>lr_expires := 121002\<rparr>), v)"
proof -
  let ?s = "two_socks demo_wg"
  have x: "wg_ext_ok (ext ?s)" "\<forall>n. length (rand_bytes ?s n) = 32" "\<forall>m n. 0 < n \<longrightarrow> rand_below ?s m n < n" "wg_ok ?s" "socks_ok ?s"
    by (simp_all add: two_socks_ok wg_ok_def demo_ext_ok)
  obtain t where t: "get_worker_config demo_config (Some demo_server) ''socks5'' 60 False ''text'' None None ?s =
      (Inr \<lparr>lr_text = Some ''socks5://b:pb@203.0.113.1:1080'', lr_json = None, lr_ref = ''b'', lr_expires = 61000\<rparr>, t)"
    "db_fault t = (\<lambda>n. None)" "clock t = (\<lambda>n. 1000 + int n)" "clock_pos t = 2"
    using demo_socks_lease [of "two_socks demo_wg" 60] by (auto simp: no_faults_def in_i64_def)
  have "expiry_after 1002 120 = 121002" by (simp add: expiry_after_def in_i64_def)
  with lease_extension_roundtrip [OF t(1) _ x, of t 120 False] t show ?thesis
    by (auto simp: no_faults_def)
qed

text \<open>A new lease of either kind runs for exactly the requested number of seconds from the time of
  the request, as long as that time fits in 64 bits.\<close>

theorem lease_expiry_exact:
  assumes "get_worker_config cfg srv lease_type secs pr fmt None None s = (Inr l, t)"
    and "0 \<le> secs" and "0 \<le> clock s (clock_pos s)" and "clock s (clock_pos s) + secs * 1000 < 2 ^ 63"
  shows "lr_expires l = clock s (clock_pos s) + secs * 1000"
  using new_lease_expires [OF assms(1)] expiry_after_exact [OF assms(3,2,4)] by simp

theorem lease_expiry_exact_witness:
  "\<exists>l t. get_worker_config demo_config (Some demo_server) ''socks5'' 60 False ''text'' None None (two_socks demo_wg) =
     (Inr l, t) \<and> lr_expires l = 61000"
proof -
  obtain l t where t: "get_worker_config demo_config (Some demo_server) ''socks5'' 60 False ''text'' None None (two_socks demo_wg) = (Inr l, t)"
    using demo_socks_lease [of "two_socks demo_wg" 60] by (auto simp: no_faults_def in_i64_def)
  with lease_expiry_exact [OF t] show ?thesis by simp
qed

text \<open>Beyond that the multiplication wraps around: the longest lease a client can ask for,
  \<open>i64::MAX\<close> seconds, is granted with an expiry time one second in the past.\<close>

theorem lease_expiry_overflow:
  assumes "get_worker_config cfg srv lease_type (2 ^ 63 - 1) pr fmt None None s = (Inr l, t)"
    and "1000 \<le> clock s (clock_pos s)" and "clock s (clock_pos s) < 2 ^ 63"
  shows "lr_expires l = clock s (clock_pos s) - 1000"
proof -
  have "wrap64 ((2 ^ 63 - 1) * 1000) = - 1000" by (simp add: wrap64_def)
  then show ?thesis
    using new_lease_expires [OF assms(1)] assms(2,3) by (simp add: expiry_after_def in_i64_def)
qed

theorem lease_expiry_overflow_witness:
  "\<exists>l t. get_worker_config (demo_config\<lparr>ci_mock_wg_container := True\<rparr>) None ''wireguard'' (2 ^ 63 - 1) False ''text'' None None
     demo_wg = (Inr l, t) \<and> lr_expires l = 0"
proof -
  let ?cfg = "demo_config\<lparr>ci_mock_wg_container := True\<rparr>"
  have "uint (effective_peer_count ?cfg) = 253" by (simp add: effective_peer_count_def)
  moreover have "first_free 1 253 [] = Some 1" by (simp add: first_free_def id_range_def upto_rec1)
  ultimately obtain l t where t: "get_worker_config ?cfg None ''wireguard'' (2 ^ 63 - 1) False ''text'' None None demo_wg = (Inr l, t)"
    by (simp add: get_worker_config_def allocate_wireguard_def Let_def register_wireguard_lease_def run_with_lock
        register_unlocked_def try_allocate_def seq_simps run_simps)
  with lease_expiry_overflow [OF t] show ?thesis by simp
qed

end
