(* ===== verification/Api_Lease.thy ===== *)
theory Api_Lease
  imports Net_Dns Lease_Token Lease_Manager
begin

text \<open>
  The lease endpoint of \<open>src/src/api/lease.rs\<close>: who may call it, the validation of its
  parameters, the token check of an extension, and the response with its headers. The shared
  state of the handlers (\<open>AppState\<close> in \<open>src/src/main.rs\<close>) is the record \<open>app_state\<close> for what
  never changes and the state \<open>app_st\<close> for the rest.
\<close>

record app_state =
  as_config :: config
  as_wg_server :: "wg_server option"
  as_start_time :: nat \<comment> \<open>which reading of the clock\<close>
  as_git_branch :: string
  as_git_hash :: string
  as_version :: string

record lease_params =
  q_lease_seconds :: "string option"
  q_lease_minutes :: "string option"
  q_format :: "string option"
  q_type :: "string option"
  q_priority :: "string option"
  q_feedback_url :: "string option"
  q_extend_ref :: "string option"
  q_extend_expires_at :: "string option"
  q_lease_token :: "string option"

definition unwrap_or :: "'a \<Rightarrow> 'a option \<Rightarrow> 'a" where
  "unwrap_or d x = (case x of None \<Rightarrow> d | Some v \<Rightarrow> v)"

subsection \<open>Access control\<close>

definition denied :: "string \<Rightarrow> app_error" where
  "denied ip = Unauthorized (''Worker does not accept lease requests from '' @ ip)"

definition check_access :: "config \<Rightarrow> ip_addr \<Rightarrow> ('z, unit) app_op" where
  "check_access cfg addr =
     (if is_worker cfg \<and> \<not> ci_mock_worker_responses cfg then
        let caller_ip = sanitize_ipv4 (show_ip addr) in
        and_then (attempt (resolve_domain_to_ipv4s (effective_mining_pool_url cfg))) (\<lambda>resolved.
        let allowed = (case resolved of Inl (e :: app_error) \<Rightarrow> [] | Inr ips \<Rightarrow> ips);
            local_request = is_local_ip caller_ip (tpn_internal_subnet cfg) (tpn_external_subnet cfg)
        in if caller_ip \<notin> set allowed \<and> \<not> local_request then err (denied caller_ip) else ok ())
      else ok ())"

subsection \<open>Parameters\<close>

definition param_seconds :: "lease_params \<Rightarrow> int" where
  "param_seconds q =
     (case q_lease_seconds q of
        Some ls \<Rightarrow> unwrap_or 0 (parse_i64 ls)
      | None \<Rightarrow> (case q_lease_minutes q of Some lm \<Rightarrow> minutes_to_seconds lm | None \<Rightarrow> 0))"

definition one_of :: "string \<Rightarrow> string \<Rightarrow> string" where
  "one_of a b = [CHR 0x27] @ a @ [CHR 0x27] @ '', '' @ [CHR 0x27] @ b @ [CHR 0x27]"

definition validate_params :: "lease_params \<Rightarrow> string + unit" where
  "validate_params q =
     (let fmt = unwrap_or ''json'' (q_format q); ty = unwrap_or ''wireguard'' (q_type q); secs = param_seconds q in
      if secs \<le> 0 then
        Inl (''Invalid lease_seconds: '' @ show_int secs @ ''. Must be a valid number greater than 0.'')
      else if fmt \<notin> set [''json'', ''text''] then
        Inl (''Invalid format: '' @ fmt @ ''. Must be one of '' @ one_of ''json'' ''text'')
      else if ty \<notin> set [''wireguard'', ''socks5''] then
        Inl (''Invalid type: '' @ ty @ ''. Must be one of '' @ one_of ''wireguard'' ''socks5'')
      else if q_extend_ref q \<noteq> None \<and> q_extend_expires_at q = None then
        Inl ''extend_expires_at is required when extend_ref is provided''
      else Inr ())"

definition bad_token :: app_error where
  "bad_token = Unauthorized ''Invalid or missing lease_token for lease extension''"

definition check_token :: "config \<Rightarrow> lease_params \<Rightarrow> ('z, unit) app_op" where
  "check_token cfg q =
     (case q_extend_ref q of
        None \<Rightarrow> ok ()
      | Some extend_ref \<Rightarrow>
          and_then (gets ext) (\<lambda>x.
          if \<not> verify_lease_token x extend_ref (unwrap_or [] (q_lease_token q)) (lease_token_secret cfg)
          then err bad_token else ok ()))"

subsection \<open>The handler\<close>

text \<open>A header is left out if its text is not a legal header value.\<close>

definition header :: "externals \<Rightarrow> string \<Rightarrow> string \<Rightarrow> (string \<times> string) list" where
  "header x name v = (if ext_header_value x v then [(name, v)] else [])"

definition lease_response :: "externals \<Rightarrow> config \<Rightarrow> string \<Rightarrow> lease_result \<Rightarrow> response" where
  "lease_response x cfg fmt result =
     \<lparr>status = 200,
      headers = header x ''X-Lease-Ref'' (lr_ref result) @
                header x ''X-Lease-Expires'' (show_int (lr_expires result)) @
                header x ''X-Lease-Token'' (sign_lease_token x (lr_ref result) (lease_token_secret cfg)),
      body = (if fmt = ''text'' then Text (unwrap_or [] (lr_text result))
              else Json (unwrap_or (JObj []) (lr_json result)))\<rparr>"

definition lease_new :: "app_state \<Rightarrow> ip_addr \<Rightarrow> lease_params \<Rightarrow> ('z, response) app_op" where
  "lease_new st addr q =
     (let cfg = as_config st; fmt = unwrap_or ''json'' (q_format q); ty = unwrap_or ''wireguard'' (q_type q);
          priority = (q_priority q = Some ''true'');
          expected = Option.bind (q_extend_expires_at q) parse_i64
      in
      and_then (check_access cfg addr) (\<lambda>_.
      and_then (map_err Validation (of_result (validate_params q))) (\<lambda>_.
      and_then (check_token cfg q) (\<lambda>_.
      and_then (get_worker_config cfg (as_wg_server st) ty (param_seconds q) priority fmt (q_extend_ref q) expected) (\<lambda>result.
      and_then (gets ext) (\<lambda>x.
      ok (lease_response x cfg fmt result)))))))"

text \<open>What \<open>axum\<close> sends: the response, or the one the error converts to.\<close>

definition answer :: "('z, response) app_op \<Rightarrow> 'z app_st_scheme \<Rightarrow> response \<times> 'z app_st_scheme" where
  "answer m s = (case m s of (Inl e, t) \<Rightarrow> (into_response e, t) | (Inr r, t) \<Rightarrow> (r, t))"

subsection \<open>What the checks leave alone\<close>

text \<open>Resolving a name changes the cache and the two counters only.\<close>

definition below_cache :: "'z app_st_scheme \<Rightarrow> wg_st" where
  "below_cache s = wg_st.truncate s"

lemma below_cacheD:
  assumes "below_cache s = below_cache t"
  shows "wg_configs s = wg_configs t" "socks_configs s = socks_configs t" "socks_seq s = socks_seq t"
    "peers s = peers t" "wg_calls s = wg_calls t" "ext s = ext t" "clock s = clock t" "clock_pos s = clock_pos t"
    "db_fault s = db_fault t" "wg_servers s = wg_servers t" "credentials s = credentials t" "rand_bytes s = rand_bytes t"
    "rand_below s = rand_below t" "lock_timeout s = lock_timeout t" "lock_pos s = lock_pos t" "db_pos s = db_pos t"
  using assms unfolding below_cache_def wg_st.truncate_def by (simp_all add: wg_st.make_def)

lemma below_cache_upd [simp]:
  "below_cache (s\<lparr>cache := c\<rparr>) = below_cache s" "below_cache (s\<lparr>instant_pos := n\<rparr>) = below_cache s"
  "below_cache (s\<lparr>lookup_pos := n\<rparr>) = below_cache s"
  by (simp_all add: below_cache_def wg_st.defs)

lemma keeps_below_cache:
  "keeps (\<lambda>s. below_cache s = m) instant_now"
  "keeps (\<lambda>s. below_cache s = m) (cache_get key)"
  "keeps (\<lambda>s. below_cache s = m) (cache_set key v ttl)"
  "keeps (\<lambda>s. below_cache s = m) (ask_dns name)"
  by (auto simp: keeps_def cache_get_def cache_remove_def cache_set_def ask_dns_def run_simps seq_simps
      split: option.split sum.split)

lemma keeps_resolve: "keeps (\<lambda>s. below_cache s = m) (resolve_domain_to_ipv4s url)"
  unfolding resolve_domain_to_ipv4s_def resolve_ipv4s_fresh_def cache_get_string_def cache_set_string_def Let_def
  by (intro keeps_rules keeps_below_cache)

lemma keeps_check_access: "keeps (\<lambda>s. below_cache s = m) (check_access cfg addr)"
  unfolding check_access_def Let_def by (intro keeps_rules keeps_resolve)

lemma check_access_below: "check_access cfg addr s = (r, t) \<Longrightarrow> below_cache t = below_cache s"
  using keepsD [OF keeps_check_access, of s "below_cache s" cfg addr] by simp

text \<open>The two addresses the worker accepts: the mining pool's and local ones.\<close>

definition trusted :: "config \<Rightarrow> ip_addr \<Rightarrow> 'z app_st_scheme \<Rightarrow> bool" where
  "trusted cfg addr s \<longleftrightarrow>
     is_local_ip (sanitize_ipv4 (show_ip addr)) (tpn_internal_subnet cfg) (tpn_external_subnet cfg) \<or>
     (case fst (resolve_domain_to_ipv4s (effective_mining_pool_url cfg) s) of
        Inl _ \<Rightarrow> False | Inr ips \<Rightarrow> sanitize_ipv4 (show_ip addr) \<in> set ips)"

lemma check_access_run:
  assumes "is_worker cfg" and "\<not> ci_mock_worker_responses cfg"
  shows "\<exists>t. check_access cfg addr s =
     ((if trusted cfg addr s then Inr () else Inl (denied (sanitize_ipv4 (show_ip addr)))), t)"
  using assms
  by (cases "resolve_domain_to_ipv4s (effective_mining_pool_url cfg) s")
    (auto simp: check_access_def trusted_def Let_def run_and_then run_attempt run_ok run_err split: sum.splits)

lemma error_response_status: "status (into_response e) = error_status e"
  by (simp add: into_response_def)

subsection \<open>Properties\<close>

definition demo_state :: app_state where
  "demo_state = \<lparr>as_config = demo_config, as_wg_server = Some demo_server, as_start_time = 0,
     as_git_branch = ''main'', as_git_hash = ''0'', as_version = ''1.0.0''\<rparr>"

definition demo_params :: lease_params where
  "demo_params = \<lparr>q_lease_seconds = Some ''60'', q_lease_minutes = None, q_format = Some ''text'', q_type = Some ''socks5'',
     q_priority = None, q_feedback_url = None, q_extend_ref = None, q_extend_expires_at = None, q_lease_token = None\<rparr>"

lemma demo_state_simps [simp]: "as_config demo_state = demo_config" "as_wg_server demo_state = Some demo_server"
  by (simp_all add: demo_state_def)

lemma demo_local_access: "\<exists>t. check_access demo_config (IpV4 (Ipv4 127 0 0 1)) s = (Inr (), t)"
  using check_access_run [of demo_config "IpV4 (Ipv4 127 0 0 1)" s]
  by (simp add: trusted_def is_local_ip_def Let_def show_ipv4_loopback is_worker_def)





lemma lease_new_cong:
  assumes "param_seconds p = param_seconds q" and "q_format p = q_format q" and "q_type p = q_type q"
    and "q_priority p = q_priority q" and "q_extend_ref p = q_extend_ref q"
    and "q_extend_expires_at p = q_extend_expires_at q" and "q_lease_token p = q_lease_token q"
  shows "lease_new st addr p = lease_new st addr q"
proof -
  have "validate_params p = validate_params q" unfolding validate_params_def assms ..
  then show ?thesis unfolding lease_new_def check_token_def assms by simp
qed

text \<open>C37: Callers of the older protocol get the same answer: a whole number of minutes in
  \<open>lease_minutes\<close> is the same request as sixty times as many \<open>lease_seconds\<close>, although the code
  goes through floating point.\<close>

theorem lease_minutes_compatible:
  assumes "60 * n < 2 ^ 53"
  shows "lease_new st addr (q\<lparr>q_lease_seconds := None, q_lease_minutes := Some (show_nat n)\<rparr>) =
         lease_new st addr (q\<lparr>q_lease_seconds := Some (show_nat (60 * n)), q_lease_minutes := m\<rparr>)"
proof -
  have "show_nat (60 * n) = show_int (int (60 * n))" by (simp add: show_int_def)
  moreover have "in_i64 (int (60 * n))" using assms by (simp add: in_i64_def)
  ultimately have "parse_i64 (show_nat (60 * n)) = Some (int (60 * n))"
    using parse_i64_show_int by presburger
  then show ?thesis
    using minutes_to_seconds_whole [OF assms] by (intro lease_new_cong) (simp_all add: param_seconds_def unwrap_or_def)
qed

theorem lease_minutes_compatible_witness:
  "lease_new demo_state (IpV4 (Ipv4 127 0 0 1)) (demo_params\<lparr>q_lease_seconds := None, q_lease_minutes := Some (show_nat 90)\<rparr>) =
   lease_new demo_state (IpV4 (Ipv4 127 0 0 1)) (demo_params\<lparr>q_lease_seconds := Some (show_nat 5400), q_lease_minutes := None\<rparr>)"
  using lease_minutes_compatible [of 90 demo_state "IpV4 (Ipv4 127 0 0 1)" demo_params None] by simp

lemma error_status_neq_200: "error_status e \<noteq> 200"
  by (cases e) auto

lemma lease_new_Inr:
  assumes "answer (lease_new st addr q) s = (r, t)" and "status r = 200"
  obtains u l where "check_access (as_config st) addr s = (Inr (), u)" "validate_params q = Inr ()"
    "check_token (as_config st) q u = (Inr (), u)"
    "get_worker_config (as_config st) (as_wg_server st) (unwrap_or ''wireguard'' (q_type q)) (param_seconds q)
       (q_priority q = Some ''true'') (unwrap_or ''json'' (q_format q)) (q_extend_ref q)
       (Option.bind (q_extend_expires_at q) parse_i64) u = (Inr l, t)"
    "r = lease_response (ext t) (as_config st) (unwrap_or ''json'' (q_format q)) l"
proof -
  have st: "fst (check_token cfg q v) = Inr () \<Longrightarrow> snd (check_token cfg q v) = v" for cfg and v :: "'a app_st_scheme"
    by (auto simp: check_token_def run_and_then run_gets run_ok run_err split: option.splits if_splits)
  have "lease_new st addr q s = (Inr r, t)"
    using assms error_status_neq_200
    by (auto simp: answer_def into_response_def split: prod.splits sum.splits)
  then obtain x u y z v l where 1: "check_access (as_config st) addr s = (Inr x, u)" "validate_params q = Inr y"
    and 2: "check_token (as_config st) q u = (Inr z, v)"
    "get_worker_config (as_config st) (as_wg_server st) (unwrap_or ''wireguard'' (q_type q)) (param_seconds q)
       (q_priority q = Some ''true'') (unwrap_or ''json'' (q_format q)) (q_extend_ref q)
       (Option.bind (q_extend_expires_at q) parse_i64) v = (Inr l, t)"
    "r = lease_response (ext t) (as_config st) (unwrap_or ''json'' (q_format q)) l"
    by (auto simp: lease_new_def Let_def inv_simps)
  moreover have "v = u" using st [of "as_config st" u] 2(1) by simp
  ultimately show thesis using that by simp
qed

lemma get_worker_config_new:
  "get_worker_config cfg srv ty secs pr fmt None x = get_worker_config cfg srv ty secs pr fmt None None"
  by (simp add: get_worker_config_def)

lemma lease_headers:
  "map_of (headers (lease_response x cfg fmt l)) ''X-Lease-Ref'' = Some a \<Longrightarrow> a = lr_ref l"
  "map_of (headers (lease_response x cfg fmt l)) ''X-Lease-Expires'' = Some b \<Longrightarrow> b = show_int (lr_expires l)"
  "map_of (headers (lease_response x cfg fmt l)) ''X-Lease-Token'' = Some c \<Longrightarrow>
     c = sign_lease_token x (lr_ref l) (lease_token_secret cfg)"
  by (auto simp: lease_response_def header_def split: if_splits)

text \<open>What an extension comes to once caller, parameters and token are accepted.\<close>

lemma lease_new_extension:
  assumes "validate_params q = Inr ()" and "check_access (as_config st) addr u = (Inr (), u1)"
    and "token_ext_ok (ext u1)" and "tok = sign_lease_token (ext u1) lref (lease_token_secret (as_config st))"
    and "parse_i64 lexp = Some due"
    and "get_worker_config (as_config st) (as_wg_server st) (unwrap_or ''wireguard'' (q_type q)) (param_seconds q)
       (q_priority q = Some ''true'') (unwrap_or ''json'' (q_format q)) (Some lref) (Some due) u1 = (Inr l, v)"
  shows "lease_new st addr (q\<lparr>q_extend_ref := Some lref, q_extend_expires_at := Some lexp, q_lease_token := Some tok\<rparr>) u =
     (Inr (lease_response (ext v) (as_config st) (unwrap_or ''json'' (q_format q)) l), v)"
proof -
  let ?q = "q\<lparr>q_extend_ref := Some lref, q_extend_expires_at := Some lexp, q_lease_token := Some tok\<rparr>"
  have secs: "param_seconds ?q = param_seconds q" by (simp add: param_seconds_def split: option.split)
  then have "validate_params ?q = Inr ()" using assms(1) by (auto simp: validate_params_def Let_def split: if_splits)
  moreover have "check_token (as_config st) ?q u1 = (Inr (), u1)"
    using assms(3,4) by (simp add: check_token_def run_and_then run_gets run_ok verify_iff unwrap_or_def)
  ultimately show ?thesis
    using assms(2,5,6) secs by (simp add: lease_new_def Let_def run_and_then run_map_err run_of_result run_gets run_ok)
qed

text \<open>C13: The endpoint is its own counterpart: a client that got a new lease and, before it runs out,
  sends the same query again with \<open>extend_ref\<close>, \<open>extend_expires_at\<close> and \<open>lease_token\<close> taken from
  the three headers of the response gets a 200 with the very same configuration as its body.
  The state \<open>u\<close> is any later one in which the tables and the peers are as the first request
  left them.\<close>

theorem lease_api_roundtrip:
  fixes s t u :: "'z app_st_scheme"
  assumes "answer (lease_new st addr q) s = (r, t)" and "status r = 200" and "q_extend_ref q = None"
    and "as_wg_server st = Some srv" and "\<not> ci_mock_wg_container (as_config st)"
    and "map_of (headers r) ''X-Lease-Ref'' = Some lref" and "map_of (headers r) ''X-Lease-Expires'' = Some lexp"
    and "map_of (headers r) ''X-Lease-Token'' = Some tok" and "parse_i64 lexp = Some due"
    and "wg_ext_ok (ext s)" and "token_ext_ok (ext t)" and "\<forall>n. length (rand_bytes s n) = 32"
    and "\<forall>m n. 0 < n \<longrightarrow> rand_below s m n < n" and "wg_ok s" and "socks_ok s"
    and "wg_configs u = wg_configs t" and "socks_configs u = socks_configs t" and "socks_seq u = socks_seq t"
    and "peers u = peers t" and "ext u = ext t" and "no_faults u" and "clock u (Suc (clock_pos u)) < due"
    and "fst (check_access (as_config st) addr' u) = Inr ()"
  shows "\<exists>r' v. answer (lease_new st addr' (q\<lparr>q_extend_ref := Some lref, q_extend_expires_at := Some lexp,
             q_lease_token := Some tok\<rparr>)) u = (r', v) \<and> status r' = 200 \<and> body r' = body r"
proof -
  let ?cfg = "as_config st" and ?fmt = "unwrap_or ''json'' (q_format q)"
  let ?q = "q\<lparr>q_extend_ref := Some lref, q_extend_expires_at := Some lexp, q_lease_token := Some tok\<rparr>"
  from lease_new_Inr [OF assms(1,2)] obtain s1 l where 1: "check_access ?cfg addr s = (Inr (), s1)"
    and valid: "validate_params q = Inr ()"
    and run: "get_worker_config ?cfg (Some srv) (unwrap_or ''wireguard'' (q_type q)) (param_seconds q)
       (q_priority q = Some ''true'') ?fmt None None s1 = (Inr l, t)"
    and r: "r = lease_response (ext t) ?cfg ?fmt l"
    by (metis assms(3,4) get_worker_config_new)
  note h = lease_headers [of "ext t" ?cfg ?fmt l, folded r]
  have l: "lref = lr_ref l" "lexp = show_int (lr_expires l)" "tok = sign_lease_token (ext t) lref (lease_token_secret ?cfg)"
    using h(1) [OF assms(6)] h(2) [OF assms(7)] h(3) [OF assms(8)] by simp_all
  have "in_i64 (lr_expires l)" using new_lease_expires [OF run] by simp
  then have due: "due = lr_expires l" "parse_i64 lexp = Some (lr_expires l)"
    using assms(9) l(2) by (simp_all add: parse_i64_show_int)
  note b1 = below_cacheD [OF check_access_below [OF 1]]
  obtain u1 where u1: "check_access ?cfg addr' u = (Inr (), u1)"
    using assms(23) by (cases "check_access ?cfg addr' u") simp
  note b2 = below_cacheD [OF check_access_below [OF u1]]
  have "\<exists>v. get_worker_config ?cfg (Some srv) (unwrap_or ''wireguard'' (q_type q)) (param_seconds q)
       (q_priority q = Some ''true'') ?fmt (Some (lr_ref l)) (Some (lr_expires l)) u1 =
       (Inr (l\<lparr>lr_expires := expiry_after (clock u1 (clock_pos u1)) (param_seconds q)\<rparr>), v)"
    using assms b1 b2 due
    by (intro lease_then_extend [OF run]) (simp_all add: wg_ok_def socks_ok_def no_faults_def)
  then obtain v where v: "get_worker_config ?cfg (Some srv) (unwrap_or ''wireguard'' (q_type q)) (param_seconds q)
       (q_priority q = Some ''true'') ?fmt (Some (lr_ref l)) (Some (lr_expires l)) u1 =
       (Inr (l\<lparr>lr_expires := expiry_after (clock u1 (clock_pos u1)) (param_seconds q)\<rparr>), v)" ..
  have "lease_new st addr' ?q u = (Inr (lease_response (ext v) ?cfg ?fmt
       (l\<lparr>lr_expires := expiry_after (clock u1 (clock_pos u1)) (param_seconds q)\<rparr>)), v)"
    using valid u1 v assms(4,11,20) due l b2(6) by (intro lease_new_extension) simp_all
  then show ?thesis by (simp add: answer_def lease_response_def r)
qed

theorem lease_api_roundtrip_witness:
  "\<exists>r t r' v. answer (lease_new demo_state (IpV4 (Ipv4 127 0 0 1)) demo_params) (two_socks demo_app) = (r, t) \<and>
     body r = Text ''socks5://b:pb@203.0.113.1:1080'' \<and>
     answer (lease_new demo_state (IpV4 (Ipv4 127 0 0 1)) (demo_params\<lparr>q_extend_ref := Some ''b'',
       q_extend_expires_at := Some ''61000'', q_lease_token := Some ''bkey''\<rparr>)) t = (r', v) \<and>
     status r' = 200 \<and> body r' = body r"
proof -
  let ?s = "two_socks demo_app" and ?ip = "IpV4 (Ipv4 127 0 0 1)"
  let ?l = "\<lparr>lr_text = Some ''socks5://b:pb@203.0.113.1:1080'', lr_json = None, lr_ref = ''b'', lr_expires = 61000\<rparr>"
  obtain s1 where s1: "check_access demo_config ?ip ?s = (Inr (), s1)" using demo_local_access by blast
  note b = below_cacheD [OF check_access_below [OF s1]]
  obtain t where t: "get_worker_config demo_config (Some demo_server) ''socks5'' 60 False ''text'' None None s1 = (Inr ?l, t)"
    "db_fault t = (\<lambda>n. None)" "clock t = (\<lambda>n. 1000 + int n)" "clock_pos t = 2" "ext t = demo_ext"
    using demo_socks_lease [of s1 60] b by (auto simp: no_faults_def in_i64_def)
  have printed: "show_int 61000 = ''61000''" by (simp add: show_int_def digit_char_def show_nat.simps) code_simp
  have "parse_i64 ''61000'' = Some 61000"
    using parse_i64_show_int [of 61000] by (simp add: in_i64_def printed)
  moreover have "parse_i64 ''60'' = Some 60" "sign_lease_token demo_ext ''b'' ''key'' = ''bkey''" by code_simp+
  ultimately have p: "parse_i64 ''60'' = Some 60" "parse_i64 ''61000'' = Some 61000" "show_int 61000 = ''61000''"
    "sign_lease_token demo_ext ''b'' ''key'' = ''bkey''" using printed by blast+
  let ?r = "lease_response demo_ext demo_config ''text'' ?l"
  have "validate_params demo_params = Inr ()" "param_seconds demo_params = 60"
    using p(1) by (simp_all add: validate_params_def param_seconds_def demo_params_def unwrap_or_def Let_def)
  then have r: "answer (lease_new demo_state ?ip demo_params) ?s = (?r, t)"
    using s1 t p by (simp add: answer_def lease_new_def check_token_def demo_params_def unwrap_or_def run_and_then run_ok
        run_map_err run_of_result run_gets Let_def)
  have g: "ext_header_value demo_ext ''b''" "ext_header_value demo_ext ''61000''" "ext_header_value demo_ext ''bkey''"
    by (simp_all add: demo_ext_def graphic_def)
  have h: "map_of (headers ?r) ''X-Lease-Ref'' = Some ''b''" "map_of (headers ?r) ''X-Lease-Expires'' = Some ''61000''"
    "map_of (headers ?r) ''X-Lease-Token'' = Some ''bkey''"
    using g p by (simp_all add: lease_response_def header_def)
  have st200: "status ?r = 200" by (simp add: lease_response_def)
  obtain t1 where "check_access demo_config ?ip t = (Inr (), t1)" using demo_local_access by blast
  then have "\<exists>r' v. answer (lease_new demo_state ?ip (demo_params\<lparr>q_extend_ref := Some ''b'',
       q_extend_expires_at := Some ''61000'', q_lease_token := Some ''bkey''\<rparr>)) t = (r', v) \<and>
     status r' = 200 \<and> body r' = body ?r"
    using t(2-5)
    by (intro lease_api_roundtrip [OF r st200 _ _ _ h p(2), of demo_server])
      (simp_all add: demo_ext_ok two_socks_ok wg_ok_def no_faults_def demo_params_def)
  with r show ?thesis by (simp add: lease_response_def unwrap_or_def)
qed

end
