(* ===== verification/Db_Misc.thy ===== *)
theory Db_Misc
  imports Peer_Manager
begin

text \<open>
  The remaining table operations under \<open>src/src/db/\<close>: time stamps, the log of registrations,
  the creation of the tables at start, and the periodic clean-up, which also removes peers
  from the WireGuard interface.
\<close>

subsection \<open>Time stamps\<close>

definition get_timestamp :: "string \<Rightarrow> ('z, int option) db_op" where
  "get_timestamp label =
     and_then (attempt (sql_query (\<lambda>s. map_option ts_timestamp (find (\<lambda>r. ts_label r = label) (ts_rows s))))) (\<lambda>r.
     ok (case r of Inl (e :: app_error) \<Rightarrow> None | Inr x \<Rightarrow> x))"

definition upsert_ts :: "string \<Rightarrow> int \<Rightarrow> int \<Rightarrow> ts_row list \<Rightarrow> ts_row list" where
  "upsert_ts label v now rows =
     (if label \<in> set (map ts_label rows)
      then map (\<lambda>r. if ts_label r = label then r\<lparr>ts_timestamp := v, ts_updated := now\<rparr> else r) rows
      else rows @ [\<lparr>ts_label = label, ts_timestamp = v, ts_updated = now\<rparr>])"

definition set_timestamp :: "string \<Rightarrow> int \<Rightarrow> ('z, unit) db_op" where
  "set_timestamp label v =
     and_then now_ms (\<lambda>now.
     sql_exec (\<lambda>s. s\<lparr>ts_rows := upsert_ts label v now (ts_rows s)\<rparr>))"

subsection \<open>Registration log\<close>

text \<open>\<open>INSERT\<close> takes the next id of the AUTOINCREMENT sequence.\<close>

definition insert_reg ::
    "string \<Rightarrow> bool \<Rightarrow> u16 \<Rightarrow> string \<Rightarrow> string \<Rightarrow> string \<Rightarrow> 'z db_st_scheme \<Rightarrow> 'z db_st_scheme" where
  "insert_reg url success code response_body error_text now s =
     s\<lparr>reg_log := reg_log s @
         [\<lparr>reg_id = reg_seq s + 1, reg_url = url, reg_success = (if success then 1 else 0),
           reg_status_code = uint code, reg_response_body = response_body,
           reg_error_message = error_text, reg_created_at = now\<rparr>],
       reg_seq := reg_seq s + 1\<rparr>"

text \<open>\<open>SELECT \<dots> ORDER BY id DESC LIMIT n\<close>; a negative limit is none.\<close>

definition newest_regs :: "int \<Rightarrow> reg_row list \<Rightarrow> reg_row list" where
  "newest_regs n rows =
     (let newest = rev (sort_key reg_id rows) in if n < 0 then newest else take (nat n) newest)"

definition trim_log :: "reg_row list \<Rightarrow> reg_row list" where
  "trim_log rows = filter (\<lambda>r. reg_id r \<in> set (map reg_id (newest_regs 200 rows))) rows"

definition insert_registration ::
    "string \<Rightarrow> bool \<Rightarrow> u16 \<Rightarrow> string \<Rightarrow> string \<Rightarrow> ('z, unit) db_op" where
  "insert_registration url success code response_body error_text =
     and_then now_rfc3339 (\<lambda>now.
     and_then (attempt (sql_exec (insert_reg url success code response_body error_text now))) (\<lambda>(_ :: app_error + unit).
     and_then (attempt (sql_exec (\<lambda>s. s\<lparr>reg_log := trim_log (reg_log s)\<rparr>))) (\<lambda>(_ :: app_error + unit).
     ok ())))"

definition reg_json :: "reg_row \<Rightarrow> json" where
  "reg_json r =
     JObj [(''id'', JInt (reg_id r)), (''mining_pool_url'', JStr (reg_url r)),
           (''success'', JBool (reg_success r = 1)), (''status_code'', JInt (reg_status_code r)),
           (''response_body'', JStr (reg_response_body r)), (''error_message'', JStr (reg_error_message r)),
           (''created_at'', JStr (reg_created_at r))]"

definition recent_registrations :: "int \<Rightarrow> ('z, json list) db_op" where
  "recent_registrations limit =
     and_then (attempt (sql_query (\<lambda>s. newest_regs limit (reg_log s)))) (\<lambda>r.
     ok (case r of Inl (e :: app_error) \<Rightarrow> [] | Inr rows \<Rightarrow> map reg_json rows))"

subsection \<open>Periodic clean-up\<close>

definition STALE_1_YEAR_MS :: int where "STALE_1_YEAR_MS = 365 * 24 * 60 * 60 * 1000"

text \<open>\<open>cleanup_table\<close>: the two tables it is called for; a failed statement is only logged.\<close>

definition cleanup_timestamps :: "int \<Rightarrow> ('z, unit) db_op" where
  "cleanup_timestamps cutoff =
     and_then (attempt (sql_exec (\<lambda>s. s\<lparr>ts_rows := filter (\<lambda>r. \<not> ts_updated r < cutoff) (ts_rows s)\<rparr>)))
       (\<lambda>(_ :: app_error + unit). ok ())"

definition cleanup_leases :: "int \<Rightarrow> ('z, unit) db_op" where
  "cleanup_leases cutoff =
     and_then (attempt (sql_exec (update_wg (delete_expired cutoff)))) (\<lambda>(_ :: app_error + unit). ok ())"

definition remove_peers :: "int list \<Rightarrow> ('z, unit) wg_op" where
  "remove_peers =
     for_each (\<lambda>i. and_then (attempt (remove_peer (as_u16 i))) (\<lambda>(_ :: app_error + unit). ok ()))"

definition remove_expired_peers :: "('z, unit) wg_op" where
  "remove_expired_peers =
     and_then (attempt expired_peer_ids) (\<lambda>r.
     case r of
       Inl (e :: app_error) \<Rightarrow> ok ()
     | Inr ids \<Rightarrow>
         remove_peers ids)"

definition database_cleanup :: "config \<Rightarrow> wg_server option \<Rightarrow> ('z, unit) wg_op" where
  "database_cleanup cfg srv =
     and_then now_ms (\<lambda>now.
     and_then (cleanup_timestamps (wrap64 (now - STALE_1_YEAR_MS))) (\<lambda>_.
     if run_mode cfg = Worker then
       and_then (if srv \<noteq> None then remove_expired_peers else ok ()) (\<lambda>_.
       cleanup_leases now)
     else ok ()))"

subsection \<open>Creation of the tables\<close>

text \<open>
  A statement on the schema; \<open>DROP TABLE\<close> empties the modelled table and \<open>CREATE TABLE IF NOT
  EXISTS\<close> keeps the rows there are. Dropping a table with an AUTOINCREMENT key also forgets its
  sequence. The other tables the code drops belong to programs of other run modes.
\<close>

definition dropped_tables :: "string list" where
  "dropped_tables =
     [''workers'', ''worker_performance'', ''timestamps'', ''worker_broadcast_metadata'',
      ''mining_pool_metadata_broadcast'', ''challenge_solution'', ''scores'', ''worker_wireguard_configs'',
      ''worker_wg_server'', ''worker_socks5_configs'', ''worker_registration_log'']"

definition drop_table :: "string \<Rightarrow> 'z db_st_scheme \<Rightarrow> 'z db_st_scheme" where
  "drop_table name s =
     (if name = ''timestamps'' then s\<lparr>ts_rows := []\<rparr>
      else if name = ''worker_wireguard_configs'' then s\<lparr>wg_configs := []\<rparr>
      else if name = ''worker_wg_server'' then s\<lparr>wg_servers := []\<rparr>
      else if name = ''worker_socks5_configs'' then s\<lparr>socks_configs := [], socks_seq := 0\<rparr>
      else if name = ''worker_registration_log'' then s\<lparr>reg_log := [], reg_seq := 0\<rparr>
      else s)"

text \<open>A row survives the removal of duplicates if its id is the greatest under its user name.\<close>

definition dedup_socks :: "socks5_config list \<Rightarrow> socks5_config list" where
  "dedup_socks rows = filter (\<lambda>r. \<forall>x \<in> set rows. username x = username r \<longrightarrow> sock_id x \<le> sock_id r) rows"

text \<open>
  \<open>CREATE UNIQUE INDEX\<close>: the statement can fail like any other; the index itself is what the
  column constraint of a new table already promises.
\<close>

definition unique_index :: "('z, unit) db_op" where
  "unique_index =
     and_then (sql_query (\<lambda>s. distinct (map username (socks_configs s)))) (\<lambda>unique.
     if unique then ok () else err (Db ''UNIQUE constraint failed: worker_socks5_configs.username''))"

definition ensure_unique_usernames :: "('z, unit) db_op" where
  "ensure_unique_usernames =
     and_then (attempt unique_index) (\<lambda>r.
     case r of
       Inr _ \<Rightarrow> ok ()
     | Inl (e :: app_error) \<Rightarrow>
         and_then (attempt (sql_exec (update_socks dedup_socks))) (\<lambda>(_ :: app_error + unit).
         and_then (attempt unique_index) (\<lambda>(_ :: app_error + unit). ok ())))"

abbreviation schema_statement :: "('z, unit) db_op" where
  "schema_statement \<equiv> sql_exec (\<lambda>s. s)"

definition init_database :: "config \<Rightarrow> ('z, unit) db_op" where
  "init_database cfg =
     (let worker_mode = (run_mode cfg = Worker) in
      and_then (if ci_mode cfg \<or> force_destroy_database cfg
                then for_each (\<lambda>t. sql_exec (drop_table t)) dropped_tables else ok ()) (\<lambda>_.
      and_then (if worker_mode
                then and_then schema_statement (\<lambda>_. and_then schema_statement (\<lambda>_. schema_statement))
                else ok ()) (\<lambda>_.
      and_then (if worker_mode
                then and_then schema_statement (\<lambda>_. and_then schema_statement (\<lambda>_. and_then schema_statement (\<lambda>_.
                     ensure_unique_usernames)))
                else ok ()) (\<lambda>_.
      and_then schema_statement (\<lambda>_.
      if worker_mode then and_then schema_statement (\<lambda>_. schema_statement) else ok ())))))"

subsection \<open>The log as a queue\<close>

definition reg_ok :: "'z db_st_scheme \<Rightarrow> bool" where
  "reg_ok s \<longleftrightarrow> sorted_wrt (<) (map reg_id (reg_log s)) \<and> (\<forall>i \<in> set (map reg_id (reg_log s)). i \<le> reg_seq s)"

lemma sort_key_strict: "sorted_wrt (<) (map f xs) \<Longrightarrow> sort_key f xs = xs"
  by (rule sort_key_id_if_sorted) (metis strict_sorted_imp_sorted)

lemma newest_regs_strict:
  "sorted_wrt (<) (map reg_id rows) \<Longrightarrow> newest_regs (int n) rows = take n (rev rows)"
  by (simp add: newest_regs_def sort_key_strict)

lemma trim_log_strict:
  assumes "sorted_wrt (<) (map reg_id rows)"
  shows "trim_log rows = drop (length rows - 200) rows"
proof -
  let ?k = "length rows - 200"
  have "newest_regs 200 rows = rev (drop ?k rows)"
    using newest_regs_strict [OF assms, of 200] by (simp add: take_rev)
  then have t: "trim_log rows = filter (\<lambda>r. reg_id r \<in> set (map reg_id (drop ?k rows))) (take ?k rows @ drop ?k rows)"
    by (simp add: trim_log_def)
  have "sorted_wrt (<) (map reg_id (take ?k rows) @ map reg_id (drop ?k rows))"
    using assms by (simp flip: map_append)
  then have "reg_id x < reg_id y" if "x \<in> set (take ?k rows)" "y \<in> set (drop ?k rows)" for x y
    using that by (auto simp: sorted_wrt_append)
  then have "filter (\<lambda>r. reg_id r \<in> set (map reg_id (drop ?k rows))) (take ?k rows) = []"
    by (fastforce simp: filter_empty_conv)
  moreover have "filter (\<lambda>r. reg_id r \<in> set (map reg_id (drop ?k rows))) (drop ?k rows) = drop ?k rows"
    by (intro filter_True) auto
  ultimately show ?thesis unfolding t filter_append by simp
qed

lemma sorted_wrt_drop: "sorted_wrt P xs \<Longrightarrow> sorted_wrt P (drop n xs)"
  by (metis append_take_drop_id sorted_wrt_append)

definition new_reg :: "string \<Rightarrow> bool \<Rightarrow> u16 \<Rightarrow> string \<Rightarrow> string \<Rightarrow> 'z db_st_scheme \<Rightarrow> reg_row" where
  "new_reg url success code txt msg s =
     \<lparr>reg_id = reg_seq s + 1, reg_url = url, reg_success = (if success then 1 else 0),
      reg_status_code = uint code, reg_response_body = txt, reg_error_message = msg,
      reg_created_at = ext_rfc3339 (ext s) (clock_pos s)\<rparr>"

lemma insert_registration_run:
  assumes "reg_ok s" and "no_faults s"
  shows "insert_registration url success code txt msg s =
    (Inr (), s\<lparr>clock_pos := Suc (clock_pos s), db_pos := Suc (Suc (db_pos s)),
       reg_log := drop (length (reg_log s) - 199) (reg_log s @ [new_reg url success code txt msg s]),
       reg_seq := reg_seq s + 1\<rparr>)"
proof -
  let ?rows = "reg_log s @ [new_reg url success code txt msg s]"
  have sorted: "sorted_wrt (<) (map reg_id ?rows)"
    using assms(1) by (auto simp: reg_ok_def new_reg_def sorted_wrt_append)
  show ?thesis
    using assms(2) trim_log_strict [OF sorted]
    by (simp add: insert_registration_def insert_reg_def no_faults_def seq_simps run_simps new_reg_def)
qed

lemma reg_ok_trimmed: "reg_ok s \<Longrightarrow> reg_ok (s\<lparr>reg_log := drop n (reg_log s)\<rparr>)"
  using sorted_wrt_drop [of "(<)" "map reg_id (reg_log s)" n]
  by (auto simp: reg_ok_def drop_map dest: in_set_dropD)

lemma reg_ok_insert: "reg_ok s \<Longrightarrow> reg_ok (insert_reg url success code txt msg now s)"
  by (fastforce simp: reg_ok_def insert_reg_def sorted_wrt_append)

text \<open>C34: The registration log is a queue of the last 200 attempts: a new attempt is appended, the
  oldest rows beyond 200 go, ids stay strictly increasing, and \<open>recent_registrations\<close> lists
  the rows newest first, the new attempt at the head.\<close>

theorem registration_log_queue:
  assumes "reg_ok s" and "no_faults s" and "0 < n"
  shows "\<exists>t row u. insert_registration url success code txt msg s = (Inr (), t) \<and> reg_ok t \<and>
     reg_url row = url \<and> (reg_success row = 1 \<longleftrightarrow> success) \<and> reg_id row = reg_seq s + 1 \<and>
     reg_log t = drop (length (reg_log s) - 199) (reg_log s @ [row]) \<and> length (reg_log t) \<le> 200 \<and>
     recent_registrations (int n) t = (Inr (map reg_json (take n (rev (reg_log t)))), u) \<and>
     hd (rev (reg_log t)) = row"
proof -
  let ?row = "new_reg url success code txt msg s" and ?k = "length (reg_log s) - 199"
  let ?i = "insert_reg url success code txt msg (ext_rfc3339 (ext s) (clock_pos s)) s"
  let ?t = "s\<lparr>clock_pos := Suc (clock_pos s), db_pos := Suc (Suc (db_pos s)),
      reg_log := drop ?k (reg_log s @ [?row]), reg_seq := reg_seq s + 1\<rparr>"
  note run = insert_registration_run [OF assms(1,2), of url success _ "txt" msg]
  have "reg_ok (?i\<lparr>reg_log := drop ?k (reg_log ?i)\<rparr>)"
    using reg_ok_trimmed [OF reg_ok_insert [OF assms(1)]] by blast
  then have ok: "reg_ok ?t" by (simp add: reg_ok_def insert_reg_def new_reg_def)
  have "\<exists>u. recent_registrations (int n) ?t = (Inr (map reg_json (take n (rev (reg_log ?t)))), u)"
    using assms(2) ok newest_regs_strict [of "reg_log ?t" n]
    by (simp add: recent_registrations_def no_faults_def reg_ok_def seq_simps run_simps)
  then obtain u where u: "recent_registrations (int n) ?t = (Inr (map reg_json (take n (rev (reg_log ?t)))), u)" ..
  have "hd (rev (reg_log ?t)) = ?row" "length (reg_log ?t) \<le> 200" by (simp_all add: last_drop)
  then show ?thesis using run ok u
    by (intro exI [of _ ?t] exI [of _ ?row] exI [of _ u]) (simp add: new_reg_def)
qed

theorem registration_log_queue_witness:
  "\<exists>t row u. insert_registration ''http://pool'' True 200 ''{}'' [] demo_db = (Inr (), t) \<and> reg_log t = [row] \<and>
     recent_registrations 50 t = (Inr [reg_json row], u)"
proof -
  have "reg_ok demo_db" "no_faults demo_db" by (simp_all add: reg_ok_def no_faults_def)
  from registration_log_queue [OF this, of 50 "''http://pool''" True 200 "''{}''" "[]", OF zero_less_numeral]
  obtain t row u where "insert_registration ''http://pool'' True 200 ''{}'' [] demo_db = (Inr (), t)"
    "reg_log t = drop (length (reg_log demo_db) - 199) (reg_log demo_db @ [row])"
    "recent_registrations (int 50) t = (Inr (map reg_json (take 50 (rev (reg_log t)))), u)" by blast
  then show ?thesis by auto
qed

subsection \<open>Properties of the clean-up\<close>

lemma remove_all:
  "\<exists>t. remove_peers ids s = (Inr (), t) \<and>
     peers t = (\<lambda>p. if p \<in> as_u16 ` set ids then None else peers s p) \<and>
     wg_configs t = wg_configs s \<and> db_fault t = db_fault s \<and> ext t = ext s"
proof (induction ids arbitrary: s)
  case Nil
  then show ?case by (simp add: remove_peers_def run_ok)
next
  case (Cons i ids)
  let ?s = "snd (remove_peer (as_u16 i) s)"
  have "keeps (\<lambda>s'. wg_configs s' = wg_configs s \<and> db_fault s' = db_fault s \<and> ext s' = ext s) (remove_peer (as_u16 i))"
    by (rule keeps_remove_peer) (simp add: wg_blind_def env_blind_def)
  from keepsD [OF this, of s] have f: "wg_configs ?s = wg_configs s" "db_fault ?s = db_fault s" "ext ?s = ext s"
    by simp_all
  from Cons.IH [of ?s] f remove_peer_forgets [of "as_u16 i" s] show ?case
    by (auto simp: remove_peers_def run_and_then run_attempt run_ok fun_eq_iff)
qed



subsection \<open>Properties of the table creation\<close>

lemma dedup_socks_spec:
  assumes "distinct (map sock_id rows)"
  shows "distinct (map username (dedup_socks rows)) \<and> set (map username (dedup_socks rows)) = set (map username rows)"
proof
  have "inj_on username (set (dedup_socks rows))"
  proof (rule inj_onI)
    fix x y assume "x \<in> set (dedup_socks rows)" "y \<in> set (dedup_socks rows)" "username x = username y"
    then have "x \<in> set rows" "y \<in> set rows" "sock_id x = sock_id y"
      by (auto simp: dedup_socks_def intro!: antisym)
    with assms show "x = y" by (metis distinct_key_eq)
  qed
  moreover have "distinct (dedup_socks rows)" using assms by (simp add: dedup_socks_def distinct_map)
  ultimately show "distinct (map username (dedup_socks rows))" by (simp add: distinct_map)
  show "set (map username (dedup_socks rows)) = set (map username rows)"
  proof
    show "set (map username (dedup_socks rows)) \<subseteq> set (map username rows)" by (auto simp: dedup_socks_def)
    show "set (map username rows) \<subseteq> set (map username (dedup_socks rows))"
    proof
      fix u assume "u \<in> set (map username rows)"
      let ?S = "{r \<in> set rows. username r = u}"
      have S: "finite ?S" "?S \<noteq> {}" using \<open>u \<in> set (map username rows)\<close> by auto
      then have "Max (sock_id ` ?S) \<in> sock_id ` ?S" by (intro Max_in) auto
      then obtain r where r: "r \<in> ?S" "sock_id r = Max (sock_id ` ?S)" by auto
      have "sock_id x \<le> sock_id r" if "x \<in> ?S" for x
        unfolding r(2) using S(1) that by (intro Max_ge) auto
      with r(1) show "u \<in> set (map username (dedup_socks rows))" by (auto simp: dedup_socks_def image_iff)
    qed
  qed
qed

definition all_tables :: "'z db_st_scheme \<Rightarrow> wg_row list \<times> server_key_row list \<times> ts_row list \<times> reg_row list" where
  "all_tables s = (wg_configs s, wg_servers s, ts_rows s, reg_log s)"

text \<open>Starting the worker keeps its data and leaves user names unique: with statements that succeed,
  \<open>init_database\<close> changes no table of an existing database, except that of several credentials
  under one user name only the newest stays; in CI mode or when told to destroy the database it
  leaves every table empty.\<close>

theorem init_database_spec:
  fixes s :: "'z db_st_scheme"
  assumes "run_mode cfg = Worker" and "no_faults s" and "distinct (map sock_id (socks_configs s))"
  shows "\<exists>t. init_database cfg s = (Inr (), t) \<and>
     (if ci_mode cfg \<or> force_destroy_database cfg
      then all_tables t = ([], [], [], []) \<and> socks_configs t = []
      else all_tables t = all_tables s \<and>
           socks_configs t = (if distinct (map username (socks_configs s)) then socks_configs s else dedup_socks (socks_configs s))) \<and>
     distinct (map username (socks_configs t)) \<and>
     (\<not> (ci_mode cfg \<or> force_destroy_database cfg) \<longrightarrow>
        set (map username (socks_configs t)) = set (map username (socks_configs s)))"
proof (cases "ci_mode cfg \<or> force_destroy_database cfg")
  case True
  then show ?thesis
    using assms(1,2)
    by (auto simp: init_database_def Let_def dropped_tables_def drop_table_def ensure_unique_usernames_def
        unique_index_def no_faults_def all_tables_def seq_simps run_simps)
next
  case False
  then show ?thesis
    using assms(1,2) dedup_socks_spec [OF assms(3)]
    by (auto simp: init_database_def Let_def ensure_unique_usernames_def unique_index_def no_faults_def
        all_tables_def update_socks_def seq_simps run_simps)
qed

definition demo_worker :: config where
  "demo_worker = undefined\<lparr>run_mode := Worker, ci_mode := False, force_destroy_database := False\<rparr>"

theorem init_database_spec_witness:
  "\<exists>t. init_database demo_worker (demo_db\<lparr>wg_configs := [demo_row 1 5000],
       socks_configs := [demo_sock 1 ''a'' True 0, demo_sock 2 ''a'' True 0]\<rparr>) = (Inr (), t) \<and>
     wg_configs t = [demo_row 1 5000] \<and> socks_configs t = [demo_sock 2 ''a'' True 0]"
proof -
  let ?s = "demo_db\<lparr>wg_configs := [demo_row 1 5000], socks_configs := [demo_sock 1 ''a'' True 0, demo_sock 2 ''a'' True 0]\<rparr>"
  have "no_faults ?s" "distinct (map sock_id (socks_configs ?s))"
    by (simp_all add: no_faults_def demo_sock_def)
  from init_database_spec [OF _ this, of demo_worker] show ?thesis
    by (auto simp: demo_worker_def all_tables_def dedup_socks_def demo_sock_def)
qed

end
