(* ===== verification/Os.thy ===== *)
theory Os
  imports Api_Lease Db_Misc
begin

text \<open>
  The operating system as the worker uses it: files, environment variables, child processes and
  HTTP requests. What the outside world answers is part of the state: after the commands \<open>log\<close>,
  the command \<open>cmd\<close> ends as \<open>cmd_result s log cmd\<close> says, the \<open>n\<close>-th file operation fails if
  \<open>fs_fault s n\<close> is a message, and a write that fails may leave anything behind, given by
  \<open>fs_partial s n\<close>. The \<open>n\<close>-th request is answered by \<open>http_reply s n\<close>. Commands and requests
  are logged, so that properties can speak of what the worker did. File contents are strings of bytes.
\<close>

record proc_output =
  po_success :: bool
  po_stdout :: "u8 list"
  po_stderr :: "u8 list"

record http_response =
  hr_status :: nat
  hr_status_text :: string \<comment> \<open>as \<open>StatusCode\<close> prints itself\<close>
  hr_body :: "string + string"

datatype http_request = Get string | Post string json

text \<open>Tasks that sleep half a second and then end the process, started by some handlers.\<close>

datatype late_task = Late_stop | Late_restart | Late_upgrade

record os_st = app_st +
  files :: "string \<rightharpoonup> string"
  file_modes :: "string \<Rightarrow> nat"
  fs_fault :: "nat \<Rightarrow> string option"
  fs_partial :: "nat \<Rightarrow> string option"
  fs_pos :: nat
  env_vars :: "string \<rightharpoonup> string"
  cmd_log :: "string list list" \<comment> \<open>program and arguments\<close>
  cmd_result :: "string list list \<Rightarrow> string list \<Rightarrow> string + proc_output"
  http_log :: "http_request list"
  http_reply :: "nat \<Rightarrow> http_request \<Rightarrow> string + http_response"
  client_fault :: "nat \<Rightarrow> string option" \<comment> \<open>building the client for the n-th request fails\<close>
  exe_path :: "string + string" \<comment> \<open>\<open>current_exe()\<close>\<close>
  pid :: nat
  late_tasks :: "late_task list"
  exit_code :: "int option"

type_synonym ('z, 'a) os_op = "('z os_st_scheme, app_error, 'a) rm"

text \<open>Every operation below returns the \<open>Result\<close> as a value, the way the callers use it.\<close>

definition run_command :: "string list \<Rightarrow> ('z, string + proc_output) os_op" where
  "run_command cmd s = (Inr (cmd_result s (cmd_log s) cmd), s\<lparr>cmd_log := cmd_log s @ [cmd]\<rparr>)"

definition send_request :: "http_request \<Rightarrow> ('z, string + http_response) os_op" where
  "send_request r s = (Inr (http_reply s (length (http_log s)) r), s\<lparr>http_log := http_log s @ [r]\<rparr>)"

definition build_client :: "('z, string + unit) os_op" where
  "build_client = gets (\<lambda>s. case client_fault s (length (http_log s)) of Some e \<Rightarrow> Inl e | None \<Rightarrow> Inr ())"

definition spawn_late :: "late_task \<Rightarrow> ('z, unit) os_op" where
  "spawn_late t = modify (\<lambda>s. s\<lparr>late_tasks := late_tasks s @ [t]\<rparr>)"

definition exit_process :: "int \<Rightarrow> ('z, unit) os_op" where
  "exit_process n = modify (\<lambda>s. s\<lparr>exit_code := Some n\<rparr>)"

definition file_op :: "('z os_st_scheme \<Rightarrow> (string + 'a) \<times> 'z os_st_scheme) \<Rightarrow> ('z, string + 'a) os_op" where
  "file_op f s =
     (let t = s\<lparr>fs_pos := Suc (fs_pos s)\<rparr> in
      case fs_fault s (fs_pos s) of Some e \<Rightarrow> (Inr (Inl e), t) | None \<Rightarrow> (case f t of (r, u) \<Rightarrow> (Inr r, u)))"

definition not_found :: string where "not_found = ''No such file or directory (os error 2)''"

definition path_exists :: "string \<Rightarrow> ('z, bool) os_op" where
  "path_exists p = gets (\<lambda>s. files s p \<noteq> None)"

definition read_to_string :: "string \<Rightarrow> ('z, string + string) os_op" where
  "read_to_string p = file_op (\<lambda>s.
     (case files s p of
        None \<Rightarrow> Inl not_found
      | Some c \<Rightarrow>
          (case from_utf8 (bytes_of_string c) of
             None \<Rightarrow> Inl ''stream did not contain valid UTF-8'' | Some t \<Rightarrow> Inr t), s))"

text \<open>Operations that write to \<open>p\<close>: a failed one leaves \<open>p\<close> as it was or with something else in it.\<close>

definition leave_partial :: "string \<Rightarrow> ('z, string + unit) os_op \<Rightarrow> ('z, string + unit) os_op" where
  "leave_partial p m =
     and_then (gets fs_pos) (\<lambda>n.
     and_then m (\<lambda>r.
     and_then (modify (\<lambda>s. case (r, fs_partial s n) of
         (Inl e, Some c) \<Rightarrow> s\<lparr>files := (files s)(p \<mapsto> c)\<rparr> | _ \<Rightarrow> s)) (\<lambda>_.
     ok r)))"

definition write_file :: "string \<Rightarrow> string \<Rightarrow> ('z, string + unit) os_op" where
  "write_file p c = leave_partial p (file_op (\<lambda>s. (Inr (), s\<lparr>files := (files s)(p \<mapsto> c)\<rparr>)))"

text \<open>\<open>std::fs::copy\<close> copies the permission bits, too.\<close>

definition copy_file :: "string \<Rightarrow> string \<Rightarrow> ('z, string + unit) os_op" where
  "copy_file p q =
     and_then (path_exists p) (\<lambda>there.
     if \<not> there then ok (Inl not_found)
     else leave_partial q (file_op (\<lambda>s.
       (Inr (), s\<lparr>files := (files s)(q := files s p), file_modes := (file_modes s)(q := file_modes s p)\<rparr>))))"

definition remove_file :: "string \<Rightarrow> ('z, string + unit) os_op" where
  "remove_file p = file_op (\<lambda>s.
     (case files s p of
        None \<Rightarrow> (Inl not_found, s)
      | Some c \<Rightarrow> (Inr (), s\<lparr>files := (files s)(p := None)\<rparr>)))"

definition set_permissions :: "string \<Rightarrow> nat \<Rightarrow> ('z, string + unit) os_op" where
  "set_permissions p m = file_op (\<lambda>s.
     (case files s p of
        None \<Rightarrow> (Inl not_found, s)
      | Some c \<Rightarrow> (Inr (), s\<lparr>file_modes := (file_modes s)(p := m)\<rparr>)))"

definition set_var :: "string \<Rightarrow> string \<Rightarrow> ('z, unit) os_op" where
  "set_var k v = modify (\<lambda>s. s\<lparr>env_vars := (env_vars s)(k \<mapsto> v)\<rparr>)"

text \<open>\<open>String::from_utf8_lossy(&output.stdout)\<close>, and whether a command ran and succeeded.\<close>

definition stdout_text :: "proc_output \<Rightarrow> string" where
  "stdout_text o' = from_utf8_lossy (po_stdout o')"

definition stderr_text :: "proc_output \<Rightarrow> string" where
  "stderr_text o' = from_utf8_lossy (po_stderr o')"

definition succeeded :: "string + proc_output \<Rightarrow> bool" where
  "succeeded r = (case r of Inl e \<Rightarrow> False | Inr out \<Rightarrow> po_success out)"

lemma run_run_command [run_simps, inv_simps]:
  "run_command cmd s = (Inr (cmd_result s (cmd_log s) cmd), s\<lparr>cmd_log := cmd_log s @ [cmd]\<rparr>)"
  by (simp add: run_command_def)

lemma run_send_request [run_simps, inv_simps]:
  "send_request r s = (Inr (http_reply s (length (http_log s)) r), s\<lparr>http_log := http_log s @ [r]\<rparr>)"
  by (simp add: send_request_def)

lemma run_file_op:
  "file_op f s = (case fs_fault s (fs_pos s) of
     Some e \<Rightarrow> (Inr (Inl e), s\<lparr>fs_pos := Suc (fs_pos s)\<rparr>)
   | None \<Rightarrow> (Inr (fst (f (s\<lparr>fs_pos := Suc (fs_pos s)\<rparr>))), snd (f (s\<lparr>fs_pos := Suc (fs_pos s)\<rparr>))))"
  by (simp add: file_op_def Let_def case_prod_beta split: option.split)

lemma run_build_client:
  "build_client s = (Inr (case client_fault s (length (http_log s)) of Some e \<Rightarrow> Inl e | None \<Rightarrow> Inr ()), s)"
  by (simp add: build_client_def run_gets)

definition no_fs_faults :: "'z os_st_scheme \<Rightarrow> bool" where
  "no_fs_faults s \<longleftrightarrow> (\<forall>n. fs_fault s n = None)"

definition demo_os :: os_st where
  "demo_os = app_st.extend demo_app
     \<lparr>files = Map.empty, file_modes = (\<lambda>p. 420), fs_fault = (\<lambda>n. None), fs_partial = (\<lambda>n. None), fs_pos = 0, env_vars = Map.empty,
      cmd_log = [], cmd_result = (\<lambda>log cmd. Inr \<lparr>po_success = True, po_stdout = [], po_stderr = []\<rparr>),
      http_log = [], http_reply = (\<lambda>n r. Inl ''refused''), client_fault = (\<lambda>n. None),
      exe_path = Inr ''/usr/local/bin/tpn-worker'', pid = 1, late_tasks = [], exit_code = None\<rparr>"

lemma demo_os_simps [simp]:
  "files demo_os = Map.empty" "fs_fault demo_os = (\<lambda>n. None)" "fs_pos demo_os = 0" "env_vars demo_os = Map.empty"
  "cmd_log demo_os = []" "cmd_result demo_os = (\<lambda>log cmd. Inr \<lparr>po_success = True, po_stdout = [], po_stderr = []\<rparr>)"
  "http_log demo_os = []" "http_reply demo_os = (\<lambda>n r. Inl ''refused'')" "file_modes demo_os = (\<lambda>p. 420)"
  "db_fault demo_os = (\<lambda>n. None)" "clock demo_os = (\<lambda>n. 1000 + int n)" "clock_pos demo_os = 0"
  "db_pos demo_os = 0" "lock_timeout demo_os = (\<lambda>n. False)" "lock_pos demo_os = 0" "ext demo_os = demo_ext"
  "rand_bytes demo_os = (\<lambda>n. replicate 32 (word_of_nat n))" "rand_below demo_os = (\<lambda>n k. n mod k)"
  "wg_configs demo_os = []" "socks_configs demo_os = []" "peers demo_os = Map.empty" "wg_calls demo_os = []"
  "wg_fault demo_os = (\<lambda>n. None)" "reg_log demo_os = []" "reg_seq demo_os = 0" "fs_partial demo_os = (\<lambda>n. None)" "client_fault demo_os = (\<lambda>n. None)"
  "exe_path demo_os = Inr ''/usr/local/bin/tpn-worker''" "pid demo_os = 1" "late_tasks demo_os = []" "exit_code demo_os = None"
  by (simp_all add: demo_os_def demo_app_def demo_wg_def demo_cred_def demo_db_def cred_st.defs db_st.defs wg_st.defs
      app_st.defs)

end
