(* ===== verification/Wg_Network.thy ===== *)
theory Wg_Network
  imports Os
begin

text \<open>
  The parts of \<open>src/src/wireguard/server.rs\<close> that run system commands: the check of the
  environment before start, the firewall and routing set-up, the start of the interface, and
  the probe of the public port; with them the firewall rule of \<open>src/src/main.rs\<close> for a TCP
  port.
\<close>

subsection \<open>Small commands\<close>

text \<open>\<open>.map(|o| o.status.success()).unwrap_or(false)\<close> on the result of a command.\<close>

definition command_ok :: "string list \<Rightarrow> ('z, bool) os_op" where
  "command_ok cmd = and_then (run_command cmd) (\<lambda>r. ok (succeeded r))"

definition run_ignored :: "string list \<Rightarrow> ('z, unit) os_op" where
  "run_ignored cmd = and_then (run_command cmd) (\<lambda>_. ok ())"

text \<open>\<open>.output().and_then(|o| if !o.status.success() { add } else { Ok(o) })\<close>: the second
  command runs only if the first one ran and reported failure.\<close>

definition add_unless :: "string list \<Rightarrow> string list \<Rightarrow> ('z, unit) os_op" where
  "add_unless check add =
     and_then (run_command check) (\<lambda>r.
     case r of
       Inl e \<Rightarrow> ok ()
     | Inr out \<Rightarrow> if \<not> po_success out then run_ignored add else ok ())"

subsection \<open>Preflight check\<close>

definition ensure_module :: "('z, unit) os_op" where
  "ensure_module =
     and_then (path_exists ''/sys/module/wireguard'') (\<lambda>present.
     if \<not> present then run_ignored [''modprobe'', ''wireguard''] else ok ())"

text \<open>\<open>create_dir_all\<close> makes a directory, which the model of files does not hold.\<close>

definition ensure_tun :: "('z, unit) os_op" where
  "ensure_tun =
     and_then (path_exists ''/dev/net/tun'') (\<lambda>present.
     if \<not> present then
       and_then (run_command [''mknod'', ''/dev/net/tun'', ''c'', ''10'', ''200'']) (\<lambda>r.
       case r of
         Inl e \<Rightarrow> err (Internal (''Failed to run mknod: '' @ e @ ''. Install with: apt-get install -y coreutils''))
       | Inr out \<Rightarrow>
           if po_success out then run_ignored [''chmod'', ''0666'', ''/dev/net/tun'']
           else err (Internal (''Failed to create /dev/net/tun: '' @ trim (stderr_text out))))
     else ok ())"

definition preflight_check :: "('z, unit) os_op" where
  "preflight_check =
     and_then ensure_module (\<lambda>_.
     and_then ensure_tun (\<lambda>_.
     and_then (run_command [''ip'', ''-V'']) (\<lambda>r.
     case r of
       Inl e \<Rightarrow> err (Internal ([CHR 0x60] @ ''ip'' @ [CHR 0x60] @ '' command not found. Install iproute2: apt-get install -y iproute2''))
     | Inr out \<Rightarrow> ok ())))"

subsection \<open>Routing and firewall\<close>

text \<open>The word after the first \<open>dev\<close> of a line, and the first line that has one.\<close>

fun word_after_dev :: "string list \<Rightarrow> string option" where
  "word_after_dev [] = None"
| "word_after_dev (w # ws) =
     (if w = ''dev'' then (case ws of [] \<Rightarrow> None | v # _ \<Rightarrow> Some v) else word_after_dev ws)"

fun first_some :: "('a \<Rightarrow> 'b option) \<Rightarrow> 'a list \<Rightarrow> 'b option" where
  "first_some f [] = None"
| "first_some f (x # xs) = (case f x of None \<Rightarrow> first_some f xs | Some y \<Rightarrow> Some y)"

definition parse_default_route :: "string \<Rightarrow> string option" where
  "parse_default_route s = first_some (\<lambda>l. word_after_dev (split_whitespace l)) (lines s)"

definition detect_default_interface :: "('z, string option) os_op" where
  "detect_default_interface =
     and_then (run_command [''ip'', ''route'', ''show'', ''default'']) (\<lambda>r.
     ok (case r of Inl e \<Rightarrow> None | Inr out \<Rightarrow> parse_default_route (stdout_text out)))"

definition masquerade_rule :: "string \<Rightarrow> string \<Rightarrow> string \<Rightarrow> string list" where
  "masquerade_rule flag subnet iface =
     [''iptables'', ''-t'', ''nat'', flag, ''POSTROUTING'', ''-s'', subnet, ''-o'', iface, ''-j'', ''MASQUERADE'']"

definition forward_in_rule :: "string \<Rightarrow> string \<Rightarrow> string list" where
  "forward_in_rule flag iface = [''iptables'', flag, ''FORWARD'', ''-i'', iface, ''-j'', ''ACCEPT'']"

definition forward_out_rule :: "string \<Rightarrow> string \<Rightarrow> string list" where
  "forward_out_rule flag iface =
     [''iptables'', flag, ''FORWARD'', ''-o'', iface, ''-m'', ''state'', ''--state'', ''ESTABLISHED,RELATED'', ''-j'', ''ACCEPT'']"

definition input_rule :: "string \<Rightarrow> string \<Rightarrow> u16 \<Rightarrow> string list" where
  "input_rule proto flag p =
     [''iptables'', flag, ''INPUT'', ''-p'', proto, ''--dport'', show_u16 p, ''-j'', ''ACCEPT'']"

text \<open>A check that could not run counts as \<open>rule absent\<close> here, unlike in \<open>add_unless\<close>.\<close>

definition ensure_masquerade :: "string \<Rightarrow> string \<Rightarrow> ('z, unit) os_op" where
  "ensure_masquerade subnet iface =
     and_then (command_ok (masquerade_rule ''-C'' subnet iface)) (\<lambda>rule_exists.
     if \<not> rule_exists then run_ignored (masquerade_rule ''-A'' subnet iface) else ok ())"

definition ensure_route :: "string \<Rightarrow> string \<Rightarrow> ('z, unit) os_op" where
  "ensure_route subnet iface =
     and_then (run_command [''ip'', ''route'', ''show'', subnet]) (\<lambda>r.
     let route_exists = (case r of Inl e \<Rightarrow> False | Inr out \<Rightarrow> trim (stdout_text out) \<noteq> []) in
     if \<not> route_exists then run_ignored [''ip'', ''route'', ''add'', subnet, ''dev'', iface] else ok ())"

definition setup_networking :: "wg_server \<Rightarrow> ('z, unit) os_op" where
  "setup_networking srv =
     (let wg_iface = ws_interface_name srv; subnet = show_ipv4 (ws_subnet_base srv) @ ''/24'' in
      and_then (write_file ''/proc/sys/net/ipv4/ip_forward'' ''1'') (\<lambda>_.
      and_then detect_default_interface (\<lambda>found.
      let outbound = unwrap_or ''eth0'' found in
      and_then (ensure_masquerade subnet outbound) (\<lambda>_.
      and_then (ensure_route subnet wg_iface) (\<lambda>_.
      and_then (add_unless (forward_in_rule ''-C'' wg_iface) (forward_in_rule ''-A'' wg_iface)) (\<lambda>_.
      and_then (add_unless (forward_out_rule ''-C'' wg_iface) (forward_out_rule ''-A'' wg_iface)) (\<lambda>_.
      add_unless (input_rule ''udp'' ''-C'' (ws_listen_port srv)) (input_rule ''udp'' ''-A'' (ws_listen_port srv)))))))))"

definition start_server :: "wg_server \<Rightarrow> ('z, unit) os_op" where
  "start_server srv = and_then (create_interface srv) (\<lambda>_. setup_networking srv)"

definition ensure_tcp_input_accept :: "u16 \<Rightarrow> ('z, unit) os_op" where
  "ensure_tcp_input_accept p =
     and_then (command_ok (input_rule ''tcp'' ''-C'' p)) (\<lambda>rule_exists.
     if rule_exists then ok () else run_ignored (input_rule ''tcp'' ''-A'' p))"

subsection \<open>Reachability of the public port\<close>

definition public_udp_reachable :: "wg_server \<Rightarrow> ('z, bool) os_op" where
  "public_udp_reachable srv =
     (if trim (ws_endpoint_host srv) = [] then ok False
      else
        and_then (run_command [''nc'', ''-vzu'', ''-w'', ''10'', ws_endpoint_host srv, show_u16 (ws_listen_port srv)]) (\<lambda>r.
        ok (case r of
              Inl e \<Rightarrow> False
            | Inr out \<Rightarrow> contains_str ''succeeded'' (stdout_text out @ '' '' @ stderr_text out))))"

text \<open>
  \<open>wait_for_public_udp_reachability\<close> reads the monotonic clock before each probe and stops when
  the allowed time has passed. The loop ends only if the clock goes on, so it carries fuel;
  enough fuel is stated at the end for a clock that gains five seconds (the pause
  between two probes) per round.
\<close>

fun reach_loop :: "nat \<Rightarrow> wg_server \<Rightarrow> int \<Rightarrow> nat \<Rightarrow> ('z, bool option) os_op" where
  "reach_loop 0 srv started max_wait_ms = ok None"
| "reach_loop (Suc fuel) srv started max_wait_ms =
     and_then instant_now (\<lambda>now.
     if max 0 (now - started) div 1000000 < int max_wait_ms then
       and_then (public_udp_reachable srv) (\<lambda>reached.
       if reached then ok (Some True) else reach_loop fuel srv started max_wait_ms)
     else ok (Some False))"

definition wait_for_public_udp_reachability :: "nat \<Rightarrow> wg_server \<Rightarrow> nat \<Rightarrow> ('z, bool option) os_op" where
  "wait_for_public_udp_reachability fuel srv max_wait_ms =
     and_then instant_now (\<lambda>started. reach_loop fuel srv started max_wait_ms)"

subsection \<open>Firewall rules\<close>

text \<open>The four rules the worker asks for, with the commands that check and add them.\<close>

datatype fw_rule = Masquerade string string | Forward_in string | Forward_out string | Input string u16

fun rule_cmd :: "string \<Rightarrow> fw_rule \<Rightarrow> string list" where
  "rule_cmd flag (Masquerade subnet iface) = masquerade_rule flag subnet iface"
| "rule_cmd flag (Forward_in iface) = forward_in_rule flag iface"
| "rule_cmd flag (Forward_out iface) = forward_out_rule flag iface"
| "rule_cmd flag (Input proto p) = input_rule proto flag p"

definition wanted_rules :: "wg_server \<Rightarrow> string \<Rightarrow> fw_rule list" where
  "wanted_rules srv outbound =
     [Masquerade (show_ipv4 (ws_subnet_base srv) @ ''/24'') outbound, Forward_in (ws_interface_name srv),
      Forward_out (ws_interface_name srv), Input ''udp'' (ws_listen_port srv)]"

text \<open>
  \<open>iptables\<close>: a check runs, and succeeds exactly if the rule was there from the beginning or has
  been added since.
\<close>

definition firewall_ok :: "(fw_rule \<Rightarrow> bool) \<Rightarrow> 'z os_st_scheme \<Rightarrow> bool" where
  "firewall_ok preset s \<longleftrightarrow>
     (\<forall>log r. (\<exists>out. cmd_result s log (rule_cmd ''-C'' r) = Inr out) \<and>
        (succeeded (cmd_result s log (rule_cmd ''-C'' r)) \<longleftrightarrow> preset r \<or> rule_cmd ''-A'' r \<in> set log))"

lemma show_u16_inject [simp]: "show_u16 p = show_u16 q \<longleftrightarrow> p = q"
  by (auto simp: show_u16_def intro: unsigned_word_eqI)

lemmas rule_defs = masquerade_rule_def forward_in_rule_def forward_out_rule_def input_rule_def

lemma rule_cmd_inject: "rule_cmd f q = rule_cmd g r \<longleftrightarrow> f = g \<and> q = r"
  by (cases q; cases r) (auto simp: rule_defs)

text \<open>Every rule is in place, and none was added that was there already or twice.\<close>

definition added :: "string list list \<Rightarrow> fw_rule \<Rightarrow> nat" where
  "added log r = count_list log (rule_cmd ''-A'' r)"

definition tidy :: "(fw_rule \<Rightarrow> bool) \<Rightarrow> string list list \<Rightarrow> bool" where
  "tidy preset log \<longleftrightarrow> (\<forall>r. added log r \<le> (if preset r then 0 else 1))"

lemma added_Nil [simp]: "added [] r = 0"
  and added_append [simp]: "added (xs @ ys) r = added xs r + added ys r"
  by (simp_all add: added_def)

lemma added_rule [simp]: "added [rule_cmd f q] r = (if f = ''-A'' \<and> q = r then 1 else 0)"
  by (auto simp: added_def rule_cmd_inject)

lemma added_pos: "rule_cmd ''-A'' r \<in> set log \<longleftrightarrow> 0 < added log r"
  by (metis added_def count_list_0_iff not_gr_zero)

text \<open>
  \<open>fw_after preset s t rs\<close>: between \<open>s\<close> and \<open>t\<close> commands were added to the log, the rules \<open>rs\<close> are in
  place now, and the log is still tidy.
\<close>

definition fw_after :: "(fw_rule \<Rightarrow> bool) \<Rightarrow> 'z os_st_scheme \<Rightarrow> 'z os_st_scheme \<Rightarrow> fw_rule list \<Rightarrow> bool" where
  "fw_after preset s t rs \<longleftrightarrow>
     cmd_result t = cmd_result s \<and> (\<exists>new. cmd_log t = cmd_log s @ new) \<and>
     (tidy preset (cmd_log s) \<longrightarrow> tidy preset (cmd_log t)) \<and>
     (\<forall>r \<in> set rs. preset r \<or> rule_cmd ''-A'' r \<in> set (cmd_log t))"

lemma fw_after_trans: "fw_after preset s t rs \<Longrightarrow> fw_after preset t u qs \<Longrightarrow> fw_after preset s u (rs @ qs)"
  by (auto simp: fw_after_def)

lemma firewall_ok_after: "firewall_ok preset s \<Longrightarrow> fw_after preset s t rs \<Longrightarrow> firewall_ok preset t"
  by (simp add: firewall_ok_def fw_after_def)

lemma fw_after_step:
  assumes "firewall_ok preset s" and "\<exists>t. m s = (Inr x, t) \<and> fw_after preset s t rs"
    and "\<And>t. firewall_ok preset t \<Longrightarrow> \<exists>u. k x t = (Inr y, u) \<and> fw_after preset t u qs"
  shows "\<exists>u. and_then m k s = (Inr y, u) \<and> fw_after preset s u (rs @ qs)"
proof -
  obtain t where t: "m s = (Inr x, t)" "fw_after preset s t rs" using assms(2) by blast
  obtain u where u: "k x t = (Inr y, u)" "fw_after preset t u qs"
    using assms(3) [OF firewall_ok_after [OF assms(1) t(2)]] by blast
  from t u fw_after_trans [OF t(2) u(2)] show ?thesis by (simp add: run_and_then)
qed

lemma tidy_grow:
  assumes "tidy preset log" and "ok' \<longleftrightarrow> preset r \<or> rule_cmd ''-A'' r \<in> set log"
  shows "tidy preset (log @ (if ok' then [rule_cmd ''-C'' r] else [rule_cmd ''-C'' r, rule_cmd ''-A'' r]))"
  unfolding tidy_def
proof
  fix q
  have "added log q \<le> (if preset q then 0 else 1)" using assms(1) by (simp add: tidy_def)
  then show "added (log @ (if ok' then [rule_cmd ''-C'' r] else [rule_cmd ''-C'' r, rule_cmd ''-A'' r])) q
      \<le> (if preset q then 0 else 1)"
    using assms(2) added_append [of "[rule_cmd ''-C'' r]" "[rule_cmd ''-A'' r]" q]
    by (auto simp: added_pos split: if_splits)
qed

lemma ensure_rule:
  assumes "firewall_ok preset s"
  shows "\<exists>t. add_unless (rule_cmd ''-C'' r) (rule_cmd ''-A'' r) s = (Inr (), t) \<and> fw_after preset s t [r]"
    and "\<exists>t. and_then (command_ok (rule_cmd ''-C'' r))
           (\<lambda>there. if \<not> there then run_ignored (rule_cmd ''-A'' r) else ok ()) s = (Inr (), t) \<and> fw_after preset s t [r]"
proof -
  obtain out where out: "cmd_result s (cmd_log s) (rule_cmd ''-C'' r) = Inr out"
    and there: "po_success out \<longleftrightarrow> preset r \<or> rule_cmd ''-A'' r \<in> set (cmd_log s)"
    using assms(1) by (metis firewall_ok_def succeeded_def sum.simps(6))
  let ?t = "s\<lparr>cmd_log := cmd_log s @ (if po_success out then [rule_cmd ''-C'' r] else [rule_cmd ''-C'' r, rule_cmd ''-A'' r])\<rparr>"
  have "fw_after preset s ?t [r]"
    using there tidy_grow [of preset, OF _ there] by (auto simp: fw_after_def)
  moreover have "add_unless (rule_cmd ''-C'' r) (rule_cmd ''-A'' r) s = (Inr (), ?t)"
    "and_then (command_ok (rule_cmd ''-C'' r)) (\<lambda>there. if \<not> there then run_ignored (rule_cmd ''-A'' r) else ok ()) s = (Inr (), ?t)"
    using out by (auto simp: add_unless_def command_ok_def run_ignored_def succeeded_def seq_simps run_simps)
  ultimately show "\<exists>t. add_unless (rule_cmd ''-C'' r) (rule_cmd ''-A'' r) s = (Inr (), t) \<and> fw_after preset s t [r]"
    "\<exists>t. and_then (command_ok (rule_cmd ''-C'' r))
           (\<lambda>there. if \<not> there then run_ignored (rule_cmd ''-A'' r) else ok ()) s = (Inr (), t) \<and> fw_after preset s t [r]"
    by blast+
qed

lemma ensure_masquerade_rule:
  "firewall_ok preset s \<Longrightarrow>
   \<exists>t. ensure_masquerade subnet iface s = (Inr (), t) \<and> fw_after preset s t [Masquerade subnet iface]"
  using ensure_rule(2) [of preset s "Masquerade subnet iface"] by (simp only: ensure_masquerade_def rule_cmd.simps)

text \<open>Commands of other programs leave the firewall alone.\<close>

lemma added_other [simp]: "p \<noteq> ''iptables'' \<Longrightarrow> added [p # args] r = 0"
  by (cases r) (simp_all add: added_def rule_defs)

lemma fw_after_other:
  "p \<noteq> ''iptables'' \<Longrightarrow> fw_after preset s (s\<lparr>cmd_log := cmd_log s @ [p # args]\<rparr>) []"
  by (auto simp: fw_after_def tidy_def)

lemma route_quiet: "\<exists>t. ensure_route subnet iface s = (Inr (), t) \<and> fw_after preset s t []"
proof -
  let ?show = "[''ip'', ''route'', ''show'', subnet]" and ?add = "[''ip'', ''route'', ''add'', subnet, ''dev'', iface]"
  let ?t = "s\<lparr>cmd_log := cmd_log s @ [?show]\<rparr>"
  let ?u = "?t\<lparr>cmd_log := cmd_log ?t @ [?add]\<rparr>"
  have "fw_after preset s ?t []" "fw_after preset ?t ?u []" by (rule fw_after_other, simp)+
  then have "fw_after preset s ?t []" "fw_after preset s ?u []" using fw_after_trans by force+
  moreover have "ensure_route subnet iface s = (Inr (), ?t) \<or> ensure_route subnet iface s = (Inr (), ?u)"
    by (simp add: ensure_route_def run_ignored_def Let_def seq_simps run_simps)
  ultimately show ?thesis by blast
qed

definition default_interface :: "'z os_st_scheme \<Rightarrow> string" where
  "default_interface s =
     (case cmd_result s (cmd_log s) [''ip'', ''route'', ''show'', ''default''] of
        Inl e \<Rightarrow> ''eth0'' | Inr out \<Rightarrow> unwrap_or ''eth0'' (parse_default_route (stdout_text out)))"

lemma write_file_quiet:
  "\<exists>r t. write_file p c s = (Inr r, t) \<and> cmd_log t = cmd_log s \<and> cmd_result t = cmd_result s"
  by (auto simp: write_file_def leave_partial_def run_file_op seq_simps run_simps split: option.split sum.split)

text \<open>C24: With an \<open>iptables\<close> that checks and adds rules truthfully, the set-up leaves every rule the
  VPN needs in place - masquerading on the interface of the default route, both forwarding
  directions and the UDP port - and adds no rule that was there before the start or that the worker
  has already added, however often it runs.\<close>

theorem firewall_rules_in_place:
  assumes "firewall_ok preset s" and "tidy preset (cmd_log s)"
  shows "\<exists>t. setup_networking srv s = (Inr (), t) \<and> firewall_ok preset t \<and> tidy preset (cmd_log t) \<and>
     (\<forall>r \<in> set (wanted_rules srv (default_interface s)). preset r \<or> rule_cmd ''-A'' r \<in> set (cmd_log t))"
proof -
  let ?out = "default_interface s" and ?net = "show_ipv4 (ws_subnet_base srv) @ ''/24''"
  obtain w a where a: "write_file ''/proc/sys/net/ipv4/ip_forward'' ''1'' s = (Inr w, a)"
    "cmd_log a = cmd_log s" "cmd_result a = cmd_result s" using write_file_quiet by blast
  let ?b = "a\<lparr>cmd_log := cmd_log a @ [[''ip'', ''route'', ''show'', ''default'']]\<rparr>"
  have b: "unwrap_or ''eth0'' (case cmd_result a (cmd_log a) [''ip'', ''route'', ''show'', ''default''] of
       Inl e \<Rightarrow> None | Inr out \<Rightarrow> parse_default_route (stdout_text out)) = ?out"
    using a by (simp add: default_interface_def unwrap_or_def split: sum.split)
  have "fw_after preset a ?b []" using fw_after_other [of "''ip''"] by blast
  then have sb: "fw_after preset s ?b []" using a by (simp add: fw_after_def)
  then have ok: "firewall_ok preset ?b" using assms(1) firewall_ok_after by blast
  have "\<exists>t. and_then (ensure_masquerade ?net ?out) (\<lambda>_.
      and_then (ensure_route ?net (ws_interface_name srv)) (\<lambda>_.
      and_then (add_unless (rule_cmd ''-C'' (Forward_in (ws_interface_name srv))) (rule_cmd ''-A'' (Forward_in (ws_interface_name srv)))) (\<lambda>_.
      and_then (add_unless (rule_cmd ''-C'' (Forward_out (ws_interface_name srv))) (rule_cmd ''-A'' (Forward_out (ws_interface_name srv)))) (\<lambda>_.
      add_unless (rule_cmd ''-C'' (Input ''udp'' (ws_listen_port srv))) (rule_cmd ''-A'' (Input ''udp'' (ws_listen_port srv))))))) ?b =
      (Inr (), t) \<and> fw_after preset ?b t ([Masquerade ?net ?out] @ [] @ [Forward_in (ws_interface_name srv)] @
        [Forward_out (ws_interface_name srv)] @ [Input ''udp'' (ws_listen_port srv)])"
    by (rule fw_after_step, rule ok, rule ensure_masquerade_rule, rule ok, rule fw_after_step, assumption, rule route_quiet,
        (rule fw_after_step, assumption, rule ensure_rule(1), assumption)+, rule ensure_rule(1), assumption)
  then obtain t where t: "setup_networking srv s = (Inr (), t)" "fw_after preset ?b t (wanted_rules srv ?out)"
    using a(1) b by (auto simp: setup_networking_def wanted_rules_def Let_def detect_default_interface_def seq_simps run_simps)
  with sb have "fw_after preset s t (wanted_rules srv ?out)" using fw_after_trans by force
  then show ?thesis using t(1) assms firewall_ok_after [OF assms(1)] by (auto simp: fw_after_def)
qed

text \<open>An \<open>iptables\<close> that remembers the rules it was given; one was there from the start.\<close>

definition as_add :: "string list \<Rightarrow> string list" where
  "as_add cmd = (if cmd ! 1 = ''-C'' then cmd[1 := ''-A''] else cmd[3 := ''-A''])"

definition demo_iptables :: "string list list \<Rightarrow> string list \<Rightarrow> string + proc_output" where
  "demo_iptables log cmd =
     Inr \<lparr>po_success = (cmd = rule_cmd ''-C'' (Forward_in ''wg0'') \<or> as_add cmd \<in> set log), po_stdout = [], po_stderr = []\<rparr>"

lemma demo_iptables_ok: "firewall_ok (\<lambda>r. r = Forward_in ''wg0'') (s\<lparr>cmd_result := demo_iptables\<rparr>)"
proof -
  have "as_add (rule_cmd ''-C'' r) = rule_cmd ''-A'' r" for r by (cases r) (simp_all add: as_add_def rule_defs)
  then show ?thesis
    by (simp add: firewall_ok_def demo_iptables_def succeeded_def rule_cmd_inject del: rule_cmd.simps)
qed

theorem firewall_rules_in_place_witness:
  "\<exists>t. setup_networking demo_server (demo_os\<lparr>cmd_result := demo_iptables\<rparr>) = (Inr (), t) \<and>
     rule_cmd ''-A'' (Forward_out ''wg0'') \<in> set (cmd_log t) \<and> rule_cmd ''-A'' (Forward_in ''wg0'') \<notin> set (cmd_log t)"
proof -
  have if0: "ws_interface_name demo_server = ''wg0''" by (simp add: demo_server_def)
  obtain t where t: "setup_networking demo_server (demo_os\<lparr>cmd_result := demo_iptables\<rparr>) = (Inr (), t)"
    "tidy (\<lambda>r. r = Forward_in ''wg0'') (cmd_log t)"
    "\<forall>r \<in> set (wanted_rules demo_server (default_interface (demo_os\<lparr>cmd_result := demo_iptables\<rparr>))).
       r = Forward_in ''wg0'' \<or> rule_cmd ''-A'' r \<in> set (cmd_log t)"
    using firewall_rules_in_place [OF demo_iptables_ok [of demo_os], of demo_server] by (auto simp: tidy_def)
  then have "rule_cmd ''-A'' (Forward_out ''wg0'') \<in> set (cmd_log t)" by (simp add: wanted_rules_def if0)
  moreover have "\<not> 0 < added (cmd_log t) (Forward_in ''wg0'')" using t(2) by (auto simp: tidy_def dest: spec [of _ "Forward_in ''wg0''"])
  ultimately show ?thesis using t(1) by (simp only: added_pos) blast
qed

subsection \<open>The wait for the public port ends\<close>

text \<open>Each round of the loop reads the clock once, at least five seconds after the round before.\<close>

definition pauses :: "'z os_st_scheme \<Rightarrow> bool" where
  "pauses s \<longleftrightarrow> (\<forall>n. instant s n + 5000000000 \<le> instant s (Suc n))"

text \<open>The last command that ran was the probe, and it reported success.\<close>

definition probe_answered :: "wg_server \<Rightarrow> 'z os_st_scheme \<Rightarrow> bool" where
  "probe_answered srv t \<longleftrightarrow>
     (\<exists>log out. cmd_log t = log @ [[''nc'', ''-vzu'', ''-w'', ''10'', ws_endpoint_host srv, show_u16 (ws_listen_port srv)]] \<and>
        cmd_result t log (last (cmd_log t)) = Inr out \<and>
        contains_str ''succeeded'' (stdout_text out @ '' '' @ stderr_text out))"

lemma probe_run:
  "\<exists>b t. public_udp_reachable srv s = (Inr b, t) \<and> instant t = instant s \<and> instant_pos t = instant_pos s \<and>
     length (cmd_log t) \<le> Suc (length (cmd_log s)) \<and> (b \<longrightarrow> probe_answered srv t)"
proof (cases "trim (ws_endpoint_host srv) = []")
  case True
  then show ?thesis by (auto simp: public_udp_reachable_def run_simps intro: exI [of _ False])
next
  case False
  let ?nc = "[''nc'', ''-vzu'', ''-w'', ''10'', ws_endpoint_host srv, show_u16 (ws_listen_port srv)]"
  let ?t = "s\<lparr>cmd_log := cmd_log s @ [?nc]\<rparr>"
  have "public_udp_reachable srv s = (Inr (probe_answered srv ?t), ?t)"
    using False by (auto simp: public_udp_reachable_def probe_answered_def seq_simps run_simps split: sum.splits)
  then show ?thesis by simp
qed

lemma reach_loop_ends:
  assumes "pauses s" and "started + int max_wait_ms * 1000000 \<le> instant s (instant_pos s) + int fuel * 5000000000"
  shows "\<exists>b t. reach_loop (Suc fuel) srv started max_wait_ms s = (Inr (Some b), t) \<and>
           length (cmd_log t) \<le> length (cmd_log s) + fuel \<and> (b \<longrightarrow> probe_answered srv t)"
  using assms
proof (induction fuel arbitrary: s)
  case 0
  then have "int max_wait_ms * 1000000 \<le> max 0 (instant s (instant_pos s) - started)" by simp
  then have "int max_wait_ms \<le> max 0 (instant s (instant_pos s) - started) div 1000000"
    using zdiv_mono1 [of "int max_wait_ms * 1000000" "max 0 (instant s (instant_pos s) - started)" 1000000] by simp
  then show ?case by (auto simp: seq_simps run_simps intro: exI [of _ False])
next
  case (Suc fuel)
  let ?s = "s\<lparr>instant_pos := Suc (instant_pos s)\<rparr>"
  obtain b t where t: "public_udp_reachable srv ?s = (Inr b, t)" "instant t = instant s" "instant_pos t = Suc (instant_pos s)"
    "length (cmd_log t) \<le> Suc (length (cmd_log s))" "b \<longrightarrow> probe_answered srv t"
    using probe_run [of srv ?s] by auto
  have "instant s (instant_pos s) + 5000000000 \<le> instant s (Suc (instant_pos s))"
    using Suc.prems(1) by (simp add: pauses_def)
  then have "started + int max_wait_ms * 1000000 \<le> instant s (Suc (instant_pos s)) + int fuel * 5000000000"
    using Suc.prems(2) by simp
  then have "\<exists>b u. reach_loop (Suc fuel) srv started max_wait_ms t = (Inr (Some b), u) \<and>
      length (cmd_log u) \<le> length (cmd_log t) + fuel \<and> (b \<longrightarrow> probe_answered srv u)"
    using Suc.prems t(2,3) by (intro Suc.IH) (simp_all add: pauses_def)
  then obtain c u where u: "reach_loop (Suc fuel) srv started max_wait_ms t = (Inr (Some c), u)"
    "length (cmd_log u) \<le> length (cmd_log t) + fuel" "c \<longrightarrow> probe_answered srv u" by blast
  have "reach_loop (Suc (Suc fuel)) srv started max_wait_ms s =
     (if max 0 (instant s (instant_pos s) - started) div 1000000 < int max_wait_ms
      then if b then (Inr (Some True), t) else (Inr (Some c), u) else (Inr (Some False), ?s))"
    using t(1) u(1) by (simp add: reach_loop.simps(2) [of "Suc fuel"] seq_simps run_simps del: reach_loop.simps)
  then show ?case using t(4,5) u(2,3) by (auto split: if_splits)
qed

text \<open>C35: The wait for the public UDP port always ends: with a clock that gains the five seconds the
  worker sleeps between two probes, \<open>max_wait_ms / 5000 + 1\<close> rounds are enough for any answer of the
  probe. It makes no more probes than that, and the answer is yes only if the last probe, the last command
  the worker ran, reported success.\<close>

theorem reachability_wait_ends:
  assumes "pauses s" and "max_wait_ms \<le> 5000 * fuel"
  shows "\<exists>b t. wait_for_public_udp_reachability (Suc fuel) srv max_wait_ms s = (Inr (Some b), t) \<and>
           length (cmd_log t) \<le> length (cmd_log s) + fuel \<and> (b \<longrightarrow> probe_answered srv t)"
proof -
  let ?s = "s\<lparr>instant_pos := Suc (instant_pos s)\<rparr>"
  have "instant s (instant_pos s) + 5000000000 \<le> instant s (Suc (instant_pos s))" using assms(1) by (simp add: pauses_def)
  then have "instant s (instant_pos s) + int max_wait_ms * 1000000 \<le> instant ?s (instant_pos ?s) + int fuel * 5000000000"
    using assms(2) by simp
  then show ?thesis
    using reach_loop_ends [of ?s "instant s (instant_pos s)"] assms(1)
    by (simp add: wait_for_public_udp_reachability_def pauses_def run_simps seq_simps del: reach_loop.simps)
qed

theorem reachability_wait_ends_witness:
  "\<exists>b t. wait_for_public_udp_reachability 7 demo_server 30000 (demo_os\<lparr>instant := \<lambda>n. 6000000000 * int n\<rparr>) =
     (Inr (Some b), t) \<and> length (cmd_log t) \<le> 6"
  using reachability_wait_ends [of "demo_os\<lparr>instant := \<lambda>n. 6000000000 * int n\<rparr>" 30000 6 demo_server]
  by (auto simp: pauses_def)

end
