(* ===== verification/Table_Invariant.thy ===== *)
theory Table_Invariant
  imports Wg_Network
begin

text \<open>
  What it takes for a property of the whole state to survive the operations that lease, extend and
  clean up. An operation on a table only ever changes it by functions that keep the keys (and, for
  the credentials, the passwords); the locale \<open>table_invariant\<close> asks that a property is kept by
  such functions and does not see the environment, and proves that it is kept by the composite
  operations, on every error path.
\<close>

subsection \<open>Functions that keep the keys\<close>

definition wg_keys_kept :: "(wg_row list \<Rightarrow> wg_row list) \<Rightarrow> bool" where
  "wg_keys_kept f \<longleftrightarrow> (\<forall>rows. distinct (map wg_id rows) \<longrightarrow> distinct (map wg_id (f rows)))"

definition sock_keys_kept :: "(socks5_config list \<Rightarrow> socks5_config list) \<Rightarrow> bool" where
  "sock_keys_kept f \<longleftrightarrow>
     (\<forall>rows. map sock_id (f rows) = map sock_id rows \<and>
        map (\<lambda>r. (username r, password r)) (f rows) = map (\<lambda>r. (username r, password r)) rows)"

lemma sock_keys_keptD:
  assumes "sock_keys_kept f"
  shows "map sock_id (f rows) = map sock_id rows" "map username (f rows) = map username rows"
    "sock_password (f rows) = sock_password rows"
    "(\<lambda>r. (username r, password r)) ` set (f rows) = (\<lambda>r. (username r, password r)) ` set rows"
proof -
  have k: "map (\<lambda>r. (username r, password r)) (f rows) = map (\<lambda>r. (username r, password r)) rows"
    using assms by (simp add: sock_keys_kept_def)
  show "map sock_id (f rows) = map sock_id rows" using assms by (simp add: sock_keys_kept_def)
  show "map username (f rows) = map username rows" using arg_cong [OF k, of "map fst"] by (simp add: comp_def)
  show "sock_password (f rows) = sock_password rows" by (simp add: sock_password_def key_map_def k)
  show "(\<lambda>r. (username r, password r)) ` set (f rows) = (\<lambda>r. (username r, password r)) ` set rows"
    using arg_cong [OF k, of set] by simp
qed

lemma wg_keys_kept [simp]:
  "wg_keys_kept (upsert_lease i e u)" "wg_keys_kept (delete_expired n)" "wg_keys_kept (delete_lease i x)"
  "wg_keys_kept (extend_rows i y w n u)" "wg_keys_kept (set_peer_keys i a b c d)"
  by (simp_all add: wg_keys_kept_def wg_distinct delete_expired_def delete_lease_def set_peer_keys_def comp_def
      if_distrib [of wg_id] cong: if_cong)

lemma sock_keys_kept [simp]:
  "sock_keys_kept (touch_lease e n u)" "sock_keys_kept (take_exclusive e n u p)"
  "sock_keys_kept (extend_socks u x w n)" "sock_keys_kept (release_expired n)"
  by (simp_all add: sock_keys_kept_def touch_lease_def take_exclusive_def extend_socks_def release_expired_def)

text \<open>
  The locale \<open>lease_invariant\<close> asks for the operations on the WireGuard table as wholes, so it also fits properties that
  relate the rows of the table to the peers in memory; \<open>table_invariant\<close> gets them from the
  functions on the rows.
\<close>

locale env_invariant =
  fixes I :: "'z wg_st_scheme \<Rightarrow> bool"
  assumes env: "env_blind I"

locale lease_invariant = env_invariant I for I :: "'z wg_st_scheme \<Rightarrow> bool" and srv :: "wg_server option" +
  assumes registers: "keeps I (register_wireguard_lease 1 (uint (m :: u16)) e)"
    and allocates: "srv = Some w \<Longrightarrow> keeps I (allocate_peer w 1 (uint (m :: u16)) e)"
    and extends: "keeps I (extend_wireguard_lease i x n)"
    and cleans: "keeps I (database_cleanup cfg srv)"
    and shuts_down: "keeps I shutdown"
    and socks_rows: "I s \<Longrightarrow> sock_keys_kept g \<Longrightarrow> I (update_socks g s)"
begin

lemma keeps_socks: "keeps I (ensure_available k)" "keeps I (get_socks5_config e pr k)"
  unfolding ensure_available_def get_socks5_config_def get_socks5_config_priority_def get_socks5_config_non_priority_def
    find_exclusive_def cleanup_expired_socks5_configs_def count_available_socks_def Let_def
  by (intro keeps_rules env; simp add: socks_rows)+

lemma keeps_extend_socks: "keeps I (extend_socks5_lease u x n)"
  unfolding extend_socks5_lease_def by (intro keeps_rules env) (simp add: socks_rows)

lemma keeps_ok_or_then: "(\<And>x. z = Some x \<Longrightarrow> keeps I (f x)) \<Longrightarrow> keeps I (and_then (ok_or e z) f)"
  by (cases z) (simp_all add: keeps_def ok_or_def seq_simps run_simps)

lemma keeps_allocate_wireguard: "keeps I (allocate_wireguard cfg srv secs fmt)"
  unfolding allocate_wireguard_def Let_def
  by (intro keeps_if keeps_and_then [OF keeps_now_ms] keeps_and_then [OF registers] keeps_ok env keeps_ok_or_then
      keeps_and_then [OF allocates] keeps_case_prod)

lemma keeps_get_worker_config: "keeps I (get_worker_config cfg srv ty secs pr fmt r x)"
  unfolding get_worker_config_def allocate_socks5_def extend_wireguard_def extend_socks5_def
    get_client_config_def read_socks5_config_by_username_def Let_def
  by (intro keeps_rules env keeps_allocate_wireguard keeps_socks extends keeps_extend_socks; simp)

lemma keeps_open_leases: "keeps I check_open_leases" "keeps I (count_available_socks k)"
  "keeps I (recent_registrations n)"
  unfolding check_open_leases_def count_available_socks_def recent_registrations_def
  by (intro keeps_rules env; simp)+

end

locale table_invariant =
  fixes I :: "'z wg_st_scheme \<Rightarrow> bool"
  assumes blind: "wg_blind I"
    and wg_table: "I s \<Longrightarrow> wg_keys_kept f \<Longrightarrow> I (update_wg f s)"
    and socks_table: "I s \<Longrightarrow> sock_keys_kept g \<Longrightarrow> I (update_socks g s)"
    and ts_table: "I s \<Longrightarrow> I (s\<lparr>ts_rows := rows\<rparr>)"
begin

lemma env_blind: "env_blind I"
  by (rule wg_blindD [OF blind])

lemma keeps_register: "keeps I (register_wireguard_lease a b e)"
  unfolding register_wireguard_lease_def register_unlocked_def try_allocate_def cleanup_expired_wireguard_configs_def
  by (intro keeps_rules env_blind) (simp_all add: wg_table)

lemma keeps_allocate: "keeps I (allocate_peer srv a b e)"
  unfolding allocate_peer_def mark_config_as_free_def store_peer_keys_def Let_def
  by (intro keeps_rules env_blind blind keeps_register) (simp_all add: wg_table)

lemma keeps_extend: "keeps I (extend_wireguard_lease i x n)"
  unfolding extend_wireguard_lease_def by (intro keeps_rules env_blind; simp add: wg_table)

lemma keeps_cleanup: "keeps I (database_cleanup cfg srv)"
  unfolding database_cleanup_def cleanup_timestamps_def cleanup_leases_def remove_expired_peers_def expired_peer_ids_def
    remove_peers_def
  by (intro keeps_rules env_blind blind) (simp_all add: wg_table ts_table)

lemma keeps_shutdown: "keeps I shutdown"
  unfolding shutdown_def by (intro keeps_rules blind)

end

sublocale table_invariant \<subseteq> lease_invariant I srv for srv
  by unfold_locales (simp_all add: env_blind keeps_register keeps_allocate keeps_extend keeps_cleanup keeps_shutdown socks_table)

end
