(* ===== verification/Mining_Pool.thy ===== *)
theory Mining_Pool
  imports Table_Invariant
begin

text \<open>
  Registration with the mining pool, \<open>src/src/service/mining_pool.rs\<close>: the payload with a
  short lease of each kind, the request, and what is made of the answer.
\<close>

subsection \<open>The payload\<close>

definition base_worker :: "config \<Rightarrow> json" where
  "base_worker cfg =
     JObj [(''mining_pool_url'', JStr (effective_mining_pool_url cfg)), (''public_url'', JStr (base_url cfg)),
           (''public_port'', JInt (uint (server_port cfg))),
           (''payment_address_evm'', JStr (payment_address_evm cfg)),
           (''payment_address_bittensor'', JStr (payment_address_bittensor cfg))]"

text \<open>\<open>if let Some(text) = lease.config_text { worker[key] = text }\<close>; an error is only logged.\<close>

definition attach :: "string \<Rightarrow> app_error + lease_result \<Rightarrow> json \<Rightarrow> json" where
  "attach key r worker =
     (case r of
        Inl e \<Rightarrow> worker
      | Inr lease \<Rightarrow> (case lr_text lease of None \<Rightarrow> worker | Some txt \<Rightarrow> json_set key (JStr txt) worker))"

definition probe_lease :: "config \<Rightarrow> wg_server option \<Rightarrow> string \<Rightarrow> string \<Rightarrow> json \<Rightarrow> ('z, json) os_op" where
  "probe_lease cfg srv ty key worker =
     and_then (attempt (get_worker_config cfg srv ty 120 False ''text'' None None)) (\<lambda>r.
     ok (attach key r worker))"

definition attach_wireguard :: "config \<Rightarrow> wg_server option \<Rightarrow> json \<Rightarrow> ('z, json) os_op" where
  "attach_wireguard cfg srv worker =
     and_then (case srv of None \<Rightarrow> ok False | Some w \<Rightarrow> public_udp_reachable w) (\<lambda>ready.
     if srv \<noteq> None \<and> \<not> ready then ok worker
     else probe_lease cfg srv ''wireguard'' ''wireguard_config'' worker)"

definition attach_socks5 :: "config \<Rightarrow> wg_server option \<Rightarrow> json \<Rightarrow> ('z, json) os_op" where
  "attach_socks5 cfg srv worker = probe_lease cfg srv ''socks5'' ''socks5_config'' worker"

subsection \<open>The answer\<close>

definition registered_in :: "json \<Rightarrow> bool" where
  "registered_in j =
     unwrap_or False
       (case Option.bind (json_get ''registered'' j) as_bool of
          Some b \<Rightarrow> Some b
        | None \<Rightarrow> Option.bind (json_get ''success'' j) as_bool)"

definition error_in :: "json \<Rightarrow> string" where
  "error_in j = unwrap_or [] (Option.bind (json_get ''error'' j) as_str)"

definition prefix_err :: "string \<Rightarrow> string + 'a \<Rightarrow> ('z, 'a) os_op" where
  "prefix_err m r = of_result (case r of Inl e \<Rightarrow> Inl (Internal (m @ '': '' @ e)) | Inr x \<Rightarrow> Inr x)"

definition broadcast :: "config \<Rightarrow> json \<Rightarrow> ('z, bool) os_op" where
  "broadcast cfg worker =
     (let url = effective_mining_pool_url cfg in
      and_then build_client (\<lambda>client.
      and_then (prefix_err ''HTTP client error'' client) (\<lambda>_.
      and_then (send_request (Post (url @ ''/miner/broadcast/worker'') worker)) (\<lambda>sent.
      and_then (prefix_err ''Mining pool registration failed'' sent) (\<lambda>resp.
      and_then (prefix_err ''Failed to read mining pool response'' (hr_body resp)) (\<lambda>body_text.
      and_then (gets ext) (\<lambda>x.
      and_then (prefix_err ''Failed to parse mining pool response'' (ext_parse_json x body_text)) (\<lambda>j.
      and_then (insert_registration url (registered_in j) (word_of_nat (hr_status resp)) body_text (error_in j)) (\<lambda>_.
      ok (registered_in j))))))))))"

definition register_with_mining_pool :: "config \<Rightarrow> wg_server option \<Rightarrow> ('z, bool) os_op" where
  "register_with_mining_pool cfg srv =
     and_then (attach_wireguard cfg srv (base_worker cfg)) (\<lambda>worker.
     and_then (attach_socks5 cfg srv worker) (\<lambda>worker.
     broadcast cfg worker))"

subsection \<open>What obtaining a lease leaves alone\<close>

definition same_world :: "'z os_st_scheme \<Rightarrow> 'z os_st_scheme \<Rightarrow> bool" where
  "same_world s t \<longleftrightarrow>
     http_log t = http_log s \<and> http_reply t = http_reply s \<and> client_fault t = client_fault s \<and> ext t = ext s \<and>
     db_fault t = db_fault s \<and> reg_log t = reg_log s \<and> reg_seq t = reg_seq s"

interpretation world: table_invariant "same_world s"
  by unfold_locales (simp_all add: wg_blind_def env_blind_def same_world_def update_wg_def update_socks_def)

lemma probe_lease_run:
  "\<exists>r t. probe_lease cfg srv ty key worker s = (Inr (attach key r worker), t) \<and> same_world s t"
proof -
  let ?m = "get_worker_config cfg srv ty 120 False ''text'' None None"
  have "same_world s (snd (?m s))" by (rule keepsD [OF world.keeps_get_worker_config]) (simp add: same_world_def)
  then show ?thesis by (auto simp: probe_lease_def seq_simps run_simps)
qed

text \<open>The payload keeps what \<open>base_worker\<close> put in, and a key appears only if it is attached.\<close>

lemma attach_get:
  "\<exists>ms'. attach key r (JObj ms) = JObj ms' \<and> (\<forall>k. k \<noteq> key \<longrightarrow> map_of ms' k = map_of ms k)"
  by (auto simp: attach_def split: sum.split option.split)

definition probe_reached :: "wg_server \<Rightarrow> 'z os_st_scheme \<Rightarrow> bool" where
  "probe_reached w s \<longleftrightarrow> fst (public_udp_reachable w s) = (Inr True :: app_error + bool)"

lemma reachable_run: "\<exists>t. public_udp_reachable w s = (Inr (probe_reached w s), t) \<and> same_world s t"
  by (auto simp: public_udp_reachable_def probe_reached_def same_world_def seq_simps run_simps)

lemma same_world_trans: "same_world s t \<Longrightarrow> same_world t u \<Longrightarrow> same_world s u"
  by (simp add: same_world_def)

lemma attach_wireguard_run:
  "\<exists>ms t. attach_wireguard cfg srv (base_worker cfg) s = (Inr (JObj ms), t) \<and> same_world s t \<and>
     (\<forall>k. k \<noteq> ''wireguard_config'' \<longrightarrow> map_of ms k = json_get k (base_worker cfg)) \<and>
     (\<forall>w. srv = Some w \<and> map_of ms ''wireguard_config'' \<noteq> None \<longrightarrow> probe_reached w s)"
proof -
  obtain base where base: "base_worker cfg = JObj base" by (simp add: base_worker_def)
  have probe: "\<exists>ms t. probe_lease cfg srv ''wireguard'' ''wireguard_config'' (base_worker cfg) u = (Inr (JObj ms), t) \<and>
      same_world u t \<and> (\<forall>k. k \<noteq> ''wireguard_config'' \<longrightarrow> map_of ms k = json_get k (base_worker cfg))" for u :: "'a os_st_scheme"
    using probe_lease_run [of cfg srv "''wireguard''" "''wireguard_config''" "base_worker cfg" u]
      attach_get [of "''wireguard_config''" _ base] by (fastforce simp: base)
  show ?thesis
  proof (cases srv)
    case None
    with probe [of s] show ?thesis by (simp add: attach_wireguard_def seq_simps run_simps)
  next
    case (Some w)
    obtain u where u: "public_udp_reachable w s = (Inr (probe_reached w s), u)" "same_world s u"
      using reachable_run by blast
    show ?thesis
    proof (cases "probe_reached w s")
      case True
      obtain ms t where "probe_lease cfg srv ''wireguard'' ''wireguard_config'' (base_worker cfg) u = (Inr (JObj ms), t)"
        "same_world u t" "\<forall>k. k \<noteq> ''wireguard_config'' \<longrightarrow> map_of ms k = json_get k (base_worker cfg)"
        using probe [of u] by blast
      note t = this
      have "attach_wireguard cfg srv (base_worker cfg) s = (Inr (JObj ms), t)"
        unfolding attach_wireguard_def Some by (simp add: and_then_def u(1) t(1) [unfolded Some] True)
      then show ?thesis using True t(3) same_world_trans [OF u(2) t(2)] Some by auto
    next
      case False
      have "map_of base ''wireguard_config'' = None" using base by (auto simp: base_worker_def)
      with False u Some base show ?thesis by (auto simp: attach_wireguard_def seq_simps run_simps)
    qed
  qed
qed

lemma payload_run:
  "\<exists>ms t. and_then (attach_wireguard cfg srv (base_worker cfg)) (attach_socks5 cfg srv) s = (Inr (JObj ms), t) \<and>
     same_world s t \<and>
     (\<forall>k. k \<notin> {''wireguard_config'', ''socks5_config''} \<longrightarrow> map_of ms k = json_get k (base_worker cfg)) \<and>
     (\<forall>w. srv = Some w \<and> map_of ms ''wireguard_config'' \<noteq> None \<longrightarrow> probe_reached w s)"
proof -
  obtain ms t where 1: "attach_wireguard cfg srv (base_worker cfg) s = (Inr (JObj ms), t)" "same_world s t"
    "\<forall>k. k \<noteq> ''wireguard_config'' \<longrightarrow> map_of ms k = json_get k (base_worker cfg)"
    "\<forall>w. srv = Some w \<and> map_of ms ''wireguard_config'' \<noteq> None \<longrightarrow> probe_reached w s"
    using attach_wireguard_run [of cfg srv s] by (elim exE conjE) (rule that)
  obtain r u where 2: "attach_socks5 cfg srv (JObj ms) t = (Inr (attach ''socks5_config'' r (JObj ms)), u)" "same_world t u"
    using probe_lease_run unfolding attach_socks5_def by blast
  obtain ms' where 3: "attach ''socks5_config'' r (JObj ms) = JObj ms'"
    "\<forall>k. k \<noteq> ''socks5_config'' \<longrightarrow> map_of ms' k = map_of ms k" using attach_get by blast
  have "and_then (attach_wireguard cfg srv (base_worker cfg)) (attach_socks5 cfg srv) s = (Inr (JObj ms'), u)"
    using 1(1) 2(1) 3(1) by (simp add: run_and_then)
  moreover have "map_of ms' k = json_get k (base_worker cfg)" if "k \<notin> {''wireguard_config'', ''socks5_config''}" for k
    using that 1(3) 3(2) by simp
  moreover have "map_of ms' ''wireguard_config'' = map_of ms ''wireguard_config''" using 3(2) by simp
  ultimately show ?thesis using 1(4) same_world_trans [OF 1(2) 2(2)]
    by (intro exI [of _ ms'] exI [of _ u]) simp
qed

lemma register_run:
  obtains ms u where "register_with_mining_pool cfg srv s = broadcast cfg (JObj ms) u" "same_world s u"
    "\<forall>k. k \<notin> {''wireguard_config'', ''socks5_config''} \<longrightarrow> map_of ms k = json_get k (base_worker cfg)"
    "\<forall>w. srv = Some w \<and> map_of ms ''wireguard_config'' \<noteq> None \<longrightarrow> probe_reached w s"
proof -
  obtain ms u where p: "and_then (attach_wireguard cfg srv (base_worker cfg)) (attach_socks5 cfg srv) s = (Inr (JObj ms), u)"
    "same_world s u" "\<forall>k. k \<notin> {''wireguard_config'', ''socks5_config''} \<longrightarrow> map_of ms k = json_get k (base_worker cfg)"
    "\<forall>w. srv = Some w \<and> map_of ms ''wireguard_config'' \<noteq> None \<longrightarrow> probe_reached w s"
    using payload_run [of cfg srv s] by (elim exE conjE) (rule that)
  have "register_with_mining_pool cfg srv s = broadcast cfg (JObj ms) u"
    using p(1) by (auto simp: register_with_mining_pool_def and_then_def split: prod.splits sum.splits)
  then show thesis using p(2-4) by (rule that)
qed

lemma prefix_err_Inr: "prefix_err m r s = (Inr x, t) \<longleftrightarrow> r = Inr x \<and> t = s"
  by (auto simp: prefix_err_def run_of_result split: sum.splits)

lemma build_client_Inr: "build_client s = (Inr (Inr u), t) \<longleftrightarrow> client_fault s (length (http_log s)) = None \<and> t = s"
  by (auto simp: run_build_client split: option.splits)

lemma broadcast_Inr:
  assumes "broadcast cfg worker u = (Inr b, t)"
  obtains resp reply j where "http_reply u (length (http_log u)) (Post (effective_mining_pool_url cfg @ ''/miner/broadcast/worker'') worker) = Inr resp"
    "hr_body resp = Inr reply" "ext_parse_json (ext u) reply = Inr j" "b = registered_in j"
    "insert_registration (effective_mining_pool_url cfg) b (word_of_nat (hr_status resp)) reply (error_in j)
       (u\<lparr>http_log := http_log u @ [Post (effective_mining_pool_url cfg @ ''/miner/broadcast/worker'') worker]\<rparr>) = (Inr (), t)"
  using assms unfolding broadcast_def Let_def
  by (auto simp: and_then_Inr run_ok run_gets run_send_request prefix_err_Inr build_client_Inr)

text \<open>C18: What comes of a registration. If it returns \<open>Ok\<close>, exactly one request was made: a POST of the
  payload to the pool's URL, with the worker's own URL and port and with a WireGuard configuration
  only if the public port had just answered the probe. The result is what the pool's answer says, and with
  statements that succeed the attempt is the newest row of the registration log.\<close>

theorem registration_outcome:
  assumes "register_with_mining_pool cfg srv s = (Inr b, t)"
  shows "\<exists>worker resp reply j.
     http_log t = http_log s @ [Post (effective_mining_pool_url cfg @ ''/miner/broadcast/worker'') worker] \<and>
     json_get ''public_url'' worker = Some (JStr (base_url cfg)) \<and>
     json_get ''public_port'' worker = Some (JInt (uint (server_port cfg))) \<and>
     (\<forall>w. srv = Some w \<and> json_get ''wireguard_config'' worker \<noteq> None \<longrightarrow> probe_reached w s) \<and>
     http_reply s (length (http_log s)) (last (http_log t)) = Inr resp \<and> hr_body resp = Inr reply \<and>
     ext_parse_json (ext s) reply = Inr j \<and> b = registered_in j \<and>
     (no_faults s \<and> reg_ok s \<longrightarrow> reg_log t \<noteq> [] \<and> (reg_success (last (reg_log t)) = 1 \<longleftrightarrow> b) \<and>
        reg_response_body (last (reg_log t)) = reply \<and> reg_id (last (reg_log t)) = reg_seq s + 1)"
proof -
  let ?url = "effective_mining_pool_url cfg"
  obtain ms u where run: "register_with_mining_pool cfg srv s = broadcast cfg (JObj ms) u"
    and p: "same_world s u" "\<forall>k. k \<notin> {''wireguard_config'', ''socks5_config''} \<longrightarrow> map_of ms k = json_get k (base_worker cfg)"
    "\<forall>w. srv = Some w \<and> map_of ms ''wireguard_config'' \<noteq> None \<longrightarrow> probe_reached w s"
    by (rule register_run)
  let ?post = "Post (?url @ ''/miner/broadcast/worker'') (JObj ms)"
  have "broadcast cfg (JObj ms) u = (Inr b, t)" using assms run by simp
  then obtain resp reply j where r:
    "http_reply u (length (http_log u)) ?post = Inr resp" "hr_body resp = Inr reply" "ext_parse_json (ext u) reply = Inr j"
    "b = registered_in j"
    "insert_registration ?url b (word_of_nat (hr_status resp)) reply (error_in j) (u\<lparr>http_log := http_log u @ [?post]\<rparr>) = (Inr (), t)"
    by (rule broadcast_Inr)
  let ?v = "u\<lparr>http_log := http_log u @ [?post]\<rparr>" and ?row = "new_reg ?url b (word_of_nat (hr_status resp)) reply (error_in j)"
  have log: "keeps (\<lambda>v. http_log v = http_log u @ [?post]) (insert_registration ?url b (word_of_nat (hr_status resp)) reply (error_in j))"
    unfolding insert_registration_def by (intro keeps_rules) (simp_all add: env_blind_def insert_reg_def)
  from keepsD [OF log, of ?v] r(5) have "http_log t = http_log u @ [?post]" by simp
  moreover have "reg_log t = drop (length (reg_log ?v) - 199) (reg_log ?v @ [?row ?v])" if "no_faults s" "reg_ok s"
  proof -
    have "reg_ok ?v" "no_faults ?v" using that p(1) by (simp_all add: same_world_def reg_ok_def no_faults_def)
    from insert_registration_run [OF this, of ?url b "word_of_nat (hr_status resp)" reply "error_in j"] r(5) show ?thesis by auto
  qed
  then have "reg_log t \<noteq> [] \<and> (reg_success (last (reg_log t)) = 1 \<longleftrightarrow> b) \<and> reg_response_body (last (reg_log t)) = reply \<and>
      reg_id (last (reg_log t)) = reg_seq s + 1" if "no_faults s" "reg_ok s"
    using that p(1) by (simp add: new_reg_def same_world_def)
  ultimately show ?thesis
    using r(1-4) p
    by (intro exI [of _ "JObj ms"] exI [of _ resp] exI [of _ reply] exI [of _ j])
      (simp add: same_world_def base_worker_def)
qed

text \<open>A pool that registers everybody.\<close>

definition pool_os :: os_st where
  "pool_os = demo_os\<lparr>http_reply := (\<lambda>n r. Inr \<lparr>hr_status = 200, hr_status_text = ''200 OK'', hr_body = Inr ''true''\<rparr>)\<rparr>"

theorem registration_outcome_witness:
  "\<exists>t worker. register_with_mining_pool demo_config None pool_os = (Inr True, t) \<and>
     http_log t = [Post ''http://pool.example:3000/miner/broadcast/worker'' worker] \<and>
     reg_success (last (reg_log t)) = 1"
proof -
  obtain ms u where run: "register_with_mining_pool demo_config None pool_os = broadcast demo_config (JObj ms) u"
    and u: "same_world pool_os u" by (rule register_run)
  have reg: "registered_in (JObj [(''registered'', JBool True)])" by (simp add: registered_in_def unwrap_or_def)
  have ok: "reg_ok u" "no_faults u" "ext_parse_json demo_ext ''true'' = Inr (JObj [(''registered'', JBool True)])"
    using u by (simp_all add: same_world_def pool_os_def reg_ok_def no_faults_def demo_ext_def)
  have "\<exists>t. broadcast demo_config (JObj ms) u = (Inr True, t)"
    using u insert_registration_run [of "u\<lparr>http_log := http_log u @ [Post (effective_mining_pool_url demo_config @
        ''/miner/broadcast/worker'') (JObj ms)]\<rparr>"] ok
    by (simp add: broadcast_def Let_def run_build_client prefix_err_def reg reg_ok_def no_faults_def same_world_def pool_os_def
        seq_simps run_simps)
  with run obtain t where t: "register_with_mining_pool demo_config None pool_os = (Inr True, t)" by auto
  have url: "effective_mining_pool_url demo_config = ''http://pool.example:3000''"
    by (simp add: effective_mining_pool_url_def trim_end_matches_def)
  have "no_faults pool_os" "reg_ok pool_os" "http_log pool_os = []"
    by (simp_all add: pool_os_def no_faults_def reg_ok_def)
  with registration_outcome [OF t] t url show ?thesis by auto
qed

end
