(* ===== verification/Api_Status.thy ===== *)
theory Api_Status
  imports Wg_Network
begin

text \<open>
  The endpoints that report on the worker: \<open>health.rs\<close>, \<open>status.rs\<close>, \<open>dashboard.rs\<close>,
  \<open>logs.rs\<close> and \<open>control.rs\<close> under \<open>src/src/api/\<close>. The text of the HTML page is a parameter. The
  clock has the resolution of the millisecond.
\<close>

definition json_response :: "nat \<Rightarrow> json \<Rightarrow> response" where
  "json_response code j = \<lparr>status = code, headers = [], body = Json j\<rparr>"

text \<open>A text by its code points, in UTF-8: the messages for the user are in Chinese.\<close>

definition utf8_char :: "nat \<Rightarrow> string" where
  "utf8_char n =
     map char_of
       (if n < 128 then [n]
        else if n < 2048 then [192 + n div 64, 128 + n mod 64]
        else [224 + n div 4096, 128 + n div 64 mod 64, 128 + n mod 64])"

definition han :: "nat list \<Rightarrow> string" where
  "han ns = concat (map utf8_char ns)"

subsection \<open>Health\<close>

definition unless_empty :: "string \<Rightarrow> string \<Rightarrow> string \<Rightarrow> (string \<times> json) list" where
  "unless_empty key test v = (if test \<noteq> [] then [(key, JStr v)] else [])"

definition health :: "app_state \<Rightarrow> ('z, response) os_op" where
  "health st =
     (let config = as_config st; mode = show_run_mode (run_mode config) in
      and_then (gets ext) (\<lambda>x.
      ok (json_response 200 (JObj
        ([(''notice'', JStr (''I am a TPN Network '' @ mode @ '' component running v'' @ as_version st)),
          (''info'', JStr ''https://tpn.taofu.xyz''),
          (''version'', JStr (as_version st)),
          (''last_start'', JStr (ext_rfc3339 x (as_start_time st))),
          (''branch'', JStr (as_git_branch st)),
          (''hash'', JStr (as_git_hash st))] @
         unless_empty ''MINING_POOL_NAME'' (mining_pool_name config) (mining_pool_name config) @
         unless_empty ''MINING_POOL_URL'' (mining_pool_url config) (effective_mining_pool_url config) @
         unless_empty ''SERVER_PUBLIC_HOST'' (server_public_host config) (server_public_host config) @
         [(''SERVER_PUBLIC_PORT'', JStr (show_u16 (server_port config))),
          (''SERVER_PUBLIC_PROTOCOL'', JStr (server_public_protocol config))] @
         unless_empty ''MINING_POOL_REWARDS'' (mining_pool_rewards config) (mining_pool_rewards config) @
         unless_empty ''MINING_POOL_WEBSITE_URL'' (mining_pool_website_url config) (mining_pool_website_url config) @
         unless_empty ''BROADCAST_MESSAGE'' (broadcast_message config) (broadcast_message config) @
         unless_empty ''CONTACT_METHOD'' (contact_method config) (contact_method config))))))"

definition ping :: "('z, response) os_op" where
  "ping = ok \<lparr>status = 200, headers = [], body = Text ''pong''\<rparr>"

subsection \<open>Statistics\<close>

text \<open>\<open>signed_duration_since(start).num_seconds()\<close> drops the fraction towards zero.\<close>

definition num_seconds :: "int \<Rightarrow> int" where
  "num_seconds ms = (if ms < 0 then - ((- ms) div 1000) else ms div 1000)"

definition uptime_seconds :: "app_state \<Rightarrow> ('z, int) os_op" where
  "uptime_seconds st =
     and_then now_ms (\<lambda>now. and_then (gets (\<lambda>s. clock s (as_start_time st))) (\<lambda>start. ok (num_seconds (now - start))))"

definition available_socks :: "config \<Rightarrow> ('z, int) os_op" where
  "available_socks config =
     and_then (attempt (count_available_socks (priority_slots config))) (\<lambda>r.
     ok (case r of Inl (e :: app_error) \<Rightarrow> 0 | Inr n \<Rightarrow> n))"

definition stats :: "app_state \<Rightarrow> ('z, response) os_op" where
  "stats st =
     (let config = as_config st in
      and_then (uptime_seconds st) (\<lambda>uptime.
      and_then check_open_leases (\<lambda>wg_leases.
      and_then (available_socks config) (\<lambda>socks_available.
      ok (json_response 200 (JObj
        [(''status'', JStr ''ok''),
         (''mode'', JStr (show_run_mode (run_mode config))),
         (''uptime_seconds'', JInt uptime),
         (''version'', JStr (as_version st)),
         (''wireguard'', JObj
            [(''peer_count'', JInt (uint (effective_peer_count config))),
             (''active_leases'', JInt (int (length wg_leases)))]),
         (''socks5'', JObj
            [(''priority_slots'', JInt (priority_slots config)),
             (''available_non_priority'', JInt socks_available)])]))))))"

text \<open>The last registration as the newest row shows it.\<close>

definition last_success :: "json list \<Rightarrow> bool" where
  "last_success regs =
     (case regs of [] \<Rightarrow> False | r # _ \<Rightarrow> unwrap_or False (Option.bind (json_get ''success'' r) as_bool))"

definition last_time :: "json list \<Rightarrow> string" where
  "last_time regs =
     (case regs of [] \<Rightarrow> ''-'' | r # _ \<Rightarrow> unwrap_or ''-'' (Option.bind (json_get ''created_at'' r) as_str))"

definition worker_json :: "app_state \<Rightarrow> nat \<Rightarrow> int \<Rightarrow> string \<Rightarrow> json" where
  "worker_json st p uptime start =
     JObj [(''version'', JStr (as_version st)), (''mode'', JStr (show_run_mode (run_mode (as_config st)))),
           (''pid'', JInt (int p)), (''uptime_seconds'', JInt uptime), (''start_time'', JStr start),
           (''git_branch'', JStr (as_git_branch st)), (''git_hash'', JStr (as_git_hash st))]"

definition mining_pool_json :: "config \<Rightarrow> json list \<Rightarrow> json" where
  "mining_pool_json config regs =
     JObj [(''url'', JStr (effective_mining_pool_url config)), (''name'', JStr (mining_pool_name config)),
           (''last_registration_success'', JBool (last_success regs)),
           (''last_registration_time'', JStr (last_time regs)),
           (''rewards_url'', JStr (mining_pool_rewards config)),
           (''website_url'', JStr (mining_pool_website_url config))]"

definition wireguard_json :: "app_state \<Rightarrow> nat \<Rightarrow> nat \<Rightarrow> json" where
  "wireguard_json st active open_leases =
     (let config = as_config st in
      JObj [(''enabled'', JBool (as_wg_server st \<noteq> None)), (''interface'', JStr (wg_interface_name config)),
            (''max_peers'', JInt (uint (effective_peer_count config))), (''active_peers'', JInt (int active)),
            (''active_leases'', JInt (int open_leases)), (''listen_port'', JInt (uint (wireguard_server_port config))),
            (''subnet'', JStr (wg_subnet config)), (''dns'', JStr (wg_dns config)),
            (''server_public_key'', JStr (case as_wg_server st of None \<Rightarrow> [] | Some wg \<Rightarrow> ws_public_key wg))])"

definition proxy_json :: "config \<Rightarrow> nat \<Rightarrow> int \<Rightarrow> json" where
  "proxy_json config active socks_available =
     JObj [(''socks5_port'', JInt (uint (socks5_port config))), (''http_proxy_port'', JInt (uint (http_proxy_port config))),
           (''credential_count'', JInt (int (proxy_credential_count config))), (''active_credentials'', JInt (int active)),
           (''available_non_priority'', JInt socks_available), (''priority_slots'', JInt (priority_slots config))]"

definition network_json :: "config \<Rightarrow> json" where
  "network_json config =
     JObj [(''public_host'', JStr (server_public_host config)), (''public_port'', JInt (uint (server_port config))),
           (''protocol'', JStr (server_public_protocol config)), (''base_url'', JStr (base_url config))]"

definition dashboard_data :: "app_state \<Rightarrow> ('z, response) os_op" where
  "dashboard_data st =
     (let config = as_config st in
      and_then (uptime_seconds st) (\<lambda>uptime.
      and_then check_open_leases (\<lambda>wg_leases.
      and_then (gets (\<lambda>s. if as_wg_server st = None then 0 else active_peer_count s)) (\<lambda>wg_active_peers.
      and_then (available_socks config) (\<lambda>socks_available.
      and_then (recent_registrations 50) (\<lambda>registrations.
      and_then (gets (\<lambda>s. (pid s, ext_rfc3339 (ext s) (as_start_time st), credential_count s))) (\<lambda>(p, start, active).
      ok (json_response 200 (JObj
        [(''worker'', worker_json st p uptime start),
         (''mining_pool'', mining_pool_json config registrations),
         (''wireguard'', wireguard_json st wg_active_peers (length wg_leases)),
         (''proxy'', proxy_json config active socks_available),
         (''network'', network_json config),
         (''payment'', JObj [(''evm_address'', JStr (payment_address_evm config)),
                             (''bittensor_address'', JStr (payment_address_bittensor config))]),
         (''database'', JObj [(''path'', JStr (sqlite_path config))]),
         (''registration_history'', JArr registrations)])))))))))"

definition dashboard_page :: "('z, response) os_op" where
  "dashboard_page = and_then (gets ext) (\<lambda>x. ok \<lparr>status = 200, headers = [], body = Html (ext_dashboard_page x)\<rparr>)"

subsection \<open>Logs\<close>

definition LOG_FILE :: string where "LOG_FILE = ''/tmp/tpn-worker.log''"
definition DEFAULT_LINES :: nat where "DEFAULT_LINES = 100"
definition MAX_LINES :: nat where "MAX_LINES = 1000"

text \<open>The ring buffer: \<open>pop_front\<close> does nothing on an empty one.\<close>

definition ring_push :: "nat \<Rightarrow> string \<Rightarrow> string list \<Rightarrow> string list" where
  "ring_push n l ring = (if length ring = n then tl ring else ring) @ [l]"

text \<open>Reading stops at the first line that is not UTF-8.\<close>

definition readable :: "string \<Rightarrow> string list" where
  "readable content = takeWhile (\<lambda>l. from_utf8 (bytes_of_string l) \<noteq> None) (lines content)"

definition open_file :: "string \<Rightarrow> ('z, string + string) os_op" where
  "open_file p = file_op (\<lambda>s. (case files s p of None \<Rightarrow> Inl not_found | Some c \<Rightarrow> Inr c, s))"

definition get_logs :: "nat option \<Rightarrow> ('z, response) os_op" where
  "get_logs q =
     (let n = min (unwrap_or DEFAULT_LINES q) MAX_LINES in
      and_then (open_file LOG_FILE) (\<lambda>r.
      ok (case r of
            Inr content \<Rightarrow>
              (let ls = fold (ring_push n) (readable content) [] in
               json_response 200 (JObj
                 [(''success'', JBool True), (''lines'', JArr (map JStr ls)), (''count'', JInt (int (length ls))),
                  (''file'', JStr LOG_FILE)]))
          | Inl e \<Rightarrow>
              json_response 200 (JObj
                [(''success'', JBool False), (''lines'', JArr []), (''count'', JInt 0),
                 (''error'', JStr (''Cannot read log file: '' @ e))]))))"

subsection \<open>Process control\<close>

definition BINARY :: string where "BINARY = ''/usr/local/bin/tpn-worker''"

definition message_response :: "nat \<Rightarrow> bool \<Rightarrow> string \<Rightarrow> response" where
  "message_response code success msg =
     json_response code (JObj [(''success'', JBool success), (''message'', JStr msg)])"

definition process_status :: "app_state \<Rightarrow> ('z, response) os_op" where
  "process_status st =
     and_then (gets pid) (\<lambda>p.
     and_then (uptime_seconds st) (\<lambda>uptime.
     and_then (gets (\<lambda>s. ext_rfc3339 (ext s) (as_start_time st))) (\<lambda>start.
     ok (json_response 200 (JObj
       [(''success'', JBool True),
        (''data'', JObj
           [(''running'', JBool True), (''pid'', JInt (int p)), (''uptime_seconds'', JInt uptime),
            (''binary'', JStr BINARY), (''start_time'', JStr start), (''version'', JStr (''v'' @ as_version st))])])))))"

definition stop_worker :: "('z, response) os_op" where
  "stop_worker =
     and_then (spawn_late Late_stop) (\<lambda>_.
     ok (message_response 200 True (han [0x6B63, 0x5728, 0x505C, 0x6B62, 0x670D, 0x52A1] @ ''...'')))"

definition start_worker :: "('z, response) os_op" where
  "start_worker =
     and_then (run_command [''sh'', ''-c'', ''nohup '' @ BINARY @ '' > /dev/null 2>&1 &'']) (\<lambda>r.
     ok (case r of
           Inr _ \<Rightarrow> message_response 200 True (han [0x65B0, 0x8FDB, 0x7A0B, 0x5DF2, 0x542F, 0x52A8])
         | Inl e \<Rightarrow> message_response 500 False (han [0x542F, 0x52A8, 0x5931, 0x8D25] @ '': '' @ e)))"

definition restart_worker :: "('z, response) os_op" where
  "restart_worker =
     and_then (spawn_late Late_restart) (\<lambda>_.
     ok (message_response 200 True (han [0x6B63, 0x5728, 0x91CD, 0x542F, 0x670D, 0x52A1] @ ''...'')))"

text \<open>The script waits for the process to end and starts the next one.\<close>

definition restart_script :: "nat \<Rightarrow> string" where
  "restart_script p =
     ''sleep 1; while kill -0 '' @ show_nat p @ '' 2>/dev/null; do sleep 0.2; done; nohup '' @ BINARY @
     '' > /dev/null 2>&1 &''"

fun run_late :: "late_task \<Rightarrow> ('z, unit) os_op" where
  "run_late Late_stop = exit_process 0"
| "run_late Late_restart =
     and_then (gets pid) (\<lambda>p.
     and_then (run_ignored [''sh'', ''-c'', restart_script p]) (\<lambda>_. exit_process 0))"
| "run_late Late_upgrade =
     and_then (run_ignored [''nohup'', BINARY]) (\<lambda>_. exit_process 0)"

subsection \<open>The tail of the log\<close>

lemma ring_push_tail:
  assumes "0 < n" and "ring = drop (length ls - n) ls"
  shows "ring_push n l ring = drop (length (ls @ [l]) - n) (ls @ [l])"
proof (cases "n \<le> length ls")
  case True
  then have "tl ring = drop (Suc (length ls - n)) ls" by (simp add: assms(2) drop_Suc tl_drop)
  with True assms show ?thesis by (simp add: ring_push_def Suc_diff_le)
qed (use assms in \<open>auto simp: ring_push_def\<close>)

lemma ring_tail: "0 < n \<Longrightarrow> fold (ring_push n) ls [] = drop (length ls - n) ls"
proof (induction ls rule: rev_induct)
  case (snoc l ls)
  then show ?case using ring_push_tail [of n "fold (ring_push n) ls []" ls l] by simp
qed simp

text \<open>Asking for no line yields all of them: the ring of size 0 is never full again.\<close>

lemma ring_zero: "fold (ring_push 0) ls [] = ls"
  by (induction ls rule: rev_induct) (simp_all add: ring_push_def)

theorem logs_zero_lines:
  assumes "fs_fault s (fs_pos s) = None" and "files s LOG_FILE = Some content"
  shows "\<exists>t. get_logs (Some 0) s = (Inr (json_response 200 (JObj
     [(''success'', JBool True), (''lines'', JArr (map JStr (readable content))),
      (''count'', JInt (int (length (readable content)))), (''file'', JStr LOG_FILE)])), t)"
  using assms
  by (simp add: get_logs_def open_file_def run_file_op ring_zero unwrap_or_def Let_def run_and_then run_ok)

end
