(* ===== verification/Api_Admin.thy ===== *)
theory Api_Admin
  imports Api_Status
begin

text \<open>
  The configuration endpoint, \<open>src/src/api/admin.rs\<close>: where the \<open>.env\<close> file lies, how one of its
  values is replaced, and the handler that updates several at once.
\<close>

subsection \<open>The .env file\<close>

text \<open>\<open>PathBuf::join\<close> with a relative path.\<close>

definition path_join :: "string \<Rightarrow> string \<Rightarrow> string" where
  "path_join p q = (if p = [] \<or> last p = CHR ''/'' then p @ q else p @ ''/'' @ q)"

definition config_dir :: "'z os_st_scheme \<Rightarrow> string" where
  "config_dir s = path_join (path_join (unwrap_or ''/root'' (env_vars s ''HOME'')) ''.config'') ''tpn-worker''"

definition env_path :: "'z os_st_scheme \<Rightarrow> string" where
  "env_path s = path_join (config_dir s) ''.env''"

text \<open>Whether a line sets the key, maybe in a comment.\<close>

definition env_assigns :: "string \<Rightarrow> string \<Rightarrow> bool" where
  "env_assigns key line =
     (let trimmed = trim line in
      starts_with (key @ ''='') trimmed \<or> starts_with (''# '' @ key @ ''='') trimmed)"

definition replace_lines :: "string \<Rightarrow> string \<Rightarrow> string list \<Rightarrow> string list" where
  "replace_lines key v ls =
     (let new = map (\<lambda>line. if env_assigns key line then key @ ''='' @ v else line) ls in
      if \<exists>line \<in> set ls. env_assigns key line then new else new @ [key @ ''='' @ v])"

definition replace_env :: "string \<Rightarrow> string \<Rightarrow> string \<Rightarrow> string" where
  "replace_env key v content =
     (let new_content = join_str NL (replace_lines key v (lines content)) in
      if ends_with NL content \<and> \<not> ends_with NL new_content then new_content @ NL else new_content)"

definition update_env_value :: "string \<Rightarrow> string \<Rightarrow> ('z, string + unit) os_op" where
  "update_env_value key v =
     and_then (gets env_path) (\<lambda>p.
     and_then (read_to_string p) (\<lambda>r.
     case r of
       Inl e \<Rightarrow> ok (Inl e)
     | Inr content \<Rightarrow> write_file p (replace_env key v content)))"

subsection \<open>The endpoint\<close>

record config_update =
  cu_mining_pool_url :: "string option"
  cu_payment_address_evm :: "string option"
  cu_payment_address_bittensor :: "string option"
  cu_server_public_port :: "u16 option"
  cu_socks5_port :: "u16 option"
  cu_http_proxy_port :: "u16 option"
  cu_wireguard_server_port :: "u16 option"

definition validate_port :: "u16 \<Rightarrow> string \<Rightarrow> string + unit" where
  "validate_port p name = (if p = 0 then Inl (name @ '': '' @ han [0x7AEF, 0x53E3, 0x4E0D, 0x80FD, 0x4E3A] @ '' 0'') else Inr ())"

type_synonym progress = "string list \<times> string list" \<comment> \<open>updated, errors\<close>

definition set_field :: "string \<Rightarrow> string \<Rightarrow> progress \<Rightarrow> ('z, progress) os_op" where
  "set_field key v = (\<lambda>(updated, errors).
     and_then (update_env_value key v) (\<lambda>r.
     ok (case r of
           Inr _ \<Rightarrow> (updated @ [key], errors)
         | Inl e \<Rightarrow> (updated, errors @ [key @ '': '' @ e]))))"

definition text_field :: "string \<Rightarrow> string option \<Rightarrow> progress \<Rightarrow> ('z, progress) os_op" where
  "text_field key v acc = (case v of None \<Rightarrow> ok acc | Some x \<Rightarrow> set_field key x acc)"

definition port_field :: "string \<Rightarrow> u16 option \<Rightarrow> progress \<Rightarrow> ('z, progress) os_op" where
  "port_field key v acc =
     (case v of
        None \<Rightarrow> ok acc
      | Some p \<Rightarrow>
          (case validate_port p key of
             Inl e \<Rightarrow> ok (fst acc, snd acc @ [e])
           | Inr _ \<Rightarrow> set_field key (show_u16 p) acc))"

definition update_fields :: "config_update \<Rightarrow> ('z, progress) os_op" where
  "update_fields req =
     and_then (text_field ''MINING_POOL_URL'' (cu_mining_pool_url req) ([], [])) (\<lambda>acc.
     and_then (text_field ''PAYMENT_ADDRESS_EVM'' (cu_payment_address_evm req) acc) (\<lambda>acc.
     and_then (text_field ''PAYMENT_ADDRESS_BITTENSOR'' (cu_payment_address_bittensor req) acc) (\<lambda>acc.
     and_then (port_field ''SERVER_PUBLIC_PORT'' (cu_server_public_port req) acc) (\<lambda>acc.
     and_then (port_field ''SOCKS5_PORT'' (cu_socks5_port req) acc) (\<lambda>acc.
     and_then (port_field ''HTTP_PROXY_PORT'' (cu_http_proxy_port req) acc) (\<lambda>acc.
     port_field ''WIREGUARD_SERVERPORT'' (cu_wireguard_server_port req) acc))))))"

definition update_config :: "config_update \<Rightarrow> ('z, response) os_op" where
  "update_config req =
     and_then (update_fields req) (\<lambda>(updated, errors).
     ok (if errors \<noteq> [] then
           json_response 500 (JObj
             [(''success'', JBool False),
              (''message'', JStr (han [0x90E8, 0x5206, 0x66F4, 0x65B0, 0x5931, 0x8D25] @ '': '' @ join_str ''; '' errors)),
              (''updated'', JArr (map JStr updated))])
         else if updated = [] then message_response 400 False (han [0x672A, 0x63D0, 0x4F9B, 0x4EFB, 0x4F55, 0x66F4, 0x65B0, 0x5B57, 0x6BB5])
         else
           json_response 200 (JObj
             [(''success'', JBool True),
              (''message'', JStr (han [0x5DF2, 0x66F4, 0x65B0] @ '': '' @ join_str '', '' updated @ han [0xFF0C, 0x91CD, 0x542F, 0x540E, 0x751F, 0x6548])),
              (''updated'', JArr (map JStr updated))])))"

subsection \<open>What an update does to the file\<close>

lemma replace_lines_plain:
  assumes "\<forall>l \<in> set ls. plain_line l" and "plain_line (key @ ''='' @ v)"
  shows "\<forall>l \<in> set (replace_lines key v ls). plain_line l"
  using assms by (auto simp: replace_lines_def Let_def)

lemma concat_split_incl: "concat (split_incl s) = s"
  by (induction s) (auto split: list.split)

lemma split_incl_subset: "p \<in> set (split_incl s) \<Longrightarrow> set p \<subseteq> set s"
  by (metis concat_split_incl set_concat UN_upper)

lemma strip_eol_subset: "set (strip_eol p) \<subseteq> set p"
  by (auto simp: strip_eol_def Let_def dest: in_set_butlastD)

lemma lines_plain:
  assumes "CR \<notin> set s"
  shows "\<forall>l \<in> set (lines s). plain_line l"
proof
  fix l assume l: "l \<in> set (lines s)"
  then have "set l \<subseteq> set s" using split_incl_subset strip_eol_subset by (fastforce simp: lines_def)
  then have "CR \<notin> set l" using assms by blast
  then show "plain_line l" using lines_no_LF [OF l] by (metis last_in_set plain_line_def)
qed

definition nonblank :: "string list \<Rightarrow> string list" where
  "nonblank ls = filter (\<lambda>l. l \<noteq> []) ls"

lemma lines_join_nonblank:
  assumes "\<forall>l \<in> set ls. plain_line l"
  shows "nonblank (lines (join_str NL ls)) = nonblank ls"
proof (cases "ls \<noteq> [] \<and> last ls = []")
  case True
  then have "ls = butlast ls @ [[]]" by (metis append_butlast_last_id)
  have "nonblank (butlast ls @ [[]]) = nonblank (butlast ls)" by (simp add: nonblank_def)
  with \<open>ls = butlast ls @ [[]]\<close> have "nonblank ls = nonblank (butlast ls)" by simp
  with True assms show ?thesis by (simp add: lines_join)
qed (use assms in \<open>auto simp: lines_join\<close>)

lemma replace_env_lines:
  assumes "CR \<notin> set content" and "plain_line (key @ ''='' @ v)"
  shows "nonblank (lines (replace_env key v content)) = nonblank (replace_lines key v (lines content))"
proof -
  let ?ls = "replace_lines key v (lines content)"
  have plain: "\<forall>l \<in> set ?ls. plain_line l" by (rule replace_lines_plain [OF lines_plain [OF assms(1)] assms(2)])
  have "?ls \<noteq> []" by (auto simp: replace_lines_def Let_def)
  with plain show ?thesis
    by (auto simp: replace_env_def Let_def lines_join_NL lines_join_nonblank)
qed

lemma no_assign_blank: "\<not> env_assigns key []"
  using trim_graphic [of "[]"] by (simp add: env_assigns_def starts_with_iff)

lemma update_env_run:
  assumes "files s (env_path s) = Some content" and "from_utf8 (bytes_of_string content) = Some content"
    and "fs_fault s (fs_pos s) = None" and "fs_fault s (Suc (fs_pos s)) = None"
  shows "update_env_value key v s =
    (Inr (Inr ()), s\<lparr>files := (files s)(env_path s \<mapsto> replace_env key v content), fs_pos := Suc (Suc (fs_pos s))\<rparr>)"
  using assms
  by (simp add: update_env_value_def read_to_string_def write_file_def leave_partial_def run_file_op env_path_def
      config_dir_def seq_simps run_simps)


definition demo_env :: "string \<Rightarrow> os_st" where
  "demo_env content = demo_os\<lparr>files := [''/root/.config/tpn-worker/.env'' \<mapsto> content]\<rparr>"

lemma demo_env_path [simp]: "env_path (demo_env content) = ''/root/.config/tpn-worker/.env''"
  by (simp add: env_path_def config_dir_def demo_env_def path_join_def unwrap_or_def)

lemma demo_env_simps [simp]:
  "files (demo_env content) = [''/root/.config/tpn-worker/.env'' \<mapsto> content]"
  "fs_fault (demo_env content) = (\<lambda>n. None)" "fs_pos (demo_env content) = 0"
  by (simp_all add: demo_env_def)


text \<open>A value with a line break sets other keys as well: here it switches the login off.\<close>

theorem env_newline_injection:
  "\<exists>t. update_env_value ''MINING_POOL_URL'' (''http://p'' @ NL @ ''LOGIN_PASSWORD='')
     (demo_env (''MINING_POOL_URL='' @ NL)) = (Inr (Inr ()), t) \<and>
     lines (the (files t ''/root/.config/tpn-worker/.env'')) = [''MINING_POOL_URL=http://p'', ''LOGIN_PASSWORD='']"
proof -
  let ?c = "''MINING_POOL_URL='' @ NL" and ?v = "''http://p'' @ NL @ ''LOGIN_PASSWORD=''"
  have "ascii ?c" by (simp add: ascii_def NL_def LF_def)
  then have "from_utf8 (bytes_of_string ?c) = Some ?c" by (rule from_utf8_ascii)
  moreover have "env_assigns ''MINING_POOL_URL'' ''MINING_POOL_URL=''"
    using trim_all_graphic [of "''MINING_POOL_URL=''"] by (simp add: env_assigns_def graphic_def starts_with_iff)
  then have "lines (replace_env ''MINING_POOL_URL'' ?v ?c) = [''MINING_POOL_URL=http://p'', ''LOGIN_PASSWORD='']"
    by (simp add: replace_env_def replace_lines_def lines_def strip_eol_def NL_def LF_def CR_def Let_def ends_with_def
        starts_with_def)
  ultimately show ?thesis
    using update_env_run [of "demo_env ?c" ?c "''MINING_POOL_URL''" ?v] by simp
qed

end
