(* ===== verification/Api_Auth.thy ===== *)
theory Api_Auth
  imports Api_Admin
begin

text \<open>
  Login and the protection of the administration endpoints, \<open>src/src/api/auth.rs\<close>. Tokens are
  JSON web tokens; signing and checking them is the crate \<open>jsonwebtoken\<close>, of which \<open>jwt_ext_ok\<close>
  states what its documentation promises.
\<close>

subsection \<open>Tokens\<close>

definition thirty_days_ms :: int where "thirty_days_ms = 30 * 24 * 60 * 60 * 1000"

text \<open>\<open>(\<dots>).timestamp() as usize\<close>\<close>

definition as_usize :: "int \<Rightarrow> int" where
  "as_usize x = x mod 2 ^ 64"

definition generate_token :: "string \<Rightarrow> ('z, string + string) os_op" where
  "generate_token secret =
     and_then now_ms (\<lambda>now.
     and_then (gets ext) (\<lambda>x.
     ok (ext_jwt_encode x (bytes_of_string secret) ''admin'' (as_usize ((now + thirty_days_ms) div 1000)))))"

definition verify_token :: "string \<Rightarrow> string \<Rightarrow> ('z, bool) os_op" where
  "verify_token token secret =
     and_then now_ms (\<lambda>now.
     and_then (gets ext) (\<lambda>x.
     ok (ext_jwt_ok x (bytes_of_string secret) (now div 1000) token)))"

subsection \<open>Login and password\<close>

definition login :: "app_state \<Rightarrow> string \<Rightarrow> ('z, response) os_op" where
  "login st given =
     (let expected = bytes_of_string (login_password (as_config st)); provided = bytes_of_string given in
      and_then (gets ext) (\<lambda>x.
      let matches = (if length expected = length provided then ext_ct_eq x expected provided else False) in
      if \<not> matches then ok (message_response 401 False (han [0x5BC6, 0x7801, 0x9519, 0x8BEF]))
      else
        and_then (generate_token (jwt_secret (as_config st))) (\<lambda>r.
        ok (case r of
              Inr token \<Rightarrow>
                json_response 200 (JObj
                  [(''success'', JBool True), (''message'', JStr (han [0x767B, 0x5F55, 0x6210, 0x529F])),
                   (''data'', JObj [(''token'', JStr token)])])
            | Inl e \<Rightarrow> message_response 500 False (han [0x751F, 0x6210] @ '' token '' @ han [0x5931, 0x8D25])))))"

definition update_password :: "string \<Rightarrow> ('z, response) os_op" where
  "update_password given =
     (let new = trim given in
      if length new < 4 then ok (message_response 400 False (han [0x5BC6, 0x7801, 0x81F3, 0x5C11] @ ''4'' @ han [0x4E2A, 0x5B57, 0x7B26]))
      else
        and_then (update_env_value ''LOGIN_PASSWORD'' new) (\<lambda>r.
        ok (case r of
              Inr _ \<Rightarrow> message_response 200 True (han [0x5BC6, 0x7801, 0x5DF2, 0x66F4, 0x65B0, 0xFF0C, 0x91CD, 0x542F, 0x540E, 0x751F, 0x6548])
            | Inl e \<Rightarrow> message_response 500 False (han [0x66F4, 0x65B0, 0x5931, 0x8D25] @ '': '' @ e))))"

definition auth_check :: "app_state \<Rightarrow> ('z, response) os_op" where
  "auth_check st =
     ok (json_response 200 (JObj [(''auth_required'', JBool (login_password (as_config st) \<noteq> []))]))"

subsection \<open>The middleware\<close>

text \<open>What it looks at: the first \<open>Authorization\<close> header and the query.\<close>

record http_req =
  rq_authorization :: "u8 list option"
  rq_query :: "string option"

text \<open>\<open>HeaderValue::to_str\<close>: visible ASCII, spaces and tabs only.\<close>

definition header_to_str :: "u8 list \<Rightarrow> string option" where
  "header_to_str bs =
     (if list_all (\<lambda>b. 32 \<le> b \<and> b < 127 \<or> b = 9) bs then Some (string_of_bytes bs) else None)"

definition bearer_token :: "http_req \<Rightarrow> string option" where
  "bearer_token req =
     Option.bind (Option.bind (rq_authorization req) header_to_str) (strip_prefix ''Bearer '')"

definition query_token :: "string \<Rightarrow> string option" where
  "query_token part =
     (case strip_prefix ''token='' part of
        None \<Rightarrow> None
      | Some v \<Rightarrow> (let token = trim v in if token \<noteq> [] then Some token else None))"

fun check_parts :: "string \<Rightarrow> string list \<Rightarrow> ('z, bool) os_op" where
  "check_parts secret [] = ok False"
| "check_parts secret (part # parts) =
     (case query_token part of
        None \<Rightarrow> check_parts secret parts
      | Some token \<Rightarrow>
          and_then (verify_token token secret) (\<lambda>valid.
          if valid then ok True else check_parts secret parts))"

definition unauthorized :: response where
  "unauthorized = \<lparr>status = 401, headers = [], body = NoBody\<rparr>"

definition auth_middleware :: "app_state \<Rightarrow> http_req \<Rightarrow> ('z, response) os_op \<Rightarrow> ('z, response) os_op" where
  "auth_middleware st req next_run =
     (if login_password (as_config st) = [] then next_run
      else
        let secret = jwt_secret (as_config st) in
        and_then (case bearer_token req of None \<Rightarrow> ok False | Some token \<Rightarrow> verify_token token secret) (\<lambda>valid.
        if valid then next_run
        else
          and_then (case rq_query req of None \<Rightarrow> ok False | Some q \<Rightarrow> check_parts secret (split_char (CHR ''&'') q)) (\<lambda>valid.
          if valid then next_run else ok unauthorized)))"

subsection \<open>What the middleware decides\<close>

text \<open>The tokens a request presents, in the order they are tried.\<close>

definition presented :: "http_req \<Rightarrow> string list" where
  "presented req =
     (case bearer_token req of None \<Rightarrow> [] | Some token \<Rightarrow> [token]) @
     (case rq_query req of None \<Rightarrow> [] | Some q \<Rightarrow> List.map_filter query_token (split_char (CHR ''&'') q))"

text \<open>The middleware tries one token after the other, each at a time of its own.\<close>

fun try_tokens :: "string \<Rightarrow> string list \<Rightarrow> ('z, bool) os_op" where
  "try_tokens secret [] = ok False"
| "try_tokens secret (token # tokens) =
     and_then (verify_token token secret) (\<lambda>valid. if valid then ok True else try_tokens secret tokens)"

lemma check_parts_try: "check_parts secret parts = try_tokens secret (List.map_filter query_token parts)"
  by (induction parts) (auto simp: map_filter_simps split: option.split cong: if_cong)

lemma run_verify_token [run_simps]:
  "verify_token token secret s =
     (Inr (ext_jwt_ok (ext s) (bytes_of_string secret) (clock s (clock_pos s) div 1000) token),
      s\<lparr>clock_pos := Suc (clock_pos s)\<rparr>)"
  by (simp add: verify_token_def seq_simps run_simps)

lemma auth_middleware_try:
  assumes "login_password (as_config st) \<noteq> []"
  shows "auth_middleware st req next_run =
    and_then (try_tokens (jwt_secret (as_config st)) (presented req)) (\<lambda>valid. if valid then next_run else ok unauthorized)"
proof
  fix s
  show "auth_middleware st req next_run s =
    and_then (try_tokens (jwt_secret (as_config st)) (presented req)) (\<lambda>valid. if valid then next_run else ok unauthorized) s"
    using assms
    by (cases "bearer_token req"; cases "rq_query req")
      (auto simp: auth_middleware_def presented_def check_parts_try Let_def seq_simps run_simps split: sum.splits prod.splits)
qed

definition valid_at :: "string \<Rightarrow> 'z os_st_scheme \<Rightarrow> nat \<Rightarrow> string \<Rightarrow> bool" where
  "valid_at secret s n token \<longleftrightarrow> ext_jwt_ok (ext s) (bytes_of_string secret) (clock s n div 1000) token"

definition some_valid :: "string \<Rightarrow> 'z os_st_scheme \<Rightarrow> string list \<Rightarrow> bool" where
  "some_valid secret s tokens \<longleftrightarrow> (\<exists>i < length tokens. valid_at secret s (clock_pos s + i) (tokens ! i))"

lemma try_tokens_run:
  "\<exists>k \<le> length tokens. try_tokens secret tokens s = (Inr (some_valid secret s tokens), s\<lparr>clock_pos := clock_pos s + k\<rparr>)"
proof (induction tokens arbitrary: s)
  case Nil
  then show ?case by (simp add: some_valid_def run_ok)
next
  case (Cons token tokens)
  let ?s = "s\<lparr>clock_pos := Suc (clock_pos s)\<rparr>"
  obtain k where k: "k \<le> length tokens"
    "try_tokens secret tokens ?s = (Inr (some_valid secret ?s tokens), ?s\<lparr>clock_pos := clock_pos ?s + k\<rparr>)"
    using Cons.IH by blast
  have "some_valid secret s (token # tokens) \<longleftrightarrow> valid_at secret s (clock_pos s) token \<or> some_valid secret ?s tokens"
    by (auto simp: some_valid_def valid_at_def less_Suc_eq_0_disj)
  then show ?case
  proof (cases "valid_at secret s (clock_pos s) token")
    case True
    with \<open>some_valid secret s (token # tokens) \<longleftrightarrow> _\<close> show ?thesis
      by (intro exI [of _ 1]) (simp add: valid_at_def seq_simps run_simps)
  next
    case False
    with \<open>some_valid secret s (token # tokens) \<longleftrightarrow> _\<close> k show ?thesis
      by (intro exI [of _ "Suc k"]) (simp add: valid_at_def seq_simps run_simps)
  qed
qed

text \<open>The middleware runs the handler exactly if no password is set or one of the presented tokens
  is valid when its turn comes; otherwise it answers 401 and has done nothing but read the clock.\<close>

lemma auth_middleware_spec:
  assumes "login_password (as_config st) \<noteq> []"
  shows "\<exists>k. auth_middleware st req next_run s =
    (if some_valid (jwt_secret (as_config st)) s (presented req) then next_run (s\<lparr>clock_pos := clock_pos s + k\<rparr>)
     else (Inr unauthorized, s\<lparr>clock_pos := clock_pos s + k\<rparr>))"
  using try_tokens_run [of "presented req" "jwt_secret (as_config st)" s]
  by (auto simp: auth_middleware_try [OF assms] seq_simps run_simps)

text \<open>
  What \<open>jsonwebtoken\<close> promises of \<open>encode\<close> and \<open>decode\<close> with the default validation: a token is
  accepted under the secret it was signed with until its expiry plus a leeway of a minute, and it is
  made of base64url characters and dots.
\<close>

definition jwt_ext_ok :: "externals \<Rightarrow> bool" where
  "jwt_ext_ok x \<longleftrightarrow>
     (\<forall>secret sub e token. 0 \<le> e \<longrightarrow> e < 2 ^ 63 \<longrightarrow> ext_jwt_encode x secret sub e = Inr token \<longrightarrow>
        (\<forall>now. ext_jwt_ok x secret now token \<longleftrightarrow> now \<le> e + 60) \<and> token \<noteq> [] \<and>
        (\<forall>c \<in> set token. graphic c \<and> c \<noteq> CHR ''&''))"

definition token_in :: "response \<Rightarrow> string option" where
  "token_in r =
     (case body r of
        Json j \<Rightarrow> Option.bind (Option.bind (json_get ''data'' j) (json_get ''token'')) as_str
      | _ \<Rightarrow> None)"

lemma graphic_visible: "graphic c \<Longrightarrow> 32 \<le> (word_of_nat (of_char c) :: u8) \<and> (word_of_nat (of_char c) :: u8) < 127"
  by (simp add: graphic_def word_le_nat_alt word_less_nat_alt)

lemma header_to_str_visible: "\<forall>c \<in> set v. graphic c \<or> c = CHR '' '' \<Longrightarrow> header_to_str (bytes_of_string v) = Some v"
proof -
  assume v: "\<forall>c \<in> set v. graphic c \<or> c = CHR '' ''"
  have "list_all (\<lambda>b. 32 \<le> b \<and> b < 127 \<or> b = 9) (bytes_of_string v)"
    using v graphic_visible by (fastforce simp: list_all_iff bytes_of_string_def)
  then show ?thesis by (simp add: header_to_str_def)
qed

lemma presented_header:
  "\<forall>c \<in> set token. graphic c \<Longrightarrow>
   presented \<lparr>rq_authorization = Some (bytes_of_string (''Bearer '' @ token)), rq_query = None\<rparr> = [token]"
  using header_to_str_visible [of "''Bearer '' @ token"] strip_prefix_append [of "''Bearer ''" token]
  by (simp add: presented_def bearer_token_def graphic_def)

lemma presented_query:
  "\<forall>c \<in> set token. graphic c \<and> c \<noteq> CHR ''&'' \<Longrightarrow> token \<noteq> [] \<Longrightarrow>
   presented \<lparr>rq_authorization = None, rq_query = Some (''token='' @ token)\<rparr> = [token]"
proof -
  assume t: "\<forall>c \<in> set token. graphic c \<and> c \<noteq> CHR ''&''" "token \<noteq> []"
  have "query_token (''token='' @ token) = Some token"
    using t trim_all_graphic [of token] strip_prefix_append [of "''token=''" token]
    by (simp only: query_token_def option.case Let_def if_True simp_thms) simp
  moreover have "split_char (CHR ''&'') (''token='' @ token) = [''token='' @ token]"
    using t(1) by (intro split_char_no_sep) auto
  ultimately show ?thesis
    unfolding presented_def bearer_token_def by (simp only: map_filter_simps option.case Option.bind.simps http_req.simps) simp
qed

lemma login_run:
  assumes "\<forall>a b. ext_ct_eq (ext s) a b \<longleftrightarrow> a = b"
  shows "login st given s =
    (if given = login_password (as_config st) then
       let e = as_usize ((clock s (clock_pos s) + thirty_days_ms) div 1000) in
       (case ext_jwt_encode (ext s) (bytes_of_string (jwt_secret (as_config st))) ''admin'' e of
          Inr token \<Rightarrow> (Inr (json_response 200 (JObj
            [(''success'', JBool True), (''message'', JStr (han [0x767B, 0x5F55, 0x6210, 0x529F])),
             (''data'', JObj [(''token'', JStr token)])])), s\<lparr>clock_pos := Suc (clock_pos s)\<rparr>)
        | Inl e \<Rightarrow> (Inr (message_response 500 False (han [0x751F, 0x6210] @ '' token '' @ han [0x5931, 0x8D25])),
            s\<lparr>clock_pos := Suc (clock_pos s)\<rparr>))
     else (Inr (message_response 401 False (han [0x5BC6, 0x7801, 0x9519, 0x8BEF])), s))"
  using assms
  by (auto simp: login_def generate_token_def Let_def seq_simps run_simps split: sum.split)

text \<open>A token of the worker's own admits whoever presents it, in either way, until it expires.\<close>

lemma token_admits:
  fixes u :: "'z os_st_scheme"
  assumes "jwt_ext_ok x" and "ext_jwt_encode x (bytes_of_string (jwt_secret (as_config st))) ''admin'' e = Inr token"
    and "0 \<le> e" and "e < 2 ^ 63" and "login_password (as_config st) \<noteq> []"
    and "ext u = x" and "clock u (clock_pos u) div 1000 \<le> e"
    and "req \<in> {\<lparr>rq_authorization = Some (bytes_of_string (''Bearer '' @ token)), rq_query = None\<rparr>,
                \<lparr>rq_authorization = None, rq_query = Some (''token='' @ token)\<rparr>}"
  shows "\<exists>k. auth_middleware st req next_run u = next_run (u\<lparr>clock_pos := clock_pos u + k\<rparr>)"
proof -
  have tok: "\<forall>now. ext_jwt_ok x (bytes_of_string (jwt_secret (as_config st))) now token \<longleftrightarrow> now \<le> e + 60" "token \<noteq> []"
    "\<forall>c \<in> set token. graphic c \<and> c \<noteq> CHR ''&''"
    using assms(1-4) unfolding jwt_ext_ok_def by blast+
  have "presented req = [token]"
    using assms(8) presented_header [of token] presented_query [of token] tok(2,3) by (elim insertE emptyE) simp_all
  then have "some_valid (jwt_secret (as_config st)) u (presented req)"
    using tok(1) assms(6,7) by (simp add: some_valid_def valid_at_def)
  then show ?thesis using auth_middleware_spec [OF assms(5), of req next_run u] by simp
qed


text \<open>Tokens that consist of their expiry keep the promise.\<close>

definition jwt_os :: os_st where
  "jwt_os = demo_os\<lparr>ext := demo_ext\<lparr>ext_jwt_encode := (\<lambda>k sub e. Inr (show_int e)),
     ext_jwt_ok := (\<lambda>k now token. case parse_i64 token of None \<Rightarrow> False | Some e \<Rightarrow> now \<le> e + 60)\<rparr>\<rparr>"

definition guarded_app :: app_state where
  "guarded_app = demo_state\<lparr>as_config := demo_config\<lparr>login_password := ''s3cret''\<rparr>\<rparr>"

lemma jwt_os_ok: "jwt_ext_ok (ext jwt_os)" "\<forall>a b. ext_ct_eq (ext jwt_os) a b \<longleftrightarrow> a = b"
proof -
  have "show_int e \<noteq> [] \<and> (\<forall>c \<in> set (show_int e). graphic c \<and> c \<noteq> CHR ''&'')" if "0 \<le> e" for e
    using that show_nat_digits [of _ "nat e"] show_nat_digits [of "CHR ''&''" "nat e"] is_digit_graphic by (auto simp: show_int_def is_digit_def)
  then show "jwt_ext_ok (ext jwt_os)"
    by (simp add: jwt_ext_ok_def jwt_os_def parse_i64_show_int in_i64_def)
  show "\<forall>a b. ext_ct_eq (ext jwt_os) a b \<longleftrightarrow> a = b" by (simp add: jwt_os_def demo_ext_def)
qed


end
