(* ===== verification/Upgrade.thy ===== *)
theory Upgrade
  imports Api_Status
begin

text \<open>
  Self-upgrade, \<open>src/src/api/upgrade.rs\<close>: the comparison with the latest release and the
  replacement of the running binary, with its backup and roll-back.
\<close>

subsection \<open>The latest release\<close>

record release =
  rel_tag_name :: string
  rel_assets :: "(string \<times> string) list" \<comment> \<open>name, browser\_download\_url\<close>

text \<open>The derived \<open>Deserialize\<close>: other members are ignored, a missing one is an error.\<close>

definition str_member :: "string \<Rightarrow> json \<Rightarrow> string option" where
  "str_member key j = Option.bind (json_get key j) as_str"

fun parse_assets :: "json list \<Rightarrow> (string \<times> string) list option" where
  "parse_assets [] = Some []"
| "parse_assets (j # js) =
     (case (str_member ''name'' j, str_member ''browser_download_url'' j, parse_assets js) of
        (Some n, Some u, Some rest) \<Rightarrow> Some ((n, u) # rest)
      | _ \<Rightarrow> None)"

definition parse_release :: "json \<Rightarrow> release option" where
  "parse_release j =
     (case (str_member ''tag_name'' j, json_get ''assets'' j) of
        (Some tag, Some (JArr js)) \<Rightarrow>
          map_option (\<lambda>assets. \<lparr>rel_tag_name = tag, rel_assets = assets\<rparr>) (parse_assets js)
      | _ \<Rightarrow> None)"

definition opt_str :: "string option \<Rightarrow> json" where
  "opt_str v = (case v of None \<Rightarrow> JNull | Some x \<Rightarrow> JStr x)"

definition version_info :: "string \<Rightarrow> string option \<Rightarrow> bool \<Rightarrow> string option \<Rightarrow> response" where
  "version_info current latest has_update download_url =
     json_response 200 (JObj
       [(''success'', JBool True),
        (''data'', JObj [(''current'', JStr current), (''latest'', opt_str latest), (''has_update'', JBool has_update),
                         (''download_url'', opt_str download_url)])])"

text \<open>\<open>str::trim_start_matches(c)\<close>\<close>

definition trim_start_matches :: "char \<Rightarrow> string \<Rightarrow> string" where
  "trim_start_matches c s = dropWhile (\<lambda>x. x = c) s"

definition asset_name :: string where "asset_name = ''tpn-worker-linux-ubuntu22-amd64''"

text \<open>\<open>r.json()\<close>: the body is read, then parsed, then taken apart.\<close>

definition release_in :: "externals \<Rightarrow> http_response \<Rightarrow> release option" where
  "release_in x r =
     (case hr_body r of
        Inl e \<Rightarrow> None
      | Inr txt \<Rightarrow> (case ext_parse_json x txt of Inl e \<Rightarrow> None | Inr j \<Rightarrow> parse_release j))"

definition get_version :: "app_state \<Rightarrow> ('z, response) os_op" where
  "get_version st =
     (let current = ''v'' @ as_version st; unknown = version_info current None False None in
      and_then build_client (\<lambda>client.
      case client of
        Inl e \<Rightarrow> ok unknown
      | Inr _ \<Rightarrow>
          and_then (send_request (Get (''https://api.github.com/repos/'' @ github_repo (as_config st) @ ''/releases/latest''))) (\<lambda>resp.
          and_then (gets ext) (\<lambda>x.
          ok (case resp of
                Inl e \<Rightarrow> unknown
              | Inr r \<Rightarrow>
                  (case release_in x r of
                     None \<Rightarrow> unknown
                   | Some release \<Rightarrow>
                       (let latest = rel_tag_name release;
                            has_update = (trim_start_matches (CHR ''v'') latest \<noteq> trim_start_matches (CHR ''v'') current)
                        in version_info current (Some latest) has_update (map_of (rel_assets release) asset_name))))))))"

subsection \<open>The replacement of the binary\<close>

definition failed :: "string \<Rightarrow> ('z, response) os_op" where
  "failed msg = ok (message_response 500 False msg)"

definition drop_result :: "('z, string + unit) os_op \<Rightarrow> ('z, unit) os_op" where
  "drop_result m = and_then m (\<lambda>_. ok ())"

text \<open>\<open>if let Err(e) = m { on_error; return failed }\<close>\<close>

definition or_return ::
    "('z, string + unit) os_op \<Rightarrow> (string \<Rightarrow> ('z, response) os_op) \<Rightarrow> ('z, response) os_op \<Rightarrow> ('z, response) os_op" where
  "or_return m on_error k = and_then m (\<lambda>r. case r of Inl e \<Rightarrow> on_error e | Inr _ \<Rightarrow> k)"

definition temp_path :: string where "temp_path = ''/tmp/tpn-worker-new''"

definition replace_binary :: "string \<Rightarrow> ('z, response) os_op" where
  "replace_binary exe =
     (let backup_path = exe @ ''.bak'' in
      or_return (copy_file exe backup_path) (\<lambda>e. failed (han [0x5907, 0x4EFD, 0x5931, 0x8D25] @ '': '' @ e))
     (or_return (remove_file exe) (\<lambda>e. failed (han [0x5220, 0x9664, 0x65E7, 0x4E8C, 0x8FDB, 0x5236, 0x5931, 0x8D25] @ '': '' @ e))
     (or_return (copy_file temp_path exe)
        (\<lambda>e. and_then (drop_result (copy_file backup_path exe)) (\<lambda>_. failed (han [0x66FF, 0x6362, 0x4E8C, 0x8FDB, 0x5236, 0x5931, 0x8D25] @ '': '' @ e)))
     (or_return (set_permissions exe 493)
        (\<lambda>e. and_then (drop_result (remove_file exe)) (\<lambda>_.
             and_then (drop_result (copy_file backup_path exe)) (\<lambda>_. failed (han [0x8BBE, 0x7F6E, 0x65B0, 0x4E8C, 0x8FDB, 0x5236, 0x6743, 0x9650, 0x5931, 0x8D25] @ '': '' @ e))))
     (and_then (drop_result (remove_file temp_path)) (\<lambda>_.
      and_then (spawn_late Late_upgrade) (\<lambda>_.
      ok (message_response 200 True (han [0x66F4, 0x65B0, 0x6210, 0x529F, 0xFF0C, 0x6B63, 0x5728, 0x91CD, 0x542F] @ ''...'')))))))))"

definition install :: "string \<Rightarrow> ('z, response) os_op" where
  "install binary_data =
      or_return (write_file temp_path binary_data) (\<lambda>e. failed (han [0x5199, 0x5165, 0x4E34, 0x65F6, 0x6587, 0x4EF6, 0x5931, 0x8D25] @ '': '' @ e))
     (or_return (set_permissions temp_path 493) (\<lambda>e. failed (han [0x8BBE, 0x7F6E, 0x6743, 0x9650, 0x5931, 0x8D25] @ '': '' @ e))
     (and_then (run_command [temp_path, ''--help'']) (\<lambda>verify.
      case verify of
        Inl e \<Rightarrow> and_then (drop_result (remove_file temp_path)) (\<lambda>_. failed (han [0x65B0, 0x4E8C, 0x8FDB, 0x5236, 0x9A8C, 0x8BC1, 0x5931, 0x8D25]))
      | Inr _ \<Rightarrow>
          and_then (gets exe_path) (\<lambda>current_exe.
          case current_exe of
            Inl e \<Rightarrow> failed (han [0x83B7, 0x53D6, 0x5F53, 0x524D, 0x4E8C, 0x8FDB, 0x5236, 0x8DEF, 0x5F84, 0x5931, 0x8D25] @ '': '' @ e)
          | Inr exe \<Rightarrow> replace_binary exe))))"

definition is_success :: "nat \<Rightarrow> bool" where
  "is_success code \<longleftrightarrow> 200 \<le> code \<and> code < 300"

definition download_url :: "app_state \<Rightarrow> string" where
  "download_url st =
     ''https://github.com/'' @ github_repo (as_config st) @ ''/releases/download/latest/'' @ asset_name"

definition do_upgrade :: "app_state \<Rightarrow> ('z, response) os_op" where
  "do_upgrade st =
     and_then build_client (\<lambda>client.
     case client of
       Inl e \<Rightarrow> failed (han [0x521B, 0x5EFA, 0x4E0B, 0x8F7D, 0x5BA2, 0x6237, 0x7AEF, 0x5931, 0x8D25] @ '': '' @ e)
     | Inr _ \<Rightarrow>
         and_then (send_request (Get (download_url st))) (\<lambda>sent.
         case sent of
           Inl e \<Rightarrow> failed (han [0x4E0B, 0x8F7D, 0x5931, 0x8D25] @ '': '' @ e)
         | Inr r \<Rightarrow>
             if \<not> is_success (hr_status r) then failed (han [0x4E0B, 0x8F7D, 0x5931, 0x8D25] @ '', HTTP '' @ hr_status_text r)
             else
               (case hr_body r of
                  Inl e \<Rightarrow> failed (han [0x8BFB, 0x53D6, 0x4E0B, 0x8F7D, 0x6570, 0x636E, 0x5931, 0x8D25] @ '': '' @ e)
                | Inr binary_data \<Rightarrow> install binary_data)))"

subsection \<open>The binary survives\<close>

definition one_fault :: "'z os_st_scheme \<Rightarrow> bool" where
  "one_fault s \<longleftrightarrow> (\<forall>i j. fs_fault s i \<noteq> None \<longrightarrow> fs_fault s j \<noteq> None \<longrightarrow> i = j)"

lemmas fs_run = write_file_def copy_file_def remove_file_def set_permissions_def path_exists_def leave_partial_def
  run_file_op or_return_def drop_result_def failed_def message_response_def json_response_def

lemma two_faults: "fs_fault s i = Some a \<Longrightarrow> fs_fault s j = Some b \<Longrightarrow> i \<noteq> j \<Longrightarrow> \<not> one_fault s"
  by (auto simp: one_fault_def)

definition outcome :: "string \<Rightarrow> string \<Rightarrow> nat \<Rightarrow> string \<Rightarrow> 'z os_st_scheme \<Rightarrow> response \<Rightarrow> 'z os_st_scheme \<Rightarrow> bool" where
  "outcome exe old m new s r t \<longleftrightarrow>
     (if status r = 200
      then files t exe = Some new \<and> file_modes t exe = 493 \<and> files t (exe @ ''.bak'') = Some old \<and>
           file_modes t (exe @ ''.bak'') = m \<and> late_tasks t = late_tasks s @ [Late_upgrade]
      else late_tasks t = late_tasks s \<and>
           (files t exe = Some old \<and> file_modes t exe = m \<or>
            \<not> one_fault s \<and> files t (exe @ ''.bak'') = Some old \<and> file_modes t (exe @ ''.bak'') = m))"

lemma replace_binary_outcome:
  assumes "files s exe = Some old" and "file_modes s exe = m" and "files s temp_path = Some new"
    and "exe \<noteq> temp_path" and "exe @ ''.bak'' \<noteq> temp_path"
  shows "case replace_binary exe s of (Inl e, t) \<Rightarrow> False | (Inr r, t) \<Rightarrow> outcome exe old m new s r t"
proof -
  let ?n = "fs_pos s"
  show ?thesis
    using assms
    by (cases "fs_fault s ?n"; cases "fs_fault s (Suc ?n)"; cases "fs_fault s (Suc (Suc ?n))"; cases "fs_fault s (Suc (Suc (Suc ?n)))")
      (auto simp: replace_binary_def fs_run outcome_def spawn_late_def Let_def seq_simps run_simps two_faults split: option.splits)
qed

lemma outcome_cong:
  "late_tasks u = late_tasks s \<Longrightarrow> fs_fault u = fs_fault s \<Longrightarrow> outcome exe old m new u r t = outcome exe old m new s r t"
  by (simp add: outcome_def one_fault_def)

lemma outcome_failed:
  "status r \<noteq> 200 \<Longrightarrow> late_tasks t = late_tasks s \<Longrightarrow> files t exe = Some old \<Longrightarrow> file_modes t exe = m \<Longrightarrow>
   outcome exe old m new s r t"
  by (simp add: outcome_def)

text \<open>The steps before the replacement write to the temporary file only.\<close>

lemma install_prefix:
  assumes "files s exe = Some old" and "file_modes s exe = m" and "exe \<noteq> temp_path" and "exe_path s = Inr exe"
  shows "(\<exists>r t. install new s = (Inr r, t) \<and> status r \<noteq> 200 \<and> late_tasks t = late_tasks s \<and> files t exe = Some old \<and>
            file_modes t exe = m) \<or>
         (\<exists>u. install new s = replace_binary exe u \<and> files u exe = Some old \<and> file_modes u exe = m \<and>
            files u temp_path = Some new \<and> late_tasks u = late_tasks s \<and> fs_fault u = fs_fault s)"
  using assms
  by (cases "fs_fault s (fs_pos s)"; cases "fs_fault s (Suc (fs_pos s))")
    (auto simp: install_def fs_run seq_simps run_simps split: option.split sum.split)

lemma install_outcome:
  assumes "files s exe = Some old" and "file_modes s exe = m" and "exe \<noteq> temp_path" and "exe_path s = Inr exe"
  shows "case install new s of (Inl e, t) \<Rightarrow> False | (Inr r, t) \<Rightarrow> outcome exe old m new s r t"
proof -
  have "last (exe @ ''.bak'') \<noteq> last temp_path" by (simp add: temp_path_def)
  then have bak: "exe @ ''.bak'' \<noteq> temp_path" by metis
  from install_prefix [OF assms, of new] show ?thesis
  proof (elim disjE exE conjE)
    fix u assume "install new s = replace_binary exe u" "files u exe = Some old" "file_modes u exe = m"
      "files u temp_path = Some new" "late_tasks u = late_tasks s" "fs_fault u = fs_fault s"
    then show ?thesis
      using replace_binary_outcome [of u exe old m new] assms(3) bak outcome_cong [of u s exe old m new]
      by (auto split: prod.splits sum.splits)
  qed (auto simp: outcome_failed)
qed

text \<open>C11: An upgrade never loses the worker's binary, whatever the network, the file system and the new
  binary do. If it succeeds, the downloaded bytes are in place and executable, the backup holds the
  old binary with its mode, and the restart is scheduled. If it fails, no restart is scheduled and
  the old binary is in place with its mode - unless two file operations failed in this one upgrade,
  and then the backup still holds it.\<close>

theorem upgrade_keeps_binary:
  assumes "exe_path s = Inr exe" and "files s exe = Some old" and "exe \<noteq> temp_path"
  shows "case do_upgrade st s of
           (Inl e, t) \<Rightarrow> False
         | (Inr r, t) \<Rightarrow> \<exists>new. outcome exe old (file_modes s exe) new s r t \<and>
             (status r = 200 \<longrightarrow> (\<exists>resp. http_reply s (length (http_log s)) (Get (download_url st)) = Inr resp \<and>
                is_success (hr_status resp) \<and> hr_body resp = Inr new))"
proof -
  let ?get = "http_reply s (length (http_log s)) (Get (download_url st))"
  let ?u = "s\<lparr>http_log := http_log s @ [Get (download_url st)]\<rparr>"
  note early = outcome_failed [of _ _ s exe old "file_modes s exe"]
  show ?thesis
  proof (cases "\<exists>resp new. client_fault s (length (http_log s)) = None \<and> ?get = Inr resp \<and> is_success (hr_status resp) \<and> hr_body resp = Inr new")
    case True
    then obtain resp new where ok: "client_fault s (length (http_log s)) = None" "?get = Inr resp"
      "is_success (hr_status resp)" "hr_body resp = Inr new" by blast
    then have run: "do_upgrade st s = install new ?u" by (simp add: do_upgrade_def run_build_client seq_simps run_simps)
    have "case install new ?u of (Inl e, t) \<Rightarrow> False | (Inr r, t) \<Rightarrow> outcome exe old (file_modes s exe) new ?u r t"
      using assms by (intro install_outcome) simp_all
    with ok outcome_cong [of ?u s exe old "file_modes s exe" new] show ?thesis unfolding run
      by (auto split: prod.splits sum.splits)
  next
    case False
    then show ?thesis using assms(2)
      by (auto simp: do_upgrade_def run_build_client failed_def message_response_def json_response_def early seq_simps run_simps
          split: option.splits sum.splits)
  qed
qed

definition upgrade_os :: os_st where
  "upgrade_os = demo_os
     \<lparr>files := [''/usr/local/bin/tpn-worker'' \<mapsto> ''old''], fs_fault := (\<lambda>n. if n = 4 then Some ''disk full'' else None),
      fs_partial := (\<lambda>n. Some ''ne''),
      http_reply := (\<lambda>n r. Inr \<lparr>hr_status = 200, hr_status_text = ''200 OK'', hr_body = Inr ''new''\<rparr>)\<rparr>"

theorem upgrade_keeps_binary_witness:
  "case do_upgrade demo_state upgrade_os of
     (Inl e, t) \<Rightarrow> False
   | (Inr r, t) \<Rightarrow> (if status r = 200 then files t ''/usr/local/bin/tpn-worker'' = Some ''new''
                   else files t ''/usr/local/bin/tpn-worker'' = Some ''old'' \<and> late_tasks t = [])"
proof -
  have "one_fault upgrade_os" by (simp add: one_fault_def upgrade_os_def)
  moreover have "is_success 200" by (simp add: is_success_def)
  ultimately show ?thesis
    using upgrade_keeps_binary [of upgrade_os "''/usr/local/bin/tpn-worker''" "''old''" demo_state]
    by (auto simp: upgrade_os_def temp_path_def outcome_def split: prod.splits sum.splits if_splits)
qed

end
