(* ===== verification/Bootstrap.thy ===== *)
theory Bootstrap
  imports Mining_Pool Api_Auth Upgrade
begin

text \<open>
  The start of the process, \<open>src/src/main.rs\<close>: the configuration directory and the \<open>.env\<close> file, the
  remote defaults, the secrets, and the sequence in which the components are brought up. What the
  crates \<open>dotenvy\<close> and \<open>clap\<close> make of their input is a parameter: \<open>dotenv\<close> yields the assignments of a
  file in an environment, \<open>clap\<close> the settings for an environment and arguments.
\<close>

text \<open>\<open>std::process::exit\<close>: nothing that follows runs.\<close>

definition quit :: "int \<Rightarrow> ('z, 'a) os_op" where
  "quit n = and_then (exit_process n) (\<lambda>_. err (Internal ''exit''))"

lemma quit_Inr: "quit n s \<noteq> (Inr x, t)"
  by (simp add: quit_def exit_process_def run_and_then run_modify run_err)

subsection \<open>Configuration directory\<close>

text \<open>A directory is an entry with nothing in it.\<close>

definition ensure_config_dir :: "string \<Rightarrow> ('z, unit) os_op" where
  "ensure_config_dir dir =
     and_then (path_exists dir) (\<lambda>there.
     if there then ok ()
     else
       and_then (write_file dir []) (\<lambda>r.
       case r of Inl e \<Rightarrow> quit 1 | Inr _ \<Rightarrow> ok ()))"

definition is_hex :: "char \<Rightarrow> bool" where
  "is_hex c \<longleftrightarrow> is_digit c \<or> lower_char c \<in> set ''abcdef''"

text \<open>\<open>Ipv6Addr::from_str\<close>, as far as it decides whether the text is an address: groups of one to four
  hexadecimal digits, an IPv4 address as the last two, and one \<open>::\<close>.\<close>

definition drop_hex :: "string \<Rightarrow> string option" where
  "drop_hex s = (let ds = takeWhile is_hex s in if 1 \<le> length ds \<and> length ds \<le> 4 then Some (drop (length ds) s) else None)"

definition drop_octet :: "string \<Rightarrow> string option" where
  "drop_octet s =
     (let ds = takeWhile is_digit s in
      if length ds \<le> 3 \<and> parse_octet ds \<noteq> None then Some (drop (length ds) s) else None)"

fun drop_octets :: "nat \<Rightarrow> string \<Rightarrow> string option" where
  "drop_octets 0 s = Some s"
| "drop_octets (Suc n) s =
     Option.bind (strip_prefix ''.'' s) (\<lambda>t. Option.bind (drop_octet t) (drop_octets n))"

definition drop_ipv4 :: "string \<Rightarrow> string option" where
  "drop_ipv4 s = Option.bind (drop_octet s) (drop_octets 3)"

definition after_colon :: "nat \<Rightarrow> string \<Rightarrow> string option" where
  "after_colon i s = (if i = 0 then Some s else strip_prefix '':'' s)"

text \<open>Reads groups \<open>i, i + 1, \<dots>\<close> of at most \<open>i + n\<close>: how many there are, whether the last ones are an IPv4
  address, and the rest.\<close>

fun ip_groups :: "nat \<Rightarrow> nat \<Rightarrow> string \<Rightarrow> nat \<times> bool \<times> string" where
  "ip_groups 0 i s = (i, False, s)"
| "ip_groups (Suc n) i s =
     (case (if 0 < n then Option.bind (after_colon i s) drop_ipv4 else None) of
        Some rest \<Rightarrow> (i + 2, True, rest)
      | None \<Rightarrow>
          (case Option.bind (after_colon i s) drop_hex of
             Some rest \<Rightarrow> ip_groups n (Suc i) rest
           | None \<Rightarrow> (i, False, s)))"

definition is_ipv6 :: "string \<Rightarrow> bool" where
  "is_ipv6 s =
     (case ip_groups 8 0 s of
        (n, v4, rest) \<Rightarrow>
          if n = 8 then rest = []
          else if v4 then False
          else (case strip_prefix ''::'' rest of
                  None \<Rightarrow> False
                | Some t \<Rightarrow> (case ip_groups (7 - n) 0 t of (_, _, tail) \<Rightarrow> tail = [])))"

definition is_ip :: "string \<Rightarrow> bool" where
  "is_ip s \<longleftrightarrow> parse_ipv4 s \<noteq> None \<or> is_ipv6 s"

definition detected_ip :: "externals \<Rightarrow> string \<Rightarrow> string" where
  "detected_ip x body_text =
     (let from_json =
        (case ext_parse_json x body_text of
           Inl e \<Rightarrow> None
         | Inr j \<Rightarrow>
             (case Option.bind (json_get ''ip'' j) as_str of
                None \<Rightarrow> None
              | Some ip \<Rightarrow> (if is_ip (trim ip) then Some (trim ip) else None)))
      in if body_text = [] then []
         else (case from_json of
                 Some ip \<Rightarrow> ip
               | None \<Rightarrow> (if is_ip body_text then body_text else [])))"

definition detect_public_ip :: "('z, string) os_op" where
  "detect_public_ip =
     and_then (run_command [''curl'', ''-s'', ''--max-time'', ''5'', ''3.0.3.0'']) (\<lambda>r.
     and_then (gets ext) (\<lambda>x.
     ok (case r of
           Inl e \<Rightarrow> []
         | Inr out \<Rightarrow> if po_success out then detected_ip x (trim (stdout_text out)) else [])))"

definition env_template :: "string \<Rightarrow> string" where
  "env_template public_ip =
     join_str NL
      [''# TPN Worker '' @ han [0x914D, 0x7F6E, 0x6587, 0x4EF6],
       ''# '' @ han [0x5B8C, 0x6574, 0x53C2, 0x6570, 0x8BF4, 0x660E, 0x89C1] @ '' README.md'',
       [],
       ''# ===== '' @ han [0x5FC5, 0x586B] @ '' ====='',
       ''SERVER_PUBLIC_HOST='' @ public_ip,
       ''MINING_POOL_URL=http://157.90.237.67:3000'',
       [],
       ''# ===== '' @ han [0x6536, 0x6B3E, 0x5730, 0x5740, 0xFF08, 0x4E0D, 0x586B, 0x65E0, 0x6CD5, 0x83B7, 0x5F97, 0x5956, 0x52B1, 0xFF09] @ ''====='',
       ''PAYMENT_ADDRESS_EVM=0x1c89cb81123903Af1ecbbf3Edd688EfEDE119e12'',
       ''PAYMENT_ADDRESS_BITTENSOR=5EtYnZcY1UFbkwCp3HL5W3bxZCJshKtYVcTsWtB9QUtPTXxA'',
       [],
       ''# ===== '' @ han [0x767B, 0x5F55, 0x5BC6, 0x7801, 0xFF08, 0x4E3A, 0x7A7A, 0x5219, 0x4E0D, 0x9700, 0x8981, 0x8BA4, 0x8BC1, 0xFF09] @ ''====='',
       ''# LOGIN_PASSWORD='',
       [],
       ''# ===== '' @ han [0x670D, 0x52A1, 0x5668] @ '' ====='',
       ''# RUN_MODE=worker'',
       ''# SERVER_PUBLIC_PORT=3000'',
       ''# SERVER_PUBLIC_PROTOCOL=http'',
       ''# LOG_LEVEL=info'',
       [],
       ''# ===== WireGuard ====='',
       ''# WIREGUARD_PEER_COUNT=253'',
       ''# WIREGUARD_SERVERPORT=51820'',
       ''# WG_INTERFACE_NAME=wg0'',
       ''# WG_SUBNET=10.13.13.0'',
       ''# WG_DNS=1.1.1.1'',
       [],
       ''# ===== '' @ han [0x4EE3, 0x7406] @ '' ====='',
       ''# SOCKS5_PORT=1080'',
       ''# HTTP_PROXY_PORT=3128'',
       ''# PROXY_CREDENTIAL_COUNT=256'',
       [],
       ''# ===== '' @ han [0x5B89, 0x5168] @ '' ====='',
       ''# LEASE_TOKEN_SECRET='',
       [],
       ''# ===== '' @ han [0x540E, 0x53F0, 0x4EFB, 0x52A1] @ '' ====='',
       ''# DAEMON_INTERVAL_SECONDS=300''] @ NL"

definition default_env_content :: "('z, string) os_op" where
  "default_env_content = and_then detect_public_ip (\<lambda>public_ip. ok (env_template public_ip))"

definition ensure_env_file :: "string \<Rightarrow> ('z, string) os_op" where
  "ensure_env_file dir =
     (let env_path = path_join dir ''.env'' in
      and_then (path_exists env_path) (\<lambda>there.
      if there then ok env_path
      else
        and_then default_env_content (\<lambda>content.
        and_then (write_file env_path content) (\<lambda>r.
        case r of Inl e \<Rightarrow> quit 1 | Inr _ \<Rightarrow> ok env_path))))"

type_synonym dotenv = "(string \<rightharpoonup> string) \<Rightarrow> string \<Rightarrow> (string \<times> string) list"

definition load_env :: "dotenv \<Rightarrow> string \<Rightarrow> ('z, unit) os_op" where
  "load_env dotenv dir =
     and_then (open_file (path_join dir ''.env'')) (\<lambda>r.
     and_then (case r of
         Inl e \<Rightarrow> ok ()
       | Inr content \<Rightarrow>
           and_then (gets env_vars) (\<lambda>env. for_each (\<lambda>(k, v). set_var k v) (dotenv env content))) (\<lambda>_.
     and_then (gets (\<lambda>s. env_vars s ''SQLITE_PATH'')) (\<lambda>sqlite.
     if sqlite = None then set_var ''SQLITE_PATH'' (path_join dir ''tpn-worker.db'') else ok ())))"

subsection \<open>Remote defaults\<close>

definition REMOTE_ENV_URL :: string where
  "REMOTE_ENV_URL = ''https://raw.githubusercontent.com/shellawesome/tpn-worker/refs/heads/main/env''"

definition REMOTE_ENV_KEYS :: "string list" where
  "REMOTE_ENV_KEYS = [''MINING_POOL_URL'', ''PAYMENT_ADDRESS_EVM'', ''PAYMENT_ADDRESS_BITTENSOR'']"

definition remote_line :: "string \<Rightarrow> (string \<times> string) option" where
  "remote_line l =
     (let line = trim l in
      if line = [] \<or> starts_with ''#'' line then None
      else (case split_once (CHR ''='') line of
              None \<Rightarrow> None
            | Some (k, v) \<Rightarrow>
                if trim k \<in> set REMOTE_ENV_KEYS \<and> trim v \<noteq> [] then Some (trim k, trim v) else None))"

definition fetch_remote_defaults :: "('z, unit) os_op" where
  "fetch_remote_defaults =
     and_then (run_command [''curl'', ''-s'', ''--max-time'', ''10'', REMOTE_ENV_URL]) (\<lambda>r.
     case r of
       Inl e \<Rightarrow> ok ()
     | Inr out \<Rightarrow>
         if po_success out
         then for_each (\<lambda>l. case remote_line l of None \<Rightarrow> ok () | Some (k, v) \<Rightarrow> set_var k v) (lines (stdout_text out))
         else ok ())"

text \<open>\<open>tpn-worker config\<close>: prints the file, or ends the process with an error.\<close>

definition handle_config_command :: "string \<Rightarrow> ('z, string) os_op" where
  "handle_config_command dir =
     and_then (read_to_string (path_join dir ''.env'')) (\<lambda>r.
     case r of
       Inr content \<Rightarrow> ok (''# Config file: '' @ path_join dir ''.env'' @ NL @ NL @ content)
     | Inl e \<Rightarrow> quit 1)"

subsection \<open>Secrets\<close>

definition alnum_char :: "nat \<Rightarrow> char" where
  "alnum_char idx = char_of (if idx < 26 then 65 + idx else if idx < 52 then 97 + (idx - 26) else 48 + (idx - 52))"

definition ensure_secret :: "string \<Rightarrow> ('z, string) os_op" where
  "ensure_secret given = (if given = [] then draw_chars alnum_char 62 64 else ok given)"

definition fill_secrets :: "config \<Rightarrow> ('z, config) os_op" where
  "fill_secrets cfg =
     and_then (ensure_secret (lease_token_secret cfg)) (\<lambda>lease_secret.
     and_then (ensure_secret (jwt_secret cfg)) (\<lambda>jwt.
     ok (cfg\<lparr>lease_token_secret := lease_secret, jwt_secret := jwt\<rparr>)))"

end
