(* ===== verification/Worker.thy ===== *)
theory Worker
  imports Bootstrap
begin

text \<open>
  The worker as a whole, \<open>src/src/main.rs\<close>: how the components are started, which endpoint is
  protected, the loops that run in the background and the shutdown; then the worker as a transition
  system, in which every request, registration and clean-up is a step that runs to its end
  (\<open>Lease_Race\<close> looks inside). Decoding a path, a query or a body is \<open>axum\<close>'s part: a request is the
  call it decodes to.
\<close>

subsection \<open>Start\<close>

text \<open>\<open>create_pool\<close>: the connection, then three \<open>PRAGMA\<close>s.\<close>

definition create_pool :: "('z, unit) os_op" where
  "create_pool =
     and_then schema_statement (\<lambda>_. and_then schema_statement (\<lambda>_. and_then schema_statement (\<lambda>_. schema_statement)))"

definition or_quit :: "('z, 'a) os_op \<Rightarrow> ('z, 'a) os_op" where
  "or_quit m = and_then (attempt m) (\<lambda>r. case r of Inl (e :: app_error) \<Rightarrow> quit 1 | Inr x \<Rightarrow> ok x)"

definition start_wireguard :: "nat \<Rightarrow> config \<Rightarrow> ('z, wg_server option) os_op" where
  "start_wireguard fuel cfg =
     (if is_worker cfg \<and> \<not> ci_mock_wg_container cfg then
        and_then (or_quit preflight_check) (\<lambda>_.
        and_then (or_quit (new_server cfg)) (\<lambda>server.
        and_then (or_quit (start_server server)) (\<lambda>_.
        and_then (attempt (restore_peers server)) (\<lambda>(_ :: app_error + nat).
        and_then (if wg_public_reachability_check cfg
                  then wait_for_public_udp_reachability fuel server (wg_public_reachability_timeout_ms cfg)
                  else ok None) (\<lambda>_.
        ok (Some server))))))
      else ok None)"

text \<open>A panic while the legacy files are read ends the process with code 101.\<close>

definition start_credentials :: "config \<Rightarrow> ('z, unit) os_op" where
  "start_credentials cfg =
     and_then (modify (new_manager (server_public_host cfg) (socks5_port cfg) (proxy_credential_count cfg) (priority_slots cfg))) (\<lambda>_.
     if is_worker cfg then
       and_then (attempt (initialize (password_dir cfg))) (\<lambda>r.
       case r of Inl (Panic m) \<Rightarrow> quit 101 | _ \<Rightarrow> ok ())
     else ok ())"

definition open_ports :: "config \<Rightarrow> ('z, unit) os_op" where
  "open_ports cfg =
     (if is_worker cfg then
        and_then (ensure_tcp_input_accept (socks5_port cfg)) (\<lambda>_.
        and_then (ensure_tcp_input_accept (http_proxy_port cfg)) (\<lambda>_.
        ensure_tcp_input_accept (server_port cfg)))
      else ok ())"

text \<open>The log file is created if it is not there and never truncated; if that fails the process panics.\<close>

definition open_log :: "('z, unit) os_op" where
  "open_log =
     and_then (file_op (\<lambda>s. (Inr (), s\<lparr>files := (files s)(LOG_FILE \<mapsto> unwrap_or [] (files s LOG_FILE))\<rparr>))) (\<lambda>r.
     case r of Inl e \<Rightarrow> quit 101 | Inr _ \<Rightarrow> ok ())"

definition env_or_unknown :: "string \<Rightarrow> 'z os_st_scheme \<Rightarrow> string" where
  "env_or_unknown k s = unwrap_or ''unknown'' (env_vars s k)"

definition bring_up :: "nat \<Rightarrow> string \<Rightarrow> config \<Rightarrow> ('z, app_state) os_op" where
  "bring_up fuel pkg_version config =
     and_then (fill_secrets config) (\<lambda>cfg.
     and_then open_log (\<lambda>_.
     and_then (or_quit create_pool) (\<lambda>_.
     and_then (or_quit (init_database cfg)) (\<lambda>_.
     and_then (start_wireguard fuel cfg) (\<lambda>server.
     and_then (start_credentials cfg) (\<lambda>_.
     and_then (open_ports cfg) (\<lambda>_.
     and_then (modify (\<lambda>s. s\<lparr>lock_names := [], cache := Map.empty\<rparr>)) (\<lambda>_.
     and_then (gets (\<lambda>s. (env_or_unknown ''GIT_BRANCH'' s, env_or_unknown ''GIT_HASH'' s, clock_pos s))) (\<lambda>(branch, hash, start).
     and_then now_ms (\<lambda>_.
     ok \<lparr>as_config = cfg, as_wg_server = server, as_start_time = start, as_git_branch = branch,
         as_git_hash = hash, as_version = pkg_version\<rparr>))))))))))"

text \<open>The beginning of \<open>main\<close>; \<open>Inl\<close> is the text the subcommand \<open>config\<close> prints.\<close>

definition main_prologue ::
    "dotenv \<Rightarrow> ((string \<rightharpoonup> string) \<Rightarrow> string list \<Rightarrow> int + config) \<Rightarrow> string list \<Rightarrow> ('z, string + config) os_op" where
  "main_prologue dotenv clap args =
     and_then (gets config_dir) (\<lambda>dir.
     and_then (ensure_config_dir dir) (\<lambda>_.
     and_then (ensure_env_file dir) (\<lambda>_.
     and_then (load_env dotenv dir) (\<lambda>_.
     and_then fetch_remote_defaults (\<lambda>_.
     if 1 < length args \<and> args ! 1 = ''config'' then
       and_then (handle_config_command dir) (\<lambda>shown. ok (Inl shown))
     else
       and_then (gets env_vars) (\<lambda>env.
       case clap env args of Inl code \<Rightarrow> quit code | Inr config \<Rightarrow> ok (Inr config)))))))"

subsection \<open>Endpoints\<close>

datatype api_call =
    Health | Ping | Dashboard_page | Auth_check | Login string
  | Lease_new ip_addr lease_params
  | Stats | Dashboard_data | Version | Do_upgrade
  | Update_config config_update
  | Get_logs "nat option"
  | Process_status | Stop_worker | Start_worker | Restart_worker
  | Update_password string

text \<open>Method and path; the lease endpoint has two.\<close>

fun route :: "api_call \<Rightarrow> string \<times> string list" where
  "route Health = (''GET'', [''/''])"
| "route Ping = (''GET'', [''/ping''])"
| "route Dashboard_page = (''GET'', [''/dashboard''])"
| "route Auth_check = (''GET'', [''/api/auth/check''])"
| "route (Login p) = (''POST'', [''/api/login''])"
| "route (Lease_new addr q) = (''GET'', [''/api/lease/new'', ''/api/config/new''])"
| "route Stats = (''GET'', [''/api/stats''])"
| "route Dashboard_data = (''GET'', [''/api/dashboard''])"
| "route Version = (''GET'', [''/api/version''])"
| "route Do_upgrade = (''POST'', [''/api/upgrade''])"
| "route (Update_config req) = (''POST'', [''/api/config/update''])"
| "route (Get_logs q) = (''GET'', [''/api/logs''])"
| "route Process_status = (''GET'', [''/api/process/status''])"
| "route Stop_worker = (''POST'', [''/api/stop''])"
| "route Start_worker = (''POST'', [''/api/start''])"
| "route Restart_worker = (''POST'', [''/api/restart''])"
| "route (Update_password p) = (''POST'', [''/api/password''])"

fun protected :: "api_call \<Rightarrow> bool" where
  "protected Health = False"
| "protected Ping = False"
| "protected Dashboard_page = False"
| "protected Auth_check = False"
| "protected (Login p) = False"
| "protected _ = True"

fun handle :: "app_state \<Rightarrow> api_call \<Rightarrow> ('z, response) os_op" where
  "handle st Health = health st"
| "handle st Ping = ping"
| "handle st Dashboard_page = dashboard_page"
| "handle st Auth_check = auth_check st"
| "handle st (Login p) = login st p"
| "handle st (Lease_new addr q) =
     and_then (attempt (lease_new st addr q)) (\<lambda>r.
     ok (case r of Inl e \<Rightarrow> into_response e | Inr resp \<Rightarrow> resp))"
| "handle st Stats = stats st"
| "handle st Dashboard_data = dashboard_data st"
| "handle st Version = get_version st"
| "handle st Do_upgrade = do_upgrade st"
| "handle st (Update_config req) = update_config req"
| "handle st (Get_logs q) = get_logs q"
| "handle st Process_status = process_status st"
| "handle st Stop_worker = stop_worker"
| "handle st Start_worker = start_worker"
| "handle st Restart_worker = restart_worker"
| "handle st (Update_password p) = update_password p"

definition serve :: "app_state \<Rightarrow> http_req \<Rightarrow> api_call \<Rightarrow> ('z, response) os_op" where
  "serve st req call =
     (if protected call then auth_middleware st req (handle st call) else handle st call)"

subsection \<open>Background tasks and shutdown\<close>

text \<open>One round of the registration loop: whether the loop ends.\<close>

definition registration_round :: "app_state \<Rightarrow> ('z, bool) os_op" where
  "registration_round st =
     and_then (attempt (register_with_mining_pool (as_config st) (as_wg_server st))) (\<lambda>r.
     ok (case r of Inr b \<Rightarrow> b | Inl (e :: app_error) \<Rightarrow> False))"

definition daemon_tick :: "app_state \<Rightarrow> ('z, unit) os_op" where
  "daemon_tick st =
     and_then (database_cleanup (as_config st) (as_wg_server st)) (\<lambda>_.
     and_then (attempt reload_from_db) (\<lambda>(_ :: app_error + nat).
     if is_worker (as_config st) then
       and_then (attempt (register_with_mining_pool (as_config st) (as_wg_server st))) (\<lambda>(_ :: app_error + bool). ok ())
     else ok ()))"

definition stop_serving :: "app_state \<Rightarrow> ('z, unit) os_op" where
  "stop_serving st =
     (case as_wg_server st of
        None \<Rightarrow> ok ()
      | Some wg \<Rightarrow> and_then (attempt shutdown) (\<lambda>(_ :: app_error + unit). ok ()))"

subsection \<open>The worker as a transition system\<close>

inductive worker_step :: "app_state \<Rightarrow> 'z os_st_scheme \<Rightarrow> 'z os_st_scheme \<Rightarrow> bool" for st where
  request: "worker_step st s (snd (serve st req call s))"
| registration: "is_worker (as_config st) \<Longrightarrow> worker_step st s (snd (registration_round st s))"
| tick: "0 < daemon_interval_s (as_config st) \<Longrightarrow> worker_step st s (snd (daemon_tick st s))"
| late: "task \<in> set (late_tasks s) \<Longrightarrow> worker_step st s (snd (run_late task s))"
| interrupt: "worker_step st s (snd (stop_serving st s))"

inductive serves :: "app_state \<Rightarrow> 'z os_st_scheme \<Rightarrow> 'z os_st_scheme \<Rightarrow> bool" for st s where
  up: "serves st s s"
| goes_on: "serves st s t \<Longrightarrow> exit_code t = None \<Longrightarrow> worker_step st t u \<Longrightarrow> serves st s u"

inductive_cases worker_step_elims: "worker_step st s t"

end
