(* ===== verification/Worker_Invariant.thy ===== *)
theory Worker_Invariant
  imports Worker
begin

text \<open>
  What stays true while the worker serves. The locale \<open>os_view\<close> is about files, commands, requests, the
  environment and the cache; \<open>os_invariant\<close> joins it with \<open>table_invariant\<close> and carries a property through
  the start. \<open>steps_invariant\<close> joins it with \<open>lease_invariant\<close>, adds what the running worker changes besides,
  and proves that a property of the kind survives every request, every registration, every round of
  the clean-up and every late task; \<open>worker_invariant\<close> gives both. Interpreted on the invariant of the
  tables and the credentials it gives the property at the end.
\<close>

locale os_view = env_invariant I for I :: "'z os_st_scheme \<Rightarrow> bool" +
  assumes os_blind:
      "I (s\<lparr>cmd_log := cs\<rparr>) = I s" "I (s\<lparr>http_log := hs\<rparr>) = I s" "I (s\<lparr>files := fs\<rparr>) = I s"
      "I (s\<lparr>file_modes := ms\<rparr>) = I s" "I (s\<lparr>fs_pos := n\<rparr>) = I s" "I (s\<lparr>env_vars := vs\<rparr>) = I s"
      "I (s\<lparr>late_tasks := ts\<rparr>) = I s"
    and app_blind: "I (s\<lparr>cache := c\<rparr>) = I s" "I (s\<lparr>instant_pos := n\<rparr>) = I s" "I (s\<lparr>lookup_pos := n\<rparr>) = I s"
begin

lemma keeps_os_primitives:
  "keeps I (run_command c)" "keeps I (send_request r)" "keeps I build_client" "keeps I (spawn_late t)"
  "keeps I (set_var k v)" "keeps I (path_exists p)" "keeps I instant_now" "keeps I (ask_dns name)"
  "keeps I (cache_remove key)"
  by (simp_all add: keeps_def run_command_def send_request_def build_client_def spawn_late_def
      set_var_def path_exists_def ask_dns_def cache_remove_def run_simps seq_simps os_blind app_blind split: sum.split)

lemma keeps_file_op: "(\<And>s. I s \<Longrightarrow> I (snd (f s))) \<Longrightarrow> keeps I (file_op f)"
  by (simp add: keeps_def run_file_op os_blind split: option.split)

lemma keeps_leave_partial: "keeps I m \<Longrightarrow> keeps I (leave_partial p m)"
  unfolding leave_partial_def
  by (intro keeps_rules) (simp_all add: keeps_def run_simps os_blind split: sum.split option.split)

lemma keeps_files:
  "keeps I (read_to_string p)" "keeps I (open_file p)" "keeps I (write_file p c)" "keeps I (copy_file p q)"
  "keeps I (remove_file p)" "keeps I (set_permissions p m)"
  unfolding read_to_string_def open_file_def write_file_def copy_file_def remove_file_def set_permissions_def
  by (intro keeps_rules keeps_leave_partial keeps_file_op keeps_os_primitives; simp add: os_blind split: option.split)+

lemmas keeps_primitives = keeps_os_primitives keeps_files

lemma keeps_env_update: "keeps I (update_env_value k v)"
  unfolding update_env_value_def by (intro keeps_rules keeps_primitives)

lemma keeps_fill_secrets: "keeps I (fill_secrets cfg)"
  unfolding fill_secrets_def ensure_secret_def by (intro keeps_rules env)

lemma keeps_create_pool: "keeps I create_pool"
  unfolding create_pool_def by (intro keeps_rules env) simp_all

lemma keeps_commands: "keeps I (run_ignored c)" "keeps I (command_ok c)" "keeps I (add_unless c d)"
  unfolding run_ignored_def command_ok_def add_unless_def
  by (intro keeps_rules keeps_primitives keeps_primitives(1) [THEN keeps_and_then])+

lemma keeps_preflight: "keeps I preflight_check"
  unfolding preflight_check_def ensure_module_def ensure_tun_def
  by (intro keeps_rules keeps_primitives keeps_commands)

lemma keeps_reach_loop: "keeps I (reach_loop fuel srv t0 ms)"
  by (induction fuel)
    (auto simp: public_udp_reachable_def intro!: keeps_rules keeps_primitives)

lemma keeps_wait: "keeps I (wait_for_public_udp_reachability fuel srv ms)"
  unfolding wait_for_public_udp_reachability_def by (intro keeps_rules keeps_reach_loop keeps_primitives)

lemma keeps_open_ports: "keeps I (open_ports cfg)"
  unfolding open_ports_def ensure_tcp_input_accept_def
  by (intro keeps_rules keeps_commands)

end

locale os_invariant = table_invariant I + os_view I for I :: "'z os_st_scheme \<Rightarrow> bool"
begin

lemma keeps_start_server: "keeps I (start_server srv)"
  unfolding start_server_def create_interface_def setup_networking_def detect_default_interface_def
    ensure_masquerade_def ensure_route_def Let_def
  by (intro keeps_rules keeps_primitives keeps_commands env blind)

lemma keeps_restore: "keeps I (restore_peers srv)"
  unfolding restore_peers_def by (intro keeps_rules env blind) simp_all

end

locale steps_invariant = lease_invariant I "as_wg_server st" + os_view I for I :: "'z os_st_scheme \<Rightarrow> bool" and st :: app_state +
  assumes exits: "I (s\<lparr>exit_code := x\<rparr>) = I s"
    and reg_inserts: "I s \<Longrightarrow> I (insert_reg url b code r m now s)"
    and reg_trims: "I s \<Longrightarrow> I (s\<lparr>reg_log := trim_log (reg_log s)\<rparr>)"
    and reloads: "I s \<Longrightarrow> I (s\<lparr>credentials := fold (\<lambda>c m. m(username c \<mapsto> password c)) (socks_configs s) Map.empty\<rparr>)"
begin

lemma keeps_exit: "keeps I (exit_process n)"
  by (simp add: keeps_def exit_process_def run_simps exits)

lemma keeps_lease_new: "keeps I (lease_new st addr q)"
  unfolding lease_new_def check_access_def check_token_def resolve_domain_to_ipv4s_def resolve_ipv4s_fresh_def
    cache_get_string_def cache_set_string_def cache_get_def cache_set_def Let_def
  by (intro keeps_rules keeps_primitives keeps_get_worker_config env; simp add: keeps_def run_simps app_blind)

lemma keeps_reload: "keeps I reload_from_db"
proof (rule keepsI)
  fix s assume "I s"
  then have d: "I (s\<lparr>db_pos := Suc (db_pos s)\<rparr>)" by (simp add: env_blindD [OF env])
  from reloads [OF d] d show "I (snd (reload_from_db s))"
    by (simp add: reload_from_db_def load_from_db_def remember_def sql_def Let_def seq_simps run_simps split: option.split)
qed

lemma keeps_register_pool: "keeps I (register_with_mining_pool cfg (as_wg_server st))"
  unfolding register_with_mining_pool_def attach_wireguard_def attach_socks5_def probe_lease_def public_udp_reachable_def
    broadcast_def prefix_err_def insert_registration_def Let_def
  by (intro keeps_rules keeps_primitives keeps_get_worker_config env; simp add: reg_inserts reg_trims)

lemma keeps_update_config: "keeps I (update_config req)"
  unfolding update_config_def update_fields_def text_field_def port_field_def set_field_def
  by (intro keeps_rules keeps_env_update)

lemma keeps_do_upgrade: "keeps I (do_upgrade st)"
  unfolding do_upgrade_def install_def replace_binary_def or_return_def drop_result_def failed_def Let_def
  by (intro keeps_rules keeps_primitives)

lemma keeps_uptime: "keeps I (uptime_seconds st)" "keeps I (available_socks cfg)"
  unfolding uptime_seconds_def available_socks_def by (intro keeps_rules keeps_open_leases env)+

lemma keeps_reports:
  "keeps I (health st)" "keeps I (stats st)" "keeps I (dashboard_data st)" "keeps I (get_logs q)" "keeps I (get_version st)"
  "keeps I (process_status st)" "keeps I start_worker" "keeps I stop_worker" "keeps I restart_worker" "keeps I ping"
  "keeps I dashboard_page"
  unfolding health_def stats_def dashboard_data_def get_logs_def get_version_def process_status_def start_worker_def
    stop_worker_def restart_worker_def ping_def dashboard_page_def Let_def
  by (intro keeps_rules keeps_primitives keeps_uptime keeps_open_leases env)+

lemma keeps_auth: "keeps I (login st p)" "keeps I (update_password p)" "keeps I (auth_check st)" "keeps I (verify_token t k)"
  unfolding login_def generate_token_def update_password_def auth_check_def verify_token_def Let_def
  by (intro keeps_rules keeps_env_update env)+

lemma keeps_check_parts: "keeps I (check_parts secret parts)"
  by (induction parts) (auto intro!: keeps_rules keeps_auth split: option.split)

lemma keeps_handle: "keeps I (handle st call)"
  by (cases call) (auto intro!: keeps_rules keeps_lease_new keeps_reports keeps_auth keeps_do_upgrade keeps_update_config)

lemma keeps_serve: "keeps I (serve st req call)"
  unfolding serve_def auth_middleware_def Let_def
  by (intro keeps_rules keeps_handle keeps_auth keeps_check_parts)

lemma keeps_background:
  "keeps I (registration_round st)" "keeps I (daemon_tick st)" "keeps I (run_late task)" "keeps I (stop_serving st)"
proof -
  show "keeps I (registration_round st)" "keeps I (daemon_tick st)"
    unfolding registration_round_def daemon_tick_def
    by (intro keeps_rules keeps_register_pool cleans keeps_reload)+
  show "keeps I (run_late task)"
    by (cases task) (auto simp: run_ignored_def intro!: keeps_rules keeps_primitives keeps_exit)
  show "keeps I (stop_serving st)"
    unfolding stop_serving_def by (intro keeps_rules shuts_down)
qed

lemma step_keeps: "worker_step st s t \<Longrightarrow> I s \<Longrightarrow> I t"
  by (erule worker_step_elims)
    (simp_all add: keepsD [OF keeps_serve] keepsD [OF keeps_background(1)] keepsD [OF keeps_background(2)]
      keepsD [OF keeps_background(3)] keepsD [OF keeps_background(4)])

lemma serves_keeps: "serves st s t \<Longrightarrow> I s \<Longrightarrow> I t"
  by (induction rule: serves.induct) (auto intro: step_keeps)

end

locale worker_invariant = os_invariant I for I :: "'z os_st_scheme \<Rightarrow> bool" +
  assumes exit_blind: "I (s\<lparr>exit_code := x\<rparr>) = I s"
    and reg_insert: "I s \<Longrightarrow> I (insert_reg url b code r m now s)"
    and reg_trim: "I s \<Longrightarrow> I (s\<lparr>reg_log := trim_log (reg_log s)\<rparr>)"
    and reload: "I s \<Longrightarrow> I (s\<lparr>credentials := fold (\<lambda>c m. m(username c \<mapsto> password c)) (socks_configs s) Map.empty\<rparr>)"

sublocale worker_invariant \<subseteq> steps_invariant I st for st
  by unfold_locales (simp_all add: exit_blind reg_insert reg_trim reload)

subsection \<open>The invariant of the running worker\<close>

definition serving_ok :: "'z os_st_scheme \<Rightarrow> bool" where
  "serving_ok s \<longleftrightarrow> wg_ok s \<and> socks_ok s \<and> reg_ok s \<and> synced s"

lemma reload_synced:
  "socks_ok s \<Longrightarrow> fold (\<lambda>c m. m(username c \<mapsto> password c)) (socks_configs s) Map.empty = sock_password (socks_configs s)"
  by (rule sock_password_fold) (simp add: socks_ok_def)

interpretation serving: worker_invariant serving_ok
proof unfold_locales
  show "wg_blind serving_ok"
    by (simp add: wg_blind_def env_blind_def serving_ok_def wg_ok_def socks_ok_def reg_ok_def synced_def)
next
  fix s f assume "serving_ok s" "wg_keys_kept f"
  then show "serving_ok (update_wg f s)"
    by (auto simp: serving_ok_def wg_keys_kept_def update_wg_def wg_ok_def socks_ok_def reg_ok_def synced_def)
next
  fix s g assume s: "serving_ok s" "sock_keys_kept g"
  then have "socks_ok (update_socks g s)" "synced (update_socks g s)"
    by (auto simp: serving_ok_def sock_keys_keptD intro: socks_ok_update synced_update)
  with s(1) show "serving_ok (update_socks g s)" by (simp add: serving_ok_def update_socks_def wg_ok_def reg_ok_def)
next
  fix s url b code r m now assume "serving_ok s"
  then show "serving_ok (insert_reg url b code r m now s)"
    using reg_ok_insert [of s url b _ r m now] by (simp add: serving_ok_def insert_reg_def wg_ok_def socks_ok_def synced_def)
next
  fix s assume s: "serving_ok s"
  then have "reg_ok (s\<lparr>reg_log := drop (length (reg_log s) - 200) (reg_log s)\<rparr>)"
    by (simp add: serving_ok_def reg_ok_trimmed)
  with s show "serving_ok (s\<lparr>reg_log := trim_log (reg_log s)\<rparr>)"
    by (simp add: serving_ok_def reg_ok_def [of s] trim_log_strict) (simp add: wg_ok_def socks_ok_def synced_def)
next
  fix s assume "serving_ok s"
  then show "serving_ok (s\<lparr>credentials := fold (\<lambda>c m. m(username c \<mapsto> password c)) (socks_configs s) Map.empty\<rparr>)"
    by (simp add: serving_ok_def reload_synced) (simp add: wg_ok_def socks_ok_def reg_ok_def synced_def)
qed (simp_all add: env_blind_def serving_ok_def wg_ok_def socks_ok_def reg_ok_def synced_def)

text \<open>While the worker serves, whatever is requested by whom, whatever statement, command, file or
  network operation fails, and however requests, registrations, clean-ups and late tasks follow one
  another: there is one lease row per peer id and one credential per user name, the proxies accept exactly the
  credentials in the table (so those that were leased), and the registration log is in order. The first state is
  one in which this holds (\<open>Worker_Start\<close> says when a start leads to one).\<close>

theorem serving_invariant:
  assumes "serving_ok s" and "serves st s t"
  shows "distinct (map wg_id (wg_configs t)) \<and> distinct (map username (socks_configs t)) \<and>
     (\<forall>u p. authenticate (credentials t) u p \<longleftrightarrow> (\<exists>r \<in> set (socks_configs t). username r = u \<and> password r = p)) \<and>
     sorted_wrt (<) (map reg_id (reg_log t))"
proof -
  have t: "wg_ok t" "socks_ok t" "reg_ok t" "synced t"
    using serving.serves_keeps [OF assms(2,1)] by (simp_all add: serving_ok_def)
  then have d: "distinct (map username (socks_configs t))" by (simp add: socks_ok_def)
  have "sock_password (socks_configs t) u = Some p \<longleftrightarrow> (\<exists>r \<in> set (socks_configs t). username r = u \<and> password r = p)" for u p
    using key_map_row [OF d, of _ password] key_map_SomeD [of username password "socks_configs t" u p]
    by (auto simp: sock_password_def)
  with t d show ?thesis by (simp add: wg_ok_def reg_ok_def synced_def authenticate_iff)
qed

definition serving_os :: os_st where
  "serving_os = demo_os\<lparr>socks_configs := [demo_sock 1 ''a'' True 0, demo_sock 2 ''b'' True 0], socks_seq := 2,
     credentials := [''b'' \<mapsto> ''pb'', ''a'' \<mapsto> ''pa'']\<rparr>"

lemma serving_os_ok: "serving_ok serving_os"
  by (simp add: serving_ok_def serving_os_def wg_ok_def socks_ok_def reg_ok_def synced_def sock_password_def demo_sock_def)

theorem serving_invariant_witness:
  "\<forall>r \<in> set (socks_configs (snd (serve demo_state \<lparr>rq_authorization = None, rq_query = None\<rparr>
       (Lease_new (IpV4 (Ipv4 127 0 0 1)) demo_params) serving_os))).
     authenticate (credentials (snd (serve demo_state \<lparr>rq_authorization = None, rq_query = None\<rparr>
       (Lease_new (IpV4 (Ipv4 127 0 0 1)) demo_params) serving_os))) (username r) (password r)"
proof -
  let ?t = "snd (serve demo_state \<lparr>rq_authorization = None, rq_query = None\<rparr>
       (Lease_new (IpV4 (Ipv4 127 0 0 1)) demo_params) serving_os)"
  have "exit_code serving_os = None" by (simp add: serving_os_def)
  then have "serves demo_state serving_os ?t" by (rule goes_on [OF up _ request])
  from serving_invariant [OF serving_os_ok this] show ?thesis by blast
qed

text \<open>C10: Without a token nobody gets past the login: when a password is set, a request for a protected endpoint that
  presents no token valid at that moment gets a 401, and nothing has happened but readings of the
  clock; requests for the five public endpoints are served.\<close>

theorem protected_calls_need_token:
  assumes "login_password (as_config st) \<noteq> []" and "\<not> some_valid (jwt_secret (as_config st)) s (presented req)"
  shows "\<exists>k. serve st req call s =
     (if call \<in> range Login \<union> {Health, Ping, Dashboard_page, Auth_check} then handle st call s
      else (Inr unauthorized, s\<lparr>clock_pos := clock_pos s + k\<rparr>))"
proof -
  have "protected call \<longleftrightarrow> call \<notin> range Login \<union> {Health, Ping, Dashboard_page, Auth_check}" by (cases call) auto
  then show ?thesis using auth_middleware_spec [OF assms(1), of req "handle st call" s] assms(2) by (simp add: serve_def)
qed

theorem protected_calls_need_token_witness:
  "\<exists>k. serve guarded_app \<lparr>rq_authorization = None, rq_query = Some ''token=0''\<rparr> Stop_worker (jwt_os\<lparr>clock_pos := 100000\<rparr>) =
     (Inr unauthorized, jwt_os\<lparr>clock_pos := k\<rparr>)"
proof -
  let ?req = "\<lparr>rq_authorization = None, rq_query = Some ''token=0''\<rparr>" and ?s = "jwt_os\<lparr>clock_pos := 100000\<rparr>"
  have "presented ?req = [''0'']" using presented_query [of "''0''"] by (simp add: graphic_def)
  moreover have "parse_i64 ''0'' = Some 0" by code_simp
  moreover have "clock jwt_os = (\<lambda>n. 1000 + int n)" by (simp add: jwt_os_def)
  ultimately have "\<not> some_valid (jwt_secret (as_config guarded_app)) ?s (presented ?req)"
    by (simp add: some_valid_def valid_at_def jwt_os_def)
  moreover have "login_password (as_config guarded_app) \<noteq> []" by (simp add: guarded_app_def)
  ultimately show ?thesis using protected_calls_need_token [of guarded_app ?s ?req Stop_worker] by auto
qed

end
