(* ===== verification/Worker_Start.thy ===== *)
theory Worker_Start
  imports Worker_Invariant
begin

text \<open>
  From the start of the process to any later moment: \<open>bring_up\<close> (the middle of \<open>main\<close> in
  \<open>src/src/main.rs\<close>) runs every component's own start, and what these establish is what
  \<open>Worker_Invariant\<close> needs. The locale \<open>start_invariant\<close> says which properties survive the parts of
  the start that set up keys, interface, firewall and shared state.
\<close>

locale start_invariant = worker_invariant +
  assumes server_keys: "I s \<Longrightarrow> I (s\<lparr>wg_servers := ks\<rparr>)"
begin

lemma keeps_or_quit: "keeps I m \<Longrightarrow> keeps I (or_quit m)"
  unfolding or_quit_def quit_def by (intro keeps_rules keeps_exit)

lemma keeps_new_server: "keeps I (new_server cfg)"
  unfolding new_server_def load_or_create_server_keys_def
  by (intro keeps_rules env blind) (simp_all add: server_keys)

lemma keeps_open_log: "keeps I open_log"
  unfolding open_log_def quit_def by (intro keeps_rules keeps_file_op keeps_exit) (simp add: os_blind)

lemma keeps_start_wireguard: "keeps I (start_wireguard fuel cfg)"
  unfolding start_wireguard_def
  by (intro keeps_rules keeps_or_quit keeps_preflight keeps_new_server keeps_start_server keeps_restore keeps_wait)

end

subsection \<open>Accounts come from the table\<close>

definition accounts_sound :: "'z cred_st_scheme \<Rightarrow> bool" where
  "accounts_sound s \<longleftrightarrow>
     (\<forall>u p. credentials s u = Some p \<longrightarrow> (u, p) \<in> (\<lambda>r. (username r, password r)) ` set (socks_configs s))"

lemma env_blind_sound [simp]: "env_blind accounts_sound"
  by (simp add: env_blind_def accounts_sound_def)

lemma synced_sound: "synced s \<Longrightarrow> accounts_sound s"
  unfolding accounts_sound_def synced_def sock_password_def by (fastforce dest: key_map_SomeD)

lemma empty_sound: "credentials s = Map.empty \<Longrightarrow> accounts_sound s"
  by (simp add: accounts_sound_def)

lemma fold_accounts:
  "fold (\<lambda>c m. m(username c \<mapsto> password c)) cs m u = Some p \<Longrightarrow>
   m u = Some p \<or> (u, p) \<in> (\<lambda>r. (username r, password r)) ` set cs"
  by (induction cs arbitrary: m) (fastforce split: if_splits)+

lemma reload_sound:
  "accounts_sound (s\<lparr>credentials := fold (\<lambda>c m. m(username c \<mapsto> password c)) (socks_configs s) Map.empty\<rparr>)"
  unfolding accounts_sound_def by (fastforce dest: fold_accounts)

lemma sound_table: "sock_keys_kept f \<Longrightarrow> accounts_sound s \<Longrightarrow> accounts_sound (update_socks f s)"
  by (simp add: accounts_sound_def sock_keys_keptD)

lemma keeps_sync_host_port: "keeps accounts_sound sync_host_port"
  unfolding sync_host_port_def
  by (intro keeps_rules env_blind_sound) (simp add: sound_table sock_keys_kept_def sync_rows_def)

text \<open>Whatever fails while a batch is written, only rows of the table are remembered.\<close>

lemma write_and_remember_sound:
  assumes "credentials s = Map.empty" and "and_then (write_socks cs) (\<lambda>_. remember cs) s = (r, t)"
  shows "accounts_sound t"
proof (cases "cs = []")
  case True
  with assms show ?thesis by (auto simp: write_socks_def remember_def seq_simps run_simps empty_sound)
next
  case False
  obtain w u where Pair: "write_socks cs s = (w, u)" by fastforce
  have "manager_is Map.empty (cm_host s) (cm_port s) s" using assms(1) by (simp add: manager_is_def)
  from keepsD [OF manager_write_socks this, of cs] have u: "credentials u = Map.empty"
    using Pair by (simp add: manager_is_def)
  show ?thesis
  proof (cases w)
    case (Inl e)
    with Pair assms(2) u show ?thesis by (simp add: run_and_then empty_sound)
  next
    case (Inr x)
    with Pair assms(2) have "and_then (write_socks cs) (\<lambda>_. remember cs) s = (Inr (), t)"
      by (auto simp: run_and_then remember_def run_simps)
    from write_and_remember [OF this assms(1)] False show ?thesis by (simp add: synced_sound)
  qed
qed

lemma load_sound: "load_from_db s = (r, t) \<Longrightarrow> credentials s = Map.empty \<Longrightarrow>
   accounts_sound t \<and> (r = Inr 0 \<longrightarrow> credentials t = Map.empty \<and> socks_configs t = [])"
  using reload_sound [of s]
  by (auto simp: load_from_db_def remember_def sql_def Let_def seq_simps run_simps empty_sound accounts_sound_def
      split: option.splits)

lemma generate_sound:
  assumes "generate_credentials s = (r, t)" and "credentials s = Map.empty" and "socks_configs s = []"
  shows "accounts_sound t"
proof -
  obtain g u where g: "generate_socks (cm_total_slots s) s = (g, u)" by fastforce
  have "data_is (socks_configs s) (socks_seq s) (credentials s) (cm_host s) (cm_port s) u"
    using keepsD [OF keeps_generate_socks [OF env_blind_data],
        of "socks_configs s" "socks_seq s" "credentials s" "cm_host s" "cm_port s" s "cm_total_slots s"] g
    by (simp add: data_is_def manager_is_def)
  then have u: "credentials u = Map.empty" "socks_configs u = []"
    using assms(2,3) by (simp_all add: data_is_def manager_is_def)
  show ?thesis
  proof (cases g)
    case (Inl e)
    with g assms(1) u(1) show ?thesis by (auto simp: generate_credentials_def seq_simps run_simps empty_sound)
  next
    case (Inr cs)
    with g assms(1) have "and_then (write_socks cs) (\<lambda>_. remember cs) u = (r, t)"
      by (simp add: generate_credentials_def seq_simps run_simps)
    then show ?thesis by (rule write_and_remember_sound [OF u(1)])
  qed
qed

text \<open>Only an unreadable or blank legacy directory leaves the memory without the accounts of the table.\<close>

lemma migrate_sound:
  assumes "migrate_from_password_files dir s = (r, t)" and "credentials s = Map.empty"
  shows "accounts_sound t"
proof (cases "t = s")
  case True
  with assms(2) show ?thesis by (simp add: empty_sound)
next
  case False
  with assms(1) obtain cs where "and_then (write_socks cs) (\<lambda>_. remember cs) s = (r, t)"
    by (auto simp: migrate_from_password_files_def read_dir_def run_and_then run_gets run_of_result run_ok run_err
        split: option.splits sum.splits)
  then show ?thesis by (rule write_and_remember_sound [OF assms(2)])
qed

lemma initialize_sound:
  assumes "initialize dir s = (r, t)" and "credentials s = Map.empty"
  shows "accounts_sound t"
proof -
  have load: "accounts_sound u" if "load_or_generate s = (x, u)" for x u
  proof (cases "load_from_db s")
    case (Pair n v)
    note l = load_sound [OF this assms(2)]
    show ?thesis
    proof (cases "n = Inr 0")
      case True
      with that Pair have "generate_credentials v = (x, u)" by (simp add: load_or_generate_def run_and_then)
      then show ?thesis using generate_sound l True by blast
    next
      case False
      with that Pair l show ?thesis by (auto simp: load_or_generate_def run_and_then run_simps split: sum.splits)
    qed
  qed
  have sync: "accounts_sound u \<Longrightarrow> accounts_sound (snd (sync_host_port u))" for u :: "'a cred_st_scheme"
    by (rule keepsD [OF keeps_sync_host_port])
  have "snd (has_password_files dir s) = s"
    by (auto simp: has_password_files_def seq_simps run_simps split: option.split sum.split)
  then obtain b where b: "has_password_files dir s = (b, s)" by (metis prod.collapse)
  show ?thesis
  proof (cases b)
    case (Inl e)
    with assms b show ?thesis by (simp add: initialize_def run_and_then empty_sound)
  next
    case (Inr legacy)
    obtain x u where m: "(if legacy then migrate_from_password_files dir else load_or_generate) s = (x, u)" by fastforce
    have "accounts_sound u" using m load migrate_sound [OF _ assms(2)] by (cases legacy) simp_all
    with sync have "accounts_sound (snd (sync_host_port u))" "accounts_sound u" by simp_all
    with assms(1) b Inr m show ?thesis
      by (cases x) (auto simp: initialize_def run_and_then run_map_err split: prod.splits sum.splits)
  qed
qed

subsection \<open>Accounts and tables while the worker serves\<close>

definition tables_ok :: "'z wg_st_scheme \<Rightarrow> bool" where
  "tables_ok s \<longleftrightarrow> wg_ok s \<and> reg_ok s"

interpretation tables: start_invariant tables_ok
proof unfold_locales
  show "wg_blind tables_ok" by (simp add: wg_blind_def env_blind_def tables_ok_def wg_ok_def reg_ok_def)
next
  fix s f assume "tables_ok s" "wg_keys_kept f"
  then show "tables_ok (update_wg f s)" by (auto simp: tables_ok_def wg_keys_kept_def update_wg_def wg_ok_def reg_ok_def)
next
  fix s url b code r m now assume "tables_ok s"
  then show "tables_ok (insert_reg url b code r m now s)"
    using reg_ok_insert [of s url b _ r m now] by (simp add: tables_ok_def insert_reg_def wg_ok_def)
next
  fix s assume s: "tables_ok s"
  then have "reg_ok (s\<lparr>reg_log := drop (length (reg_log s) - 200) (reg_log s)\<rparr>)"
    by (simp add: tables_ok_def reg_ok_trimmed)
  with s show "tables_ok (s\<lparr>reg_log := trim_log (reg_log s)\<rparr>)"
    by (simp add: tables_ok_def reg_ok_def [of s] trim_log_strict) (simp add: wg_ok_def)
qed (simp_all add: env_blind_def tables_ok_def wg_ok_def reg_ok_def update_socks_def)

interpretation accounts: start_invariant accounts_sound
proof unfold_locales
  show "wg_blind accounts_sound" by (simp add: wg_blind_def accounts_sound_def env_blind_def)
next
  fix s f assume "accounts_sound s"
  then show "accounts_sound (update_wg f s)" by (simp add: accounts_sound_def update_wg_def)
next
  fix s url b code r m now assume "accounts_sound s"
  then show "accounts_sound (insert_reg url b code r m now s)" by (simp add: accounts_sound_def insert_reg_def)
qed (simp_all add: env_blind_def sound_table reload_sound, simp_all add: accounts_sound_def)

subsection \<open>What a start establishes\<close>

lemma or_quit_Inr: "or_quit m s = (Inr x, t) \<longleftrightarrow> m s = (Inr x, t)"
  by (cases "m s") (auto simp: or_quit_def run_and_then run_attempt quit_Inr run_ok split: sum.splits)

lemma bring_up_Inr:
  assumes "bring_up fuel v cfg s = (Inr st, u)"
  obtains c s0 s1 s2 s3 srv s4 s5 s6 where "fill_secrets cfg s = (Inr c, s0)"
    "create_pool s1 = (Inr (), s2)"
    "init_database c s2 = (Inr (), s3)" "start_wireguard fuel c s3 = (Inr srv, s4)"
    "start_credentials c s4 = (Inr (), s5)" "open_ports c s5 = (Inr (), s6)"
    "u = s6\<lparr>lock_names := [], cache := Map.empty, clock_pos := Suc (clock_pos s6)\<rparr>"
    "open_log s0 = (Inr (), s1)" "as_config st = c" "as_wg_server st = srv"
  using assms by (auto simp: bring_up_def inv_simps or_quit_Inr)

lemma fill_secrets_config: "fill_secrets cfg s = (Inr c, t) \<Longrightarrow> run_mode c = run_mode cfg \<and> password_dir c = password_dir cfg"
  by (auto simp: fill_secrets_def inv_simps)

lemma tables_drop: "tables_ok s \<Longrightarrow> tables_ok (drop_table n s)"
  by (simp add: drop_table_def tables_ok_def wg_ok_def reg_ok_def)

lemma tables_dedup: "tables_ok s \<Longrightarrow> tables_ok (update_socks f s)"
  by (simp add: tables_ok_def wg_ok_def reg_ok_def update_socks_def)

lemma tables_init: "keeps tables_ok (init_database cfg :: ('z, unit) os_op)"
  unfolding init_database_def ensure_unique_usernames_def unique_index_def Let_def
  by (intro keeps_rules tables.env) (simp_all add: tables_drop tables_dedup)

lemma start_credentials_worker:
  assumes "start_credentials cfg s = (Inr (), t)"
  shows "accounts_sound t"
proof -
  let ?m = "new_manager (server_public_host cfg) (socks5_port cfg) (proxy_credential_count cfg) (priority_slots cfg) s"
  have c: "credentials ?m = Map.empty" by (simp add: new_manager_def)
  show ?thesis
  proof (cases "is_worker cfg")
    case True
    obtain r u where r: "initialize (password_dir cfg) ?m = (r, u)" by fastforce
    with assms True have "t = u"
      by (auto simp: start_credentials_def run_and_then run_modify run_attempt run_ok quit_Inr
          split: sum.splits init_error.splits prod.splits)
    then show ?thesis using initialize_sound [OF r c] by simp
  next
    case False
    with assms c show ?thesis by (auto simp: start_credentials_def run_and_then run_modify run_ok empty_sound)
  qed
qed

lemma tables_initialize: "keeps tables_ok (start_credentials cfg :: ('z, unit) os_op)"
proof -
  have up: "tables_ok (upsert_sock n c s)" if "tables_ok s" for n c and s :: "'z os_st_scheme"
    using that by (simp add: tables_ok_def wg_ok_def reg_ok_def upsert_sock_def)
  show ?thesis
    unfolding start_credentials_def new_manager_def initialize_def has_password_files_def migrate_from_password_files_def
      read_dir_def load_or_generate_def load_from_db_def remember_def generate_credentials_def write_socks_def
      sync_host_port_def quit_def
    by (intro keeps_rules tables.env tables.keeps_primitives tables.keeps_exit)
      (simp_all add: up tables_dedup, simp_all add: keeps_def run_simps seq_simps exit_process_def tables_ok_def wg_ok_def reg_ok_def split: init_error.split)
qed

text \<open>Without legacy files and failing statements the memory holds all accounts of the table.\<close>

definition plain_start :: "string \<Rightarrow> 'z wg_st_scheme \<Rightarrow> bool" where
  "plain_start dir s \<longleftrightarrow> socks_ok s \<and> no_faults s \<and> fs_dirs s dir = None"

interpretation plain: start_invariant "plain_start dir"
proof unfold_locales
  show "wg_blind (plain_start dir)"
    by (simp add: wg_blind_def env_blind_def plain_start_def socks_ok_def no_faults_def)
next
  fix s :: "'a os_st_scheme" and g assume s: "plain_start dir s" "sock_keys_kept g"
  then have "socks_ok (update_socks g s)" by (simp add: plain_start_def sock_keys_keptD socks_ok_update)
  with s(1) show "plain_start dir (update_socks g s)" by (simp add: plain_start_def no_faults_def update_socks_def)
qed (simp_all add: env_blind_def plain_start_def socks_ok_def no_faults_def update_wg_def insert_reg_def)

lemma upsert_all_run:
  assumes "no_faults s"
  shows "\<exists>t. for_each (\<lambda>c. sql_exec (upsert_sock now c)) cs s = (Inr (), t) \<and> no_faults t"
  using assms
proof (induction cs arbitrary: s)
  case Nil
  then show ?case by (simp add: run_simps)
next
  case (Cons c cs)
  have "no_faults (upsert_sock now c (s\<lparr>db_pos := Suc (db_pos s)\<rparr>))"
    using Cons.prems by (simp add: no_faults_def upsert_sock_def)
  from Cons.IH [OF this] Cons.prems show ?case by (simp add: no_faults_def seq_simps run_simps)
qed

lemma write_socks_run: "no_faults s \<Longrightarrow> \<exists>t. write_socks cs s = (Inr (), t) \<and> no_faults t"
  using upsert_all_run [of "s\<lparr>clock_pos := Suc (clock_pos s)\<rparr>" "clock s (clock_pos s)" cs]
  by (auto simp: write_socks_def no_faults_def update_socks_def seq_simps run_simps)

lemma draw_chars_run: "\<exists>cs t. draw_chars f b n s = (Inr cs, t) \<and> db_fault t = db_fault s"
proof (induction n arbitrary: s)
  case (Suc n)
  from this [of "s\<lparr>rand_pos := Suc (rand_pos s)\<rparr>"] show ?case by (auto simp: seq_simps run_simps)
qed (simp add: run_simps)

lemma generate_socks_run: "\<exists>cs t. generate_socks n s = (Inr cs, t) \<and> db_fault t = db_fault s"
proof (induction n arbitrary: s)
  case (Suc n)
  obtain u a where a: "draw_chars username_char 36 8 s = (Inr u, a)" "db_fault a = db_fault s" using draw_chars_run by blast
  obtain p b where b: "draw_chars password_char 62 32 a = (Inr p, b)" "db_fault b = db_fault a" using draw_chars_run by blast
  from Suc [of b] a b show ?case by (auto simp: generate_username_def generate_password_def seq_simps run_simps)
qed (simp add: run_simps)

lemma initialize_run:
  assumes "no_faults s" and "fs_dirs s dir = None"
  shows "\<exists>t. initialize dir s = (Inr (), t)"
proof -
  have sync: "\<exists>t. sync_host_port u = (Inr (), t)" if "no_faults u" for u :: "'a cred_st_scheme"
    using that by (simp add: sync_host_port_def no_faults_def seq_simps run_simps)
  obtain n u where l: "load_from_db s = (Inr n, u)" "no_faults u"
    using assms(1) by (auto simp: load_from_db_def remember_def no_faults_def seq_simps run_simps)
  obtain cs v where g: "generate_socks (cm_total_slots u) u = (Inr cs, v)" "no_faults v"
    using generate_socks_run [of "cm_total_slots u" u] l(2) by (auto simp: no_faults_def)
  obtain w where w: "write_socks cs v = (Inr (), w)" "no_faults w" using write_socks_run [OF g(2)] by blast
  have "\<exists>x. load_or_generate s = (Inr (), x) \<and> no_faults x"
    using l g w by (simp add: load_or_generate_def generate_credentials_def remember_def seq_simps run_simps no_faults_def)
  then obtain x where "load_or_generate s = (Inr (), x)" "no_faults x" by blast
  with sync [of x] assms(2) show ?thesis by (auto simp: initialize_def has_password_files_def seq_simps run_simps)
qed

text \<open>What the primary key promises; the user names are made unique at the start.\<close>

definition sock_ids_ok :: "'z db_st_scheme \<Rightarrow> bool" where
  "sock_ids_ok s \<longleftrightarrow>
     distinct (map sock_id (socks_configs s)) \<and> (\<forall>i \<in> set (map sock_id (socks_configs s)). i \<le> socks_seq s)"

lemma init_database_plain:
  assumes "init_database cfg s = (Inr (), t)" and "run_mode cfg = Worker" and "sock_ids_ok s" and "no_faults s"
    and "fs_dirs s dir = None"
  shows "plain_start dir t"
proof (cases "ci_mode cfg \<or> force_destroy_database cfg")
  case True
  with assms show ?thesis
    by (auto simp: init_database_def Let_def dropped_tables_def drop_table_def ensure_unique_usernames_def
        unique_index_def no_faults_def plain_start_def socks_ok_def seq_simps run_simps)
next
  case False
  have d: "distinct (map username (dedup_socks (socks_configs s)))" "distinct (map sock_id (dedup_socks (socks_configs s)))"
    using dedup_socks_spec [of "socks_configs s"] assms(3) by (simp_all add: sock_ids_ok_def dedup_socks_def distinct_map_filter)
  have "\<forall>i \<in> set (map sock_id (dedup_socks (socks_configs s))). i \<le> socks_seq s"
    using assms(3) by (auto simp: sock_ids_ok_def dedup_socks_def)
  with False assms d show ?thesis
    by (auto simp: init_database_def Let_def ensure_unique_usernames_def unique_index_def no_faults_def plain_start_def
        socks_ok_def sock_ids_ok_def update_socks_def seq_simps run_simps split: if_splits)
qed

lemma bring_up_sound:
  fixes s u :: "'z os_st_scheme"
  assumes "bring_up fuel v cfg s = (Inr st, u)"
  shows "accounts_sound u" and "tables_ok s \<Longrightarrow> tables_ok u"
proof -
  obtain c s0 s1 s2 s3 srv s4 s5 s6 where run: "fill_secrets cfg s = (Inr c, s0)"
    "create_pool s1 = (Inr (), s2)"
    "init_database c s2 = (Inr (), s3)" "start_wireguard fuel c s3 = (Inr srv, s4)"
    "start_credentials c s4 = (Inr (), s5)" "open_ports c s5 = (Inr (), s6)"
    "u = s6\<lparr>lock_names := [], cache := Map.empty, clock_pos := Suc (clock_pos s6)\<rparr>"
    "open_log s0 = (Inr (), s1)"
    using bring_up_Inr [OF assms(1)] by metis
  have "accounts_sound s6"
    using keepsD [OF accounts.keeps_open_ports start_credentials_worker [OF run(5)]] run(6) by (metis snd_conv)
  then show "accounts_sound u" by (simp add: run(7) accounts_sound_def)
  assume "tables_ok s"
  then have "tables_ok s0" using keepsD [OF tables.keeps_fill_secrets] run(1) by (metis snd_conv)
  then have "tables_ok s1" using keepsD [OF tables.keeps_open_log] run(8) by (metis snd_conv)
  then have "tables_ok s2" using keepsD [OF tables.keeps_create_pool] run(2) by (metis snd_conv)
  then have "tables_ok s3" using keepsD [OF tables_init] run(3) by (metis snd_conv)
  then have "tables_ok s4" using keepsD [OF tables.keeps_start_wireguard] run(4) by (metis snd_conv)
  then have "tables_ok s5" using keepsD [OF tables_initialize] run(5) by (metis snd_conv)
  then have "tables_ok s6" using keepsD [OF tables.keeps_open_ports] run(6) by (metis snd_conv)
  then show "tables_ok u" by (simp add: run(7) tables_ok_def wg_ok_def reg_ok_def)
qed

lemma keeps_socks_initialize: "keeps socks_ok (initialize dir)"
  unfolding initialize_def has_password_files_def migrate_from_password_files_def read_dir_def load_or_generate_def
    load_from_db_def remember_def generate_credentials_def sync_host_port_def
  by (intro keeps_rules env_blind_socks_ok)
    (simp_all add: keeps_def run_simps socks_ok_def sync_rows_def update_socks_def comp_def if_distrib cong: if_cong)

lemma start_credentials_plain:
  assumes "start_credentials cfg s = (Inr (), t)" and "is_worker cfg" and "plain_start (password_dir cfg) s"
  shows "synced t \<and> socks_ok t"
proof -
  let ?m = "new_manager (server_public_host cfg) (socks5_port cfg) (proxy_credential_count cfg) (priority_slots cfg) s"
  have m: "credentials ?m = Map.empty" "no_faults ?m" "fs_dirs ?m (password_dir cfg) = None" "socks_ok ?m"
    using assms(3) by (simp_all add: new_manager_def plain_start_def no_faults_def socks_ok_def)
  obtain u where u: "initialize (password_dir cfg) ?m = (Inr (), u)" using initialize_run [OF m(2,3)] by blast
  have "\<not> blank_legacy (password_dir cfg) ?m" using m(3) by (simp add: blank_legacy_def)
  then have "synced u" using initialize_Inr [OF u m(4,1)] by simp
  moreover have "socks_ok u" using keepsD [OF keeps_socks_initialize m(4), of "password_dir cfg"] u by simp
  moreover have "t = u" using assms(1,2) u by (simp add: start_credentials_def seq_simps run_simps)
  ultimately show ?thesis by simp
qed

definition accounts_ready :: "'z os_st_scheme \<Rightarrow> bool" where
  "accounts_ready s \<longleftrightarrow> socks_ok s \<and> synced s"

interpretation ready: start_invariant accounts_ready
proof unfold_locales
  show "wg_blind accounts_ready" by (simp add: wg_blind_def env_blind_def accounts_ready_def socks_ok_def synced_def)
next
  fix s :: "'a os_st_scheme" and g assume s: "accounts_ready s" "sock_keys_kept g"
  then show "accounts_ready (update_socks g s)"
    by (simp add: accounts_ready_def sock_keys_keptD socks_ok_update synced_update)
next
  fix s :: "'a os_st_scheme" assume "accounts_ready s"
  then show "accounts_ready (s\<lparr>credentials := fold (\<lambda>c m. m(username c \<mapsto> password c)) (socks_configs s) Map.empty\<rparr>)"
    by (simp add: accounts_ready_def reload_synced) (simp add: socks_ok_def synced_def)
qed (simp_all add: env_blind_def accounts_ready_def socks_ok_def synced_def update_wg_def insert_reg_def)

lemma bring_up_plain:
  fixes s u :: "'z os_st_scheme"
  assumes "bring_up fuel v cfg s = (Inr st, u)" and "run_mode cfg = Worker" and "sock_ids_ok s" and "no_faults s"
    and "fs_dirs s (password_dir cfg) = None"
  shows "accounts_ready u"
proof -
  obtain c s0 s1 s2 s3 srv s4 s5 s6 where run: "fill_secrets cfg s = (Inr c, s0)"
    "create_pool s1 = (Inr (), s2)"
    "init_database c s2 = (Inr (), s3)" "start_wireguard fuel c s3 = (Inr srv, s4)"
    "start_credentials c s4 = (Inr (), s5)" "open_ports c s5 = (Inr (), s6)"
    "u = s6\<lparr>lock_names := [], cache := Map.empty, clock_pos := Suc (clock_pos s6)\<rparr>"
    "open_log s0 = (Inr (), s1)"
    using bring_up_Inr [OF assms(1)] by metis
  define raw where "raw x \<longleftrightarrow> sock_ids_ok x \<and> no_faults x \<and> fs_dirs x (password_dir cfg) = None" for x :: "'z os_st_scheme"
  have c: "run_mode c = Worker" "password_dir c = password_dir cfg" "is_worker c"
    using fill_secrets_config [OF run(1)] assms(2) by (simp_all add: is_worker_def)
  have env: "env_blind raw" by (simp add: env_blind_def raw_def sock_ids_ok_def no_faults_def)
  have "keeps raw (fill_secrets cfg)" "keeps raw create_pool"
    unfolding fill_secrets_def ensure_secret_def create_pool_def by (intro keeps_rules env; simp)+
  moreover have "keeps raw open_log"
    by (auto simp: keeps_def raw_def open_log_def quit_def exit_process_def run_file_op seq_simps run_simps
        sock_ids_ok_def no_faults_def split: option.splits)
  ultimately have "raw s2" using run(1,2,8) assms(3-5) unfolding raw_def keeps_def by (metis snd_conv)
  then have "plain_start (password_dir cfg) s3" using init_database_plain [OF run(3) c(1)] by (simp add: raw_def)
  then have "plain_start (password_dir c) s4"
    using keepsD [OF plain.keeps_start_wireguard] run(4) c(2) by (metis snd_conv)
  then have "accounts_ready s5" using start_credentials_plain [OF run(5) c(3)] by (simp add: accounts_ready_def)
  then have "accounts_ready s6" using keepsD [OF ready.keeps_open_ports] run(6) by (metis snd_conv)
  then show ?thesis by (simp add: run(7) accounts_ready_def socks_ok_def synced_def)
qed

text \<open>C4: A worker that came up, at any later moment while it serves. Whatever failed during the start or
  since: the proxies accept only user names and passwords of rows of the SOCKS5 table, no two leases have
  the same peer id, and the registration log is in order. If in addition no statement fails and there is
  no legacy directory, the proxies accept every row of the table, and user names are unique, even if the
  table held duplicates when the worker started.\<close>

theorem started_worker_serves_accounts:
  fixes s t u :: "'z os_st_scheme"
  assumes "bring_up fuel v cfg s = (Inr st, u)" and "wg_ok s" and "reg_ok s" and "serves st u t"
  shows "(\<forall>n p. authenticate (credentials t) n p \<longrightarrow> (\<exists>r \<in> set (socks_configs t). username r = n \<and> password r = p)) \<and>
     distinct (map wg_id (wg_configs t)) \<and> sorted_wrt (<) (map reg_id (reg_log t)) \<and>
     (run_mode cfg = Worker \<and> sock_ids_ok s \<and> no_faults s \<and> fs_dirs s (password_dir cfg) = None \<longrightarrow>
        distinct (map username (socks_configs t)) \<and>
        (\<forall>r \<in> set (socks_configs t). authenticate (credentials t) (username r) (password r)))"
proof -
  have u: "tables_ok u" "accounts_sound u" using bring_up_sound [OF assms(1)] assms(2,3) by (simp_all add: tables_ok_def)
  have t: "tables_ok t" "accounts_sound t"
    using tables.serves_keeps [OF assms(4) u(1)] accounts.serves_keeps [OF assms(4) u(2)] by simp_all
  have "accounts_ready t"
    if "run_mode cfg = Worker \<and> sock_ids_ok s \<and> no_faults s \<and> fs_dirs s (password_dir cfg) = None"
    using that ready.serves_keeps [OF assms(4) bring_up_plain [OF assms(1)]] by blast
  moreover have "authenticate (credentials t) (username r) (password r)" if "accounts_ready t" "r \<in> set (socks_configs t)" for r
    using that key_map_row [of username "socks_configs t" r password]
    by (simp add: accounts_ready_def socks_ok_def synced_def sock_password_def authenticate_iff)
  moreover have "\<exists>r \<in> set (socks_configs t). username r = n \<and> password r = p" if "authenticate (credentials t) n p" for n p
    using that t(2) by (force simp: authenticate_iff accounts_sound_def)
  ultimately show ?thesis using t(1) by (simp add: tables_ok_def wg_ok_def reg_ok_def accounts_ready_def socks_ok_def)
qed

lemma open_ports_run: "\<exists>t. open_ports cfg s = (Inr (), t)"
  by (auto simp: open_ports_def ensure_tcp_input_accept_def command_ok_def run_ignored_def seq_simps run_simps)

theorem started_worker_serves_accounts_witness:
  "\<exists>st u. bring_up 0 ''0.1.0'' (demo_config\<lparr>ci_mock_wg_container := True\<rparr>) demo_os = (Inr st, u) \<and>
     distinct (map username (socks_configs u)) \<and>
     (\<forall>r \<in> set (socks_configs u). authenticate (credentials u) (username r) (password r))"
proof -
  let ?c = "demo_config\<lparr>ci_mock_wg_container := True\<rparr>"
  have c: "is_worker ?c" "\<not> ci_mode ?c" "\<not> force_destroy_database ?c" by (simp_all add: is_worker_def demo_config_def)
  let ?l = "demo_os\<lparr>fs_pos := 1, files := [LOG_FILE \<mapsto> []]\<rparr>" and ?s = "demo_os\<lparr>fs_pos := 1, files := [LOG_FILE \<mapsto> []], db_pos := 4\<rparr>"
  have db: "create_pool ?l = (Inr (), ?s)" "fill_secrets ?c demo_os = (Inr ?c, demo_os)" "open_log demo_os = (Inr (), ?l)"
    by (simp_all add: create_pool_def fill_secrets_def ensure_secret_def open_log_def unwrap_or_def run_file_op seq_simps run_simps)
  obtain t where i: "init_database ?c ?s = (Inr (), t)" "no_faults t" "fs_dirs t = fs_dirs demo_os"
    using c by (simp add: init_database_def ensure_unique_usernames_def unique_index_def no_faults_def Let_def seq_simps run_simps)
  let ?m = "new_manager (server_public_host ?c) (socks5_port ?c) (proxy_credential_count ?c) (priority_slots ?c) t"
  have dirs: "fs_dirs demo_os d = None" for d
    by (simp add: demo_os_def demo_app_def demo_wg_def demo_cred_def db_st.defs cred_st.defs wg_st.defs app_st.defs)
  then obtain a where a: "initialize (password_dir ?c) ?m = (Inr (), a)"
    using initialize_run [of ?m "password_dir ?c"] i(2,3) by (auto simp: new_manager_def no_faults_def)
  obtain b where b: "open_ports ?c a = (Inr (), b)" using open_ports_run by blast
  have "\<exists>st u. bring_up 0 ''0.1.0'' ?c demo_os = (Inr st, u)"
    using db i(1) a b c(1)
    by (simp add: bring_up_def or_quit_def start_wireguard_def start_credentials_def seq_simps run_simps)
  then obtain st u where up: "bring_up 0 ''0.1.0'' ?c demo_os = (Inr st, u)" by blast
  from started_worker_serves_accounts [OF up _ _ serves.up] up dirs show ?thesis
    by (auto simp: wg_ok_def reg_ok_def sock_ids_ok_def no_faults_def)
qed

end
