(* ===== verification/Proxy_Io.thy ===== *)
theory Proxy_Io
  imports Authenticator State
begin

text \<open>
  What both proxies do with their sockets. \<open>conn\<close> is one accepted connection: the bytes
  the client sends before it closes or falls silent (\<open>rx\<close>; \<open>rx_stalls\<close> tells which of the
  two), the buffers written so far (\<open>tx\<close>), the failures of \<open>write_all\<close> and of the
  keep-alive call by position, and the addresses dialled. How the network answers a dial is
  the parameter \<open>dial\<close> of the handlers.
\<close>

record conn =
  rx :: "u8 list"
  rx_stalls :: bool
  tx :: "u8 list list"
  tx_fault :: "nat \<Rightarrow> string option"
  opt_fault :: "nat \<Rightarrow> string option"
  opt_pos :: nat
  dials :: "string list"

text \<open>An \<open>anyhow::Error\<close>: a \<open>bail!\<close>, an I/O error, or a read that never finishes.\<close>

datatype io_error = Bail string | Io_error string | Stalled

datatype dial_result = Connected | Refused | Dial_error string | Dial_timeout

type_synonym 'a conn_op = "(conn, io_error, 'a) rm"

text \<open>\<open>read_exact\<close>: too few bytes are an \<open>UnexpectedEof\<close>, or a wait without end.\<close>

definition read_exact :: "nat \<Rightarrow> u8 list conn_op" where
  "read_exact n c =
     (if length (rx c) < n
      then (Inl (if rx_stalls c then Stalled else Io_error ''early eof''), c\<lparr>rx := []\<rparr>)
      else (Inr (take n (rx c)), c\<lparr>rx := drop n (rx c)\<rparr>))"

definition read_u8 :: "u8 conn_op" where
  "read_u8 = and_then (read_exact 1) (\<lambda>bs. ok (bs ! 0))"

text \<open>\<open>read_u16\<close> is big endian.\<close>

definition u16_of_be :: "u8 \<Rightarrow> u8 \<Rightarrow> u16" where
  "u16_of_be a b = word_of_nat (unat a * 256 + unat b)"

definition read_u16 :: "u16 conn_op" where
  "read_u16 = and_then (read_exact 2) (\<lambda>bs. ok (u16_of_be (bs ! 0) (bs ! 1)))"

definition write_all :: "u8 list \<Rightarrow> unit conn_op" where
  "write_all bs c =
     (case tx_fault c (length (tx c)) of
        Some e \<Rightarrow> (Inl (Io_error e), c)
      | None \<Rightarrow> (Inr (), c\<lparr>tx := tx c @ [bs]\<rparr>))"

definition set_keepalive :: "unit conn_op" where
  "set_keepalive c =
     (case opt_fault c (opt_pos c) of
        Some e \<Rightarrow> (Inl (Io_error e), c\<lparr>opt_pos := Suc (opt_pos c)\<rparr>)
      | None \<Rightarrow> (Inr (), c\<lparr>opt_pos := Suc (opt_pos c)\<rparr>))"

definition dial_target :: "(string \<Rightarrow> dial_result) \<Rightarrow> string \<Rightarrow> dial_result conn_op" where
  "dial_target dial target =
     and_then (modify (\<lambda>c. c\<lparr>dials := dials c @ [target]\<rparr>)) (\<lambda>_. ok (dial target))"

lemma read_exact_Inr [inv_simps]:
  "read_exact n c = (Inr bs, d) \<longleftrightarrow> (\<exists>r. rx c = bs @ r \<and> length bs = n \<and> d = c\<lparr>rx := r\<rparr>)"
proof
  assume "read_exact n c = (Inr bs, d)"
  then have "rx c = bs @ drop n (rx c) \<and> length bs = n \<and> d = c\<lparr>rx := drop n (rx c)\<rparr>"
    by (auto simp: read_exact_def split: if_splits)
  then show "\<exists>r. rx c = bs @ r \<and> length bs = n \<and> d = c\<lparr>rx := r\<rparr>" by blast
qed (auto simp: read_exact_def)

lemma read_exact_run [run_simps]: "rx c = bs @ r \<Longrightarrow> length bs = n \<Longrightarrow> read_exact n c = (Inr bs, c\<lparr>rx := r\<rparr>)"
  by (simp add: read_exact_def)

lemma write_all_Inr [inv_simps]:
  "write_all bs c = (Inr x, d) \<longleftrightarrow> tx_fault c (length (tx c)) = None \<and> d = c\<lparr>tx := tx c @ [bs]\<rparr>"
  by (auto simp: write_all_def split: option.splits)

lemma write_all_run [run_simps]:
  "tx_fault c (length (tx c)) = None \<Longrightarrow> write_all bs c = (Inr (), c\<lparr>tx := tx c @ [bs]\<rparr>)"
  by (simp add: write_all_def)

lemma set_keepalive_Inr [inv_simps]:
  "set_keepalive c = (Inr x, d) \<longleftrightarrow> opt_fault c (opt_pos c) = None \<and> d = c\<lparr>opt_pos := Suc (opt_pos c)\<rparr>"
  by (auto simp: set_keepalive_def split: option.splits)

lemma set_keepalive_run [run_simps]:
  "opt_fault c (opt_pos c) = None \<Longrightarrow> set_keepalive c = (Inr (), c\<lparr>opt_pos := Suc (opt_pos c)\<rparr>)"
  by (simp add: set_keepalive_def)

lemma read_u8_Inr [inv_simps]:
  "read_u8 c = (Inr b, d) \<longleftrightarrow> (\<exists>r. rx c = b # r \<and> d = c\<lparr>rx := r\<rparr>)"
proof
  assume "\<exists>r. rx c = b # r \<and> d = c\<lparr>rx := r\<rparr>"
  then have "read_exact 1 c = (Inr [b], d)" by (auto simp: read_exact_Inr)
  then show "read_u8 c = (Inr b, d)" by (simp add: read_u8_def and_then_def run_ok)
qed (auto simp: read_u8_def and_then_Inr read_exact_Inr run_ok length_Suc_conv)

lemma read_u8_run [run_simps]: "rx c = b # r \<Longrightarrow> read_u8 c = (Inr b, c\<lparr>rx := r\<rparr>)"
  by (simp add: read_u8_Inr)

definition be16 :: "u16 \<Rightarrow> u8 list" where
  "be16 p = [word_of_nat (unat p div 256), word_of_nat (unat p mod 256)]"

lemma unat_u16_less: "unat (p :: u16) < 65536"
  using unsigned_less [of p, where 'a = nat] by simp

lemma unat_u16_of_be: "unat (u16_of_be a b) = unat a * 256 + unat b"
proof -
  have "unat a * 256 + unat b < 65536"
    using unat_u8_less [of a] unat_u8_less [of b] by linarith
  then show ?thesis by (simp add: u16_of_be_def unat_of_nat take_bit_nat_eq_self del: of_nat_add of_nat_mult)
qed

lemma be16_of_be: "be16 (u16_of_be a b) = [a, b]"
  using unat_u8_less [of b] by (simp add: be16_def unat_u16_of_be)

lemma of_be_be16: "u16_of_be (be16 p ! 0) (be16 p ! 1) = p"
proof -
  have "unat p div 256 < 256" using unat_u16_less [of p] by linarith
  then have "unat (u16_of_be (be16 p ! 0) (be16 p ! 1)) = unat p"
    by (simp add: unat_u16_of_be be16_def unat_of_nat take_bit_nat_eq_self)
  then show ?thesis by (rule unsigned_word_eqI)
qed

lemma length_be16 [simp]: "length (be16 p) = 2"
  by (simp add: be16_def)

lemma read_u16_Inr [inv_simps]:
  "read_u16 c = (Inr p, d) \<longleftrightarrow> (\<exists>r. rx c = be16 p @ r \<and> d = c\<lparr>rx := r\<rparr>)"
proof
  assume "read_u16 c = (Inr p, d)"
  then obtain a b r where "rx c = [a, b] @ r" "d = c\<lparr>rx := r\<rparr>" "p = u16_of_be a b"
    by (auto simp: read_u16_def and_then_Inr read_exact_Inr run_ok length_Suc_conv numeral_2_eq_2)
  then show "\<exists>r. rx c = be16 p @ r \<and> d = c\<lparr>rx := r\<rparr>"
    by (simp add: be16_of_be)
next
  assume "\<exists>r. rx c = be16 p @ r \<and> d = c\<lparr>rx := r\<rparr>"
  then obtain r where r: "rx c = be16 p @ r" "d = c\<lparr>rx := r\<rparr>" by blast
  then have "read_exact 2 c = (Inr (be16 p), d)" by (auto simp: read_exact_Inr)
  then show "read_u16 c = (Inr p, d)"
    by (simp only: read_u16_def and_then_def of_be_be16 run_ok prod.case sum.case)
qed

lemma read_u16_run [run_simps]: "rx c = be16 p @ r \<Longrightarrow> read_u16 c = (Inr p, c\<lparr>rx := r\<rparr>)"
  by (simp add: read_u16_Inr)

text \<open>Nothing but \<open>dial_target\<close> dials.\<close>

definition dials_are :: "string list \<Rightarrow> conn \<Rightarrow> bool" where
  "dials_are ds c \<longleftrightarrow> dials c = ds"

lemma keeps_dials [keeps_rules]:
  "keeps (dials_are ds) (read_exact n)" "keeps (dials_are ds) read_u8" "keeps (dials_are ds) read_u16"
  "keeps (dials_are ds) (write_all bs)" "keeps (dials_are ds) set_keepalive"
proof -
  show r: "keeps (dials_are ds) (read_exact n)" for n
    by (simp add: keeps_def dials_are_def read_exact_def)
  show "keeps (dials_are ds) read_u8" "keeps (dials_are ds) read_u16"
    by (simp_all add: read_u8_def read_u16_def r keeps_rules)
  show "keeps (dials_are ds) (write_all bs)" "keeps (dials_are ds) set_keepalive"
    by (simp_all add: keeps_def dials_are_def write_all_def set_keepalive_def split: option.split)
qed

end
