(* ===== verification/Proxy_Socks5.thy ===== *)
theory Proxy_Socks5
  imports Proxy_Io Credentials
begin

text \<open>
  The embedded SOCKS5 server of \<open>src/src/proxy/socks5.rs\<close> (RFC 1928, RFC 1929): greeting,
  user name and password, CONNECT request, dial, reply. \<open>handle_connection\<close> ends with the
  target once the two sockets are joined; what is left in \<open>rx\<close> is the first the relay
  copies to the target.
\<close>

definition SOCKS5_VERSION :: u8 where "SOCKS5_VERSION = 0x05"
definition AUTH_USERNAME_PASSWORD :: u8 where "AUTH_USERNAME_PASSWORD = 0x02"
definition AUTH_NO_ACCEPTABLE :: u8 where "AUTH_NO_ACCEPTABLE = 0xFF"
definition CMD_CONNECT :: u8 where "CMD_CONNECT = 0x01"
definition ATYP_IPV4 :: u8 where "ATYP_IPV4 = 0x01"
definition ATYP_DOMAIN :: u8 where "ATYP_DOMAIN = 0x03"
definition ATYP_IPV6 :: u8 where "ATYP_IPV6 = 0x04"
definition REP_SUCCESS :: u8 where "REP_SUCCESS = 0x00"
definition REP_GENERAL_FAILURE :: u8 where "REP_GENERAL_FAILURE = 0x01"
definition REP_CONNECTION_REFUSED :: u8 where "REP_CONNECTION_REFUSED = 0x05"
definition REP_COMMAND_NOT_SUPPORTED :: u8 where "REP_COMMAND_NOT_SUPPORTED = 0x07"
definition REP_ADDRESS_TYPE_NOT_SUPPORTED :: u8 where "REP_ADDRESS_TYPE_NOT_SUPPORTED = 0x08"
definition AUTH_SUBNEG_VERSION :: u8 where "AUTH_SUBNEG_VERSION = 0x01"
definition AUTH_SUCCESS :: u8 where "AUTH_SUCCESS = 0x00"
definition AUTH_FAILURE :: u8 where "AUTH_FAILURE = 0x01"

lemmas socks5_constants = SOCKS5_VERSION_def AUTH_USERNAME_PASSWORD_def AUTH_NO_ACCEPTABLE_def
  CMD_CONNECT_def ATYP_IPV4_def ATYP_DOMAIN_def ATYP_IPV6_def REP_SUCCESS_def REP_GENERAL_FAILURE_def
  REP_CONNECTION_REFUSED_def REP_COMMAND_NOT_SUPPORTED_def REP_ADDRESS_TYPE_NOT_SUPPORTED_def
  AUTH_SUBNEG_VERSION_def AUTH_SUCCESS_def AUTH_FAILURE_def

definition reply_bytes :: "u8 \<Rightarrow> u8 list" where
  "reply_bytes reply = [SOCKS5_VERSION, reply, 0x00, ATYP_IPV4, 0, 0, 0, 0, 0, 0]"

definition send_reply :: "u8 \<Rightarrow> unit conn_op" where
  "send_reply reply = write_all (reply_bytes reply)"

definition show_u8 :: "u8 \<Rightarrow> string" where
  "show_u8 b = show_nat (unat b)"

definition bail :: "string \<Rightarrow> 'a conn_op" where
  "bail m = err (Bail m)"

subsection \<open>The three stages of the handshake\<close>

definition greeting :: "unit conn_op" where
  "greeting =
     and_then read_u8 (\<lambda>version.
     if version \<noteq> SOCKS5_VERSION then bail (''Invalid SOCKS version: '' @ show_u8 version)
     else
       and_then read_u8 (\<lambda>nmethods.
       and_then (read_exact (unat nmethods)) (\<lambda>methods.
       if AUTH_USERNAME_PASSWORD \<notin> set methods then
         and_then (write_all [SOCKS5_VERSION, AUTH_NO_ACCEPTABLE]) (\<lambda>_.
         bail ''Client does not support username/password auth'')
       else write_all [SOCKS5_VERSION, AUTH_USERNAME_PASSWORD])))"

definition authentication :: "(string \<Rightarrow> string \<Rightarrow> bool) \<Rightarrow> string conn_op" where
  "authentication auth =
     and_then read_u8 (\<lambda>auth_version.
     if auth_version \<noteq> AUTH_SUBNEG_VERSION
     then bail (''Invalid auth sub-negotiation version: '' @ show_u8 auth_version)
     else
       and_then read_u8 (\<lambda>ulen.
       and_then (read_exact (unat ulen)) (\<lambda>user.
       and_then read_u8 (\<lambda>plen.
       and_then (read_exact (unat plen)) (\<lambda>pass.
       if \<not> auth (from_utf8_lossy user) (from_utf8_lossy pass) then
         and_then (write_all [AUTH_SUBNEG_VERSION, AUTH_FAILURE]) (\<lambda>_.
         bail (''Authentication failed for user: '' @ from_utf8_lossy user))
       else
         and_then (write_all [AUTH_SUBNEG_VERSION, AUTH_SUCCESS]) (\<lambda>_.
         ok (from_utf8_lossy user)))))))"

definition target_address :: "u8 \<Rightarrow> string conn_op" where
  "target_address atyp =
     (if atyp = ATYP_IPV4 then
        and_then (read_exact 4) (\<lambda>addr.
        and_then read_u16 (\<lambda>p.
        ok (show_ipv4 (Ipv4 (addr ! 0) (addr ! 1) (addr ! 2) (addr ! 3)) @ '':'' @ show_u16 p)))
      else if atyp = ATYP_DOMAIN then
        and_then read_u8 (\<lambda>len.
        and_then (read_exact (unat len)) (\<lambda>domain.
        and_then read_u16 (\<lambda>p.
        ok (from_utf8_lossy domain @ '':'' @ show_u16 p))))
      else if atyp = ATYP_IPV6 then
        and_then (read_exact 16) (\<lambda>addr.
        and_then read_u16 (\<lambda>p.
        ok (''['' @ show_ipv6 addr @ '']:'' @ show_u16 p)))
      else
        and_then (send_reply REP_ADDRESS_TYPE_NOT_SUPPORTED) (\<lambda>_.
        bail (''Unsupported address type: '' @ show_u8 atyp)))"

definition request :: "string conn_op" where
  "request =
     and_then read_u8 (\<lambda>ver.
     if ver \<noteq> SOCKS5_VERSION then bail (''Invalid SOCKS version in request: '' @ show_u8 ver)
     else
       and_then read_u8 (\<lambda>cmd.
       and_then read_u8 (\<lambda>rsv.
       and_then read_u8 (\<lambda>atyp.
       if cmd \<noteq> CMD_CONNECT then
         and_then (send_reply REP_COMMAND_NOT_SUPPORTED) (\<lambda>_.
         bail (''Unsupported command: '' @ show_u8 cmd))
       else target_address atyp))))"

definition handshake :: "(string \<Rightarrow> string \<Rightarrow> bool) \<Rightarrow> string conn_op" where
  "handshake auth =
     and_then greeting (\<lambda>_.
     and_then (authentication auth) (\<lambda>_.
     request))"

subsection \<open>The whole connection\<close>

text \<open>The thirty-second timeout turns a handshake that never ends into an error.\<close>

definition with_timeout :: "string \<Rightarrow> 'a conn_op \<Rightarrow> 'a conn_op" where
  "with_timeout message m = map_err (\<lambda>e. if e = Stalled then Bail message else e) m"

definition answer_dial :: "string \<Rightarrow> dial_result \<Rightarrow> string conn_op" where
  "answer_dial target r =
     (case r of
        Connected \<Rightarrow>
          and_then set_keepalive (\<lambda>_.
          and_then (send_reply REP_SUCCESS) (\<lambda>_.
          ok target))
      | Refused \<Rightarrow>
          and_then (send_reply REP_CONNECTION_REFUSED) (\<lambda>_.
          bail (''Failed to connect to '' @ target @ '': Connection refused (os error 111)''))
      | Dial_error e \<Rightarrow>
          and_then (send_reply REP_GENERAL_FAILURE) (\<lambda>_.
          bail (''Failed to connect to '' @ target @ '': '' @ e))
      | Dial_timeout \<Rightarrow>
          and_then (send_reply REP_GENERAL_FAILURE) (\<lambda>_.
          bail (''Timed out connecting to '' @ target)))"

definition handle_connection ::
    "(string \<Rightarrow> string \<Rightarrow> bool) \<Rightarrow> (string \<Rightarrow> dial_result) \<Rightarrow> string \<Rightarrow> string conn_op" where
  "handle_connection auth dial peer =
     and_then set_keepalive (\<lambda>_.
     and_then (with_timeout (''SOCKS5 handshake timed out for '' @ peer) (handshake auth)) (\<lambda>target.
     and_then (dial_target dial target) (\<lambda>r.
     answer_dial target r)))"

subsection \<open>The client's side of the protocol\<close>

text \<open>What RFC 1928 and RFC 1929 have a client send: lengths are single bytes, so that method
  lists, names, passwords and domains have at most 255 bytes.\<close>

datatype addr = V4 ipv4 | Domain "u8 list" | V6 "u8 list"

fun addr_ok :: "addr \<Rightarrow> bool" where
  "addr_ok (V4 ip) = True"
| "addr_ok (Domain d) = (length d < 256)"
| "addr_ok (V6 bs) = (length bs = 16)"

fun addr_bytes :: "addr \<Rightarrow> u8 list" where
  "addr_bytes (V4 (Ipv4 a b c d)) = [1, a, b, c, d]"
| "addr_bytes (Domain d) = 3 # word_of_nat (length d) # d"
| "addr_bytes (V6 bs) = 4 # bs"

fun show_addr :: "addr \<Rightarrow> string" where
  "show_addr (V4 ip) = show_ipv4 ip"
| "show_addr (Domain d) = from_utf8_lossy d"
| "show_addr (V6 bs) = ''['' @ show_ipv6 bs @ '']''"

definition greeting_bytes :: "u8 list \<Rightarrow> u8 list" where
  "greeting_bytes ms = [5, word_of_nat (length ms)] @ ms"

definition auth_bytes :: "u8 list \<Rightarrow> u8 list \<Rightarrow> u8 list" where
  "auth_bytes u p = [1, word_of_nat (length u)] @ u @ [word_of_nat (length p)] @ p"

definition request_bytes :: "u8 \<Rightarrow> addr \<Rightarrow> u16 \<Rightarrow> u8 list" where
  "request_bytes rsv a p = [5, 1, rsv] @ addr_bytes a @ be16 p"

lemma len8: "length bs = unat (b :: u8) \<longleftrightarrow> b = word_of_nat (length bs) \<and> length bs < 256"
proof
  assume "length bs = unat b"
  then show "b = word_of_nat (length bs) \<and> length bs < 256"
    using unat_u8_less [of b] by simp
next
  assume "b = word_of_nat (length bs) \<and> length bs < 256"
  then show "length bs = unat b"
    by (auto simp: unat_of_nat take_bit_nat_eq_self)
qed

lemma greeting_Inr:
  assumes "greeting c = (Inr x, d)"
  obtains ms r where "rx c = greeting_bytes ms @ r" "length ms < 256" "2 \<in> set ms"
    "d = c\<lparr>rx := r, tx := tx c @ [[5, 2]]\<rparr>"
proof -
  from assms obtain b ms r where "rx c = 5 # b # ms @ r" "length ms = unat b" "2 \<in> set ms"
    "d = c\<lparr>rx := r, tx := tx c @ [[5, 2]]\<rparr>"
    by (auto simp: greeting_def bail_def inv_simps socks5_constants split: if_splits)
  with that show thesis by (simp add: greeting_bytes_def len8)
qed

lemma greeting_run:
  assumes "rx c = greeting_bytes ms @ r" "length ms < 256" "2 \<in> set ms"
    "tx_fault c (length (tx c)) = None"
  shows "greeting c = (Inr (), c\<lparr>rx := r, tx := tx c @ [[5, 2]]\<rparr>)"
  using assms len8 [of ms "word_of_nat (length ms)"]
  by (simp add: greeting_def greeting_bytes_def seq_simps run_simps socks5_constants)

lemma authentication_Inr:
  assumes "authentication auth c = (Inr x, d)"
  obtains u p r where "rx c = auth_bytes u p @ r" "length u < 256" "length p < 256"
    "auth (from_utf8_lossy u) (from_utf8_lossy p)" "d = c\<lparr>rx := r, tx := tx c @ [[1, 0]]\<rparr>"
proof -
  from assms obtain b u b' p r where "rx c = 1 # b # u @ b' # p @ r" "length u = unat b"
    "length p = unat b'" "auth (from_utf8_lossy u) (from_utf8_lossy p)"
    "d = c\<lparr>rx := r, tx := tx c @ [[1, 0]]\<rparr>"
    by (auto simp: authentication_def bail_def inv_simps socks5_constants split: if_splits)
  with that show thesis by (simp add: auth_bytes_def len8)
qed

lemma authentication_run:
  assumes "rx c = auth_bytes u p @ r" "length u < 256" "length p < 256"
    "tx_fault c (length (tx c)) = None"
  shows "authentication auth c =
    (if auth (from_utf8_lossy u) (from_utf8_lossy p)
     then (Inr (from_utf8_lossy u), c\<lparr>rx := r, tx := tx c @ [[1, 0]]\<rparr>)
     else (Inl (Bail (''Authentication failed for user: '' @ from_utf8_lossy u)),
           c\<lparr>rx := r, tx := tx c @ [[1, 1]]\<rparr>))"
  using assms len8 [of u "word_of_nat (length u)"] len8 [of p "word_of_nat (length p)"]
  by (simp add: authentication_def auth_bytes_def bail_def seq_simps run_simps socks5_constants)

lemma request_Inr:
  assumes "request c = (Inr t, d)"
  obtains rsv a p r where "rx c = request_bytes rsv a p @ r" "addr_ok a"
    "t = show_addr a @ '':'' @ show_u16 p" "d = c\<lparr>rx := r\<rparr>"
proof -
  from assms obtain rsv atyp r where rx: "rx c = 5 # 1 # rsv # atyp # r"
    and t: "target_address atyp (c\<lparr>rx := r\<rparr>) = (Inr t, d)"
    by (auto simp: request_def bail_def inv_simps socks5_constants split: if_splits)
  consider "atyp = 1" | "atyp = 3" | "atyp = 4"
    using t by (auto simp: target_address_def bail_def inv_simps socks5_constants split: if_splits)
  then show thesis
  proof cases
    case 1
    with t obtain bs p q where bs: "r = bs @ be16 p @ q" "length bs = 4" and d: "d = c\<lparr>rx := q\<rparr>"
      and s: "t = show_ipv4 (Ipv4 (bs ! 0) (bs ! 1) (bs ! 2) (bs ! 3)) @ '':'' @ show_u16 p"
      by (auto simp: target_address_def inv_simps socks5_constants)
    from bs(2) have "bs = [bs ! 0, bs ! 1, bs ! 2, bs ! 3]"
      by (auto simp: length_Suc_conv eval_nat_numeral)
    then show thesis
      using that [of rsv "V4 (Ipv4 (bs ! 0) (bs ! 1) (bs ! 2) (bs ! 3))" p q] rx 1 bs(1) d s
      by (simp add: request_bytes_def)
  next
    case 2
    with t obtain b bs p q where "r = b # bs @ be16 p @ q" "length bs = unat b" "d = c\<lparr>rx := q\<rparr>"
      "t = from_utf8_lossy bs @ '':'' @ show_u16 p"
      by (auto simp: target_address_def inv_simps socks5_constants)
    with that [of rsv "Domain bs" p q] rx 2 show thesis by (simp add: request_bytes_def len8 unat_u8_less)
  next
    case 3
    with t obtain bs p q where "r = bs @ be16 p @ q" "length bs = 16" "d = c\<lparr>rx := q\<rparr>"
      "t = ''['' @ show_ipv6 bs @ '']:'' @ show_u16 p"
      by (auto simp: target_address_def inv_simps socks5_constants)
    with that [of rsv "V6 bs" p q] rx 3 show thesis by (simp add: request_bytes_def)
  qed
qed

lemma request_run:
  assumes "rx c = request_bytes rsv a p @ r" "addr_ok a"
  shows "request c = (Inr (show_addr a @ '':'' @ show_u16 p), c\<lparr>rx := r\<rparr>)"
proof (cases a)
  case (V4 ip)
  obtain w x y z where "ip = Ipv4 w x y z" by (cases ip)
  with V4 assms show ?thesis
    using read_exact_run [of "c\<lparr>rx := [w, x, y, z] @ be16 p @ r\<rparr>" "[w, x, y, z]" "be16 p @ r" 4]
    by (simp add: request_def target_address_def request_bytes_def seq_simps run_simps socks5_constants)
next
  case (Domain bs)
  with assms len8 [of bs "word_of_nat (length bs)"] show ?thesis
    by (simp add: request_def target_address_def request_bytes_def seq_simps run_simps socks5_constants)
next
  case (V6 bs)
  with assms show ?thesis
    by (simp add: request_def target_address_def request_bytes_def seq_simps run_simps socks5_constants)
qed

subsection \<open>The handshake as a whole\<close>

definition client_bytes :: "u8 list \<Rightarrow> u8 list \<Rightarrow> u8 list \<Rightarrow> u8 \<Rightarrow> addr \<Rightarrow> u16 \<Rightarrow> u8 list" where
  "client_bytes ms u p rsv a prt = greeting_bytes ms @ auth_bytes u p @ request_bytes rsv a prt"

lemma handshake_Inr:
  assumes "handshake auth c = (Inr t, d)"
  obtains ms u p rsv a prt r where "rx c = client_bytes ms u p rsv a prt @ r" "2 \<in> set ms" "addr_ok a"
    "auth (from_utf8_lossy u) (from_utf8_lossy p)" "t = show_addr a @ '':'' @ show_u16 prt"
    "d = c\<lparr>rx := r, tx := tx c @ [[5, 2], [1, 0]]\<rparr>"
proof -
  from assms obtain c1 c2 x where g: "greeting c = (Inr (), c1)" and a: "authentication auth c1 = (Inr x, c2)"
    and q: "request c2 = (Inr t, d)"
    by (auto simp: handshake_def inv_simps)
  show thesis
    by (rule greeting_Inr [OF g], rule authentication_Inr [OF a], rule request_Inr [OF q])
      (rule that, auto simp: client_bytes_def)
qed

lemma handshake_run:
  assumes "rx c = client_bytes ms u p rsv a prt @ r" "length ms < 256" "2 \<in> set ms"
    "length u < 256" "length p < 256" "addr_ok a" "\<forall>n. tx_fault c n = None"
  shows "handshake auth c =
    (if auth (from_utf8_lossy u) (from_utf8_lossy p)
     then (Inr (show_addr a @ '':'' @ show_u16 prt), c\<lparr>rx := r, tx := tx c @ [[5, 2], [1, 0]]\<rparr>)
     else (Inl (Bail (''Authentication failed for user: '' @ from_utf8_lossy u)),
           c\<lparr>rx := request_bytes rsv a prt @ r, tx := tx c @ [[5, 2], [1, 1]]\<rparr>))"
proof -
  let ?c1 = "c\<lparr>rx := auth_bytes u p @ request_bytes rsv a prt @ r, tx := tx c @ [[5, 2]]\<rparr>"
  have g: "greeting c = (Inr (), ?c1)"
    using assms by (intro greeting_run) (simp_all add: client_bytes_def)
  note a = authentication_run [of ?c1 u p "request_bytes rsv a prt @ r" auth]
  note q = request_run [of "?c1\<lparr>rx := request_bytes rsv a prt @ r, tx := tx ?c1 @ [[1, 0]]\<rparr>" rsv a prt r]
  from g a q assms show ?thesis
    by (simp add: handshake_def seq_simps)
qed

text \<open>What a connection may have done when it ends, in terms of the accounts behind the check.\<close>

context authenticator begin

lemma handshake_account:
  assumes "handshake auth c = (Inr t, d)"
  shows "\<exists>ms u p rsv a prt r. rx c = client_bytes ms u p rsv a prt @ r \<and>
           accounts (from_utf8_lossy u) = Some (from_utf8_lossy p) \<and>
           t = show_addr a @ '':'' @ show_u16 prt"
  by (rule handshake_Inr [OF assms]) (simp add: auth_iff, blast)

end

lemma keeps_dials_reply [keeps_rules]: "keeps (dials_are ds) (send_reply r)"
  unfolding send_reply_def by (intro keeps_rules)

lemma keeps_dials_bail [keeps_rules]: "keeps (dials_are ds) (bail m)"
  unfolding bail_def by (intro keeps_rules)

lemma keeps_dials_handshake [keeps_rules]: "keeps (dials_are ds) (handshake auth)"
  unfolding handshake_def greeting_def authentication_def request_def target_address_def
  by (intro keeps_rules)

lemma keeps_dials_answer [keeps_rules]: "keeps (dials_are ds) (answer_dial t r)"
  unfolding answer_dial_def by (cases r) (auto intro!: keeps_rules)

lemma handle_connection_dials:
  assumes "handle_connection auth dial peer c = (r, d)" and "dials d \<noteq> dials c"
  shows "\<exists>t e. handshake auth (c\<lparr>opt_pos := Suc (opt_pos c)\<rparr>) = (Inr t, e) \<and> dials d = dials c @ [t]"
proof -
  let ?c = "c\<lparr>opt_pos := Suc (opt_pos c)\<rparr>"
  have k: "opt_fault c (opt_pos c) = None"
    using assms by (auto simp: handle_connection_def set_keepalive_def and_then_def split: option.splits)
  obtain h e where h: "handshake auth ?c = (h, e)" by (cases "handshake auth ?c")
  have e: "dials e = dials c"
    using keepsD [OF keeps_dials_handshake, of "dials c" ?c auth] h by (simp add: dials_are_def)
  show ?thesis
  proof (cases h)
    case (Inl x)
    with assms k h e show ?thesis
      by (auto simp: handle_connection_def with_timeout_def seq_simps run_simps)
  next
    case (Inr t)
    from assms(1) k h Inr have "dials d = dials c @ [t]"
      using keepsD [OF keeps_dials_answer, of "dials c @ [t]" "e\<lparr>dials := dials e @ [t]\<rparr>" t "dial t"] e
      by (simp add: handle_connection_def with_timeout_def dial_target_def seq_simps run_simps dials_are_def)
    with h Inr show ?thesis by blast
  qed
qed

subsection \<open>Properties\<close>

text \<open>C7: The SOCKS5 server dials only on behalf of an account: whatever bytes a client sends and
  however the network fails, if a connection dials at all, then exactly once, and the client's
  bytes are a greeting that offers user name authentication, a user name and password that
  the credential manager accepts, and a CONNECT request for the address that was dialled.\<close>

theorem socks5_dials_for_accounts:
  assumes "handle_connection (authenticate accounts) dial peer c = (r, d)" and "dials d \<noteq> dials c"
  shows "\<exists>ms u p rsv a prt rest.
           rx c = client_bytes ms u p rsv a prt @ rest \<and>
           accounts (from_utf8_lossy u) = Some (from_utf8_lossy p) \<and>
           dials d = dials c @ [show_addr a @ '':'' @ show_u16 prt]"
proof -
  from handle_connection_dials [OF assms] obtain t e where
    h: "handshake (authenticate accounts) (c\<lparr>opt_pos := Suc (opt_pos c)\<rparr>) = (Inr t, e)"
    and d: "dials d = dials c @ [t]" by blast
  from creds.handshake_account [OF h] d show ?thesis by simp
qed

definition demo_conn :: "u8 list \<Rightarrow> conn" where
  "demo_conn bs =
     \<lparr>rx = bs, rx_stalls = True, tx = [], tx_fault = (\<lambda>n. None), opt_fault = (\<lambda>n. None), opt_pos = 0,
      dials = []\<rparr>"

lemma demo_conn_simps [simp]:
  "rx (demo_conn bs) = bs" "tx (demo_conn bs) = []" "tx_fault (demo_conn bs) = (\<lambda>n. None)"
  "opt_fault (demo_conn bs) = (\<lambda>n. None)" "opt_pos (demo_conn bs) = 0" "dials (demo_conn bs) = []"
  by (simp_all add: demo_conn_def)

lemma handle_connection_run:
  assumes "rx c = client_bytes ms (bytes_of_string user) (bytes_of_string pass) rsv a prt @ rest"
    and "length ms < 256" "2 \<in> set ms" "length user < 256" "length pass < 256"
    and "ascii user" "ascii pass" "addr_ok a"
    and "\<forall>n. tx_fault c n = None" "\<forall>n. opt_fault c n = None"
  shows "\<exists>r d. handle_connection (authenticate accounts) dial peer c = (r, d) \<and>
    (let target = show_addr a @ '':'' @ show_u16 prt in
     if accounts user = Some pass
     then dials d = dials c @ [target] \<and> rx d = rest \<and> (r = Inr target \<longleftrightarrow> dial target = Connected) \<and>
          tx d = tx c @ [[5, 2], [1, 0],
            reply_bytes (case dial target of Connected \<Rightarrow> 0 | Refused \<Rightarrow> 5 | _ \<Rightarrow> 1)]
     else dials d = dials c \<and> tx d = tx c @ [[5, 2], [1, 1]] \<and>
          r = Inl (Bail (''Authentication failed for user: '' @ user)))"
proof -
  let ?c = "c\<lparr>opt_pos := Suc (opt_pos c)\<rparr>"
  have "handshake (authenticate accounts) ?c =
    (if accounts user = Some pass
     then (Inr (show_addr a @ '':'' @ show_u16 prt), ?c\<lparr>rx := rest, tx := tx ?c @ [[5, 2], [1, 0]]\<rparr>)
     else (Inl (Bail (''Authentication failed for user: '' @ user)),
           ?c\<lparr>rx := request_bytes rsv a prt @ rest, tx := tx ?c @ [[5, 2], [1, 1]]\<rparr>))"
    using handshake_run [of ?c ms "bytes_of_string user" "bytes_of_string pass" rsv a prt rest
        "authenticate accounts"] assms(1-9)
    by (simp add: from_utf8_lossy_ascii authenticate_iff)
  with assms(9,10) show ?thesis
    by (cases "dial (show_addr a @ '':'' @ show_u16 prt)")
      (auto simp: handle_connection_def with_timeout_def dial_target_def answer_dial_def send_reply_def
        bail_def seq_simps run_simps REP_SUCCESS_def REP_CONNECTION_REFUSED_def REP_GENERAL_FAILURE_def Let_def)
qed

text \<open>C30: A client that follows the protocol is served: with an account it is told of the
  successful authentication, its target, whatever the address type, is dialled, the reply
  states how the dial ended, and after success the relay starts with the bytes that follow
  the request; with a wrong name or password it is told so and nothing is dialled.\<close>

theorem socks5_serves_clients:
  assumes "rx c = client_bytes ms (bytes_of_string user) (bytes_of_string pass) rsv a prt @ rest"
    and "length ms < 256" "2 \<in> set ms" "length user < 256" "length pass < 256"
    and "ascii user" "ascii pass" "addr_ok a"
    and "\<forall>n. tx_fault c n = None" "\<forall>n. opt_fault c n = None"
  shows "\<exists>r d. handle_connection (authenticate accounts) dial peer c = (r, d) \<and>
    (let target = show_addr a @ '':'' @ show_u16 prt in
     if accounts user = Some pass
     then dials d = dials c @ [target] \<and> rx d = rest \<and> (r = Inr target \<longleftrightarrow> dial target = Connected) \<and>
          tx d = tx c @ [[5, 2], [1, 0],
            reply_bytes (case dial target of Connected \<Rightarrow> 0 | Refused \<Rightarrow> 5 | _ \<Rightarrow> 1)]
     else dials d = dials c \<and> tx d = tx c @ [[5, 2], [1, 1]] \<and>
          r = Inl (Bail (''Authentication failed for user: '' @ user)))"
  by (rule handle_connection_run [OF assms])

definition demo_client :: "conn" where
  "demo_client = demo_conn (client_bytes [0, 2] (bytes_of_string ''u1'') (bytes_of_string ''pw'') 0
     (V4 (Ipv4 192 0 2 7)) 443 @ [0x16])"

theorem socks5_serves_clients_witness:
  "\<exists>d. handle_connection (authenticate [''u1'' \<mapsto> ''pw'']) (\<lambda>_. Connected) ''peer'' demo_client =
         (Inr ''192.0.2.7:443'', d) \<and>
       tx d = [[5, 2], [1, 0], [5, 0, 0, 1, 0, 0, 0, 0, 0, 0]] \<and> rx d = [0x16]"
proof -
  have asc: "ascii ''u1''" "ascii ''pw''" by (simp_all add: ascii_def)
  have addr: "show_addr (V4 (Ipv4 192 0 2 7)) @ '':'' @ show_u16 443 = ''192.0.2.7:443''"
    by code_simp
  have "\<exists>r d. handle_connection (authenticate [''u1'' \<mapsto> ''pw'']) (\<lambda>_. Connected) ''peer'' demo_client = (r, d) \<and>
      (let target = show_addr (V4 (Ipv4 192 0 2 7)) @ '':'' @ show_u16 443 in
       if [''u1'' \<mapsto> ''pw''] ''u1'' = Some ''pw''
       then dials d = dials demo_client @ [target] \<and> rx d = [0x16] \<and> (r = Inr target \<longleftrightarrow> Connected = Connected) \<and>
            tx d = tx demo_client @ [[5, 2], [1, 0],
              reply_bytes (case Connected of Connected \<Rightarrow> 0 | Refused \<Rightarrow> 5 | _ \<Rightarrow> 1)]
       else dials d = dials demo_client \<and> tx d = tx demo_client @ [[5, 2], [1, 1]] \<and>
            r = Inl (Bail (''Authentication failed for user: '' @ ''u1'')))"
    by (rule socks5_serves_clients [where ms = "[0, 2]" and user = "''u1''" and pass = "''pw''" and rsv = 0])
      (simp_all add: demo_client_def asc)
  then show ?thesis
    unfolding addr
    by (auto simp: reply_bytes_def SOCKS5_VERSION_def ATYP_IPV4_def demo_client_def Let_def)
qed

theorem socks5_dials_for_accounts_witness:
  "\<exists>r d. handle_connection (authenticate [''u1'' \<mapsto> ''pw'']) (\<lambda>_. Refused) ''peer'' demo_client = (r, d) \<and>
     (\<exists>ms u p rsv a prt rest. rx demo_client = client_bytes ms u p rsv a prt @ rest \<and>
        [''u1'' \<mapsto> ''pw''] (from_utf8_lossy u) = Some (from_utf8_lossy p) \<and>
        dials d = dials demo_client @ [show_addr a @ '':'' @ show_u16 prt])"
proof -
  have "\<exists>r d. handle_connection (authenticate [''u1'' \<mapsto> ''pw'']) (\<lambda>_. Refused) ''peer'' demo_client = (r, d) \<and>
      dials d \<noteq> dials demo_client"
    using handle_connection_run [of demo_client "[0, 2]" "''u1''" "''pw''" 0 "V4 (Ipv4 192 0 2 7)" 443 "[0x16]"
        "[''u1'' \<mapsto> ''pw'']" "\<lambda>_. Refused" "''peer''"]
    by (auto simp: demo_client_def ascii_def Let_def)
  then show ?thesis
    using socks5_dials_for_accounts [of "[''u1'' \<mapsto> ''pw'']" "\<lambda>_. Refused" "''peer''" demo_client] by blast
qed

end
