(* ===== verification/Proxy_Http.thy ===== *)
theory Proxy_Http
  imports Proxy_Socks5
begin

text \<open>
  The embedded HTTP CONNECT proxy of \<open>src/src/proxy/http_connect.rs\<close>: the header block is
  read byte by byte up to the first empty line, the request line and the
  \<open>Proxy-Authorization\<close> header are parsed, and the target is dialled. base64 decoding is the
  parameter \<open>dec\<close>.
\<close>

definition MAX_HEADER_SIZE :: nat where "MAX_HEADER_SIZE = 16 * 1024"

text \<open>The bytes of \<open>\r\n\r\n\<close>.\<close>

definition header_end :: "u8 list" where "header_end = [13, 10, 13, 10]"

subsection \<open>Reading the header block\<close>

text \<open>
  The loop of \<open>read_headers\<close>, on the buffer so far and the bytes still to come: \<open>None\<close> if
  the input ends first, an error if the buffer grows too long, else the block and the rest.
\<close>

fun header_loop :: "u8 list \<Rightarrow> u8 list \<Rightarrow> (string + u8 list \<times> u8 list) option" where
  "header_loop buf [] = None"
| "header_loop buf (b # bs) =
     (let buf' = buf @ [b] in
      if length buf' > MAX_HEADER_SIZE
      then Some (Inl (''Headers exceed '' @ show_nat MAX_HEADER_SIZE @ '' bytes''))
      else if length buf' \<ge> 4 \<and> drop (length buf' - 4) buf' = header_end then Some (Inr (buf', bs))
      else header_loop buf' bs)"

definition read_headers :: "u8 list conn_op" where
  "read_headers c =
     (case header_loop [] (rx c) of
        None \<Rightarrow> (Inl (if rx_stalls c then Stalled else Io_error ''early eof''), c\<lparr>rx := []\<rparr>)
      | Some (Inl m) \<Rightarrow> (Inl (Bail m), c\<lparr>rx := drop (MAX_HEADER_SIZE + 1) (rx c)\<rparr>)
      | Some (Inr (h, rest)) \<Rightarrow> (Inr h, c\<lparr>rx := rest\<rparr>))"

subsection \<open>Parsing\<close>

definition parse_basic_auth :: "(string \<Rightarrow> string + u8 list) \<Rightarrow> string option \<Rightarrow> (string \<times> string) option" where
  "parse_basic_auth dec value =
     (case value of
        None \<Rightarrow> None
      | Some v \<Rightarrow>
          (case (case strip_prefix ''Basic '' v of None \<Rightarrow> strip_prefix ''basic '' v | Some w \<Rightarrow> Some w) of
             None \<Rightarrow> None
           | Some w \<Rightarrow>
               (case dec (trim w) of
                  Inl _ \<Rightarrow> None
                | Inr bs \<Rightarrow>
                    (case from_utf8 bs of
                       None \<Rightarrow> None
                     | Some decoded \<Rightarrow> split_once (CHR '':'') decoded))))"

text \<open>The value of the first header line whose name is \<open>Proxy-Authorization\<close> in any case.\<close>

definition auth_header :: "string \<Rightarrow> string option" where
  "auth_header hdrs =
     (case find (\<lambda>line. starts_with ''proxy-authorization:'' (to_lowercase line)) (lines hdrs) of
        None \<Rightarrow> None
      | Some line \<Rightarrow> map_option (\<lambda>(_, value). trim value) (split_once (CHR '':'') line))"

definition first_line :: "string \<Rightarrow> string" where
  "first_line hdrs = (case lines hdrs of [] \<Rightarrow> [] | l # _ \<Rightarrow> l)"

definition connect_target :: "string \<Rightarrow> string option" where
  "connect_target hdrs =
     (let parts = split_whitespace (first_line hdrs) in
      if length parts < 3 \<or> to_uppercase (parts ! 0) \<noteq> ''CONNECT'' then None else Some (parts ! 1))"

subsection \<open>The connection\<close>

definition http_line :: "string \<Rightarrow> u8 list" where
  "http_line s = bytes_of_string (s @ CRLF @ CRLF)"

definition auth_required :: "u8 list" where
  "auth_required =
     http_line (''HTTP/1.1 407 Proxy Authentication Required'' @ CRLF
                @ ''Proxy-Authenticate: Basic realm='' @ [CHR 0x22] @ ''TPN Proxy'' @ [CHR 0x22])"

definition bad_request :: "u8 list" where "bad_request = http_line ''HTTP/1.1 400 Bad Request''"
definition bad_gateway :: "u8 list" where "bad_gateway = http_line ''HTTP/1.1 502 Bad Gateway''"
definition established :: "u8 list" where
  "established = http_line ''HTTP/1.1 200 Connection established''"

definition http_fail :: "u8 list \<Rightarrow> string \<Rightarrow> 'a conn_op" where
  "http_fail bs m = and_then (write_all bs) (\<lambda>_. err (Bail m))"

definition http_connect ::
    "(string \<Rightarrow> string + u8 list) \<Rightarrow> (string \<Rightarrow> string \<Rightarrow> bool) \<Rightarrow> string \<Rightarrow> string \<Rightarrow> string conn_op" where
  "http_connect dec auth peer hdrs =
     (case connect_target hdrs of
        None \<Rightarrow> http_fail bad_request (''Invalid request: '' @ first_line hdrs)
      | Some target \<Rightarrow>
          (case parse_basic_auth dec (auth_header hdrs) of
             None \<Rightarrow> http_fail auth_required (''Missing or invalid Proxy-Authorization from '' @ peer)
           | Some (user, pass) \<Rightarrow>
               if \<not> auth user pass
               then http_fail auth_required (''Authentication failed for '' @ user @ '' from '' @ peer)
               else ok target))"

definition http_handle_connection ::
    "(string \<Rightarrow> string + u8 list) \<Rightarrow> (string \<Rightarrow> string \<Rightarrow> bool) \<Rightarrow> (string \<Rightarrow> dial_result) \<Rightarrow> string \<Rightarrow> string conn_op" where
  "http_handle_connection dec auth dial peer =
     and_then set_keepalive (\<lambda>_.
     and_then (map_err (\<lambda>e. if e = Stalled then Bail ''Header read timeout'' else e) read_headers) (\<lambda>hdrs.
     and_then (http_connect dec auth peer (from_utf8_lossy hdrs)) (\<lambda>target.
     and_then (dial_target dial target) (\<lambda>r.
     and_then (if r = Connected then set_keepalive
               else http_fail bad_gateway (''Failed to connect to '' @ target)) (\<lambda>_.
     and_then (write_all established) (\<lambda>_.
     ok target))))))"

subsection \<open>What the header loop returns\<close>

definition ends_block :: "u8 list \<Rightarrow> bool" where
  "ends_block h \<longleftrightarrow> (\<exists>k. h = k @ header_end)"

lemma ends_block_iff: "length h \<ge> 4 \<and> drop (length h - 4) h = header_end \<longleftrightarrow> ends_block h"
proof
  assume "length h \<ge> 4 \<and> drop (length h - 4) h = header_end"
  then show "ends_block h" unfolding ends_block_def by (metis append_take_drop_id)
qed (auto simp: ends_block_def header_end_def)

lemma header_loop_Cons:
  "header_loop buf (b # bs) =
     (if length (buf @ [b]) > MAX_HEADER_SIZE
      then Some (Inl (''Headers exceed '' @ show_nat MAX_HEADER_SIZE @ '' bytes''))
      else if ends_block (buf @ [b]) then Some (Inr (buf @ [b], bs))
      else header_loop (buf @ [b]) bs)"
  by (simp only: header_loop.simps Let_def ends_block_iff)

declare header_loop.simps(2) [simp del]

lemma header_loop_Inr:
  assumes "header_loop buf bs = Some (Inr (h, rest))"
  shows "\<exists>w. bs = w @ rest \<and> h = buf @ w \<and> ends_block h \<and> length h \<le> MAX_HEADER_SIZE \<and>
           (\<forall>k. k \<noteq> [] \<and> strict_prefix k w \<longrightarrow> \<not> ends_block (buf @ k))"
  using assms
proof (induction bs arbitrary: buf)
  case Nil
  then show ?case by simp
next
  case (Cons b bs)
  show ?case
  proof (cases "ends_block (buf @ [b])")
    case True
    with Cons.prems show ?thesis
      by (intro exI [of _ "[b]"]) (auto simp: header_loop_Cons strict_prefix_def prefix_Cons split: if_splits)
  next
    case False
    with Cons.prems have rec: "header_loop (buf @ [b]) bs = Some (Inr (h, rest))"
      by (simp add: header_loop_Cons split: if_splits)
    from Cons.IH [OF rec] obtain w where
      w: "bs = w @ rest" "h = (buf @ [b]) @ w" "ends_block h" "length h \<le> MAX_HEADER_SIZE"
        "\<forall>k. k \<noteq> [] \<and> strict_prefix k w \<longrightarrow> \<not> ends_block ((buf @ [b]) @ k)" by blast
    have "\<not> ends_block (buf @ k)" if k: "k \<noteq> []" "strict_prefix k (b # w)" for k
    proof -
      from k obtain k' where "k = b # k'" "strict_prefix k' w"
        by (cases k) (auto simp: strict_prefix_def)
      with w(5) False show ?thesis by (cases "k' = []") auto
    qed
    with w show ?thesis by (intro exI [of _ "b # w"]) auto
  qed
qed

text \<open>Forward execution: a stretch without line feed, then a line end.\<close>

lemma not_ends_block: "last h \<noteq> 10 \<Longrightarrow> \<not> ends_block h"
  by (auto simp: ends_block_def header_end_def)

lemma header_loop_plain:
  "10 \<notin> set w \<Longrightarrow> length (buf @ w) \<le> MAX_HEADER_SIZE \<Longrightarrow>
   header_loop buf (w @ bs) = header_loop (buf @ w) bs"
  by (induction w arbitrary: buf) (auto simp: header_loop_Cons not_ends_block)

lemma ends_block_line: "l \<noteq> [] \<Longrightarrow> 10 \<notin> set l \<Longrightarrow> \<not> ends_block (buf @ l @ [13, 10])"
proof
  assume l: "l \<noteq> []" "10 \<notin> set l" and e: "ends_block (buf @ l @ [13, 10])"
  from e obtain k where "buf @ l @ [13, 10] = (k @ [13, 10]) @ [13, 10]"
    by (auto simp: ends_block_def header_end_def)
  then have "buf @ l = k @ [13, 10]" by simp
  with l have "last l = 10" by (metis last_append last.simps list.distinct(1))
  with l show False using last_in_set by metis
qed

lemma header_loop_line:
  assumes "l \<noteq> []" "10 \<notin> set l" "length (buf @ l @ [13, 10]) \<le> MAX_HEADER_SIZE"
  shows "header_loop buf (l @ [13, 10] @ bs) = header_loop (buf @ l @ [13, 10]) bs"
proof -
  have "header_loop buf ((l @ [13]) @ 10 # bs) = header_loop (buf @ l @ [13]) (10 # bs)"
    using assms by (subst header_loop_plain) auto
  then show ?thesis
    using assms ends_block_line [OF assms(1,2), of buf] by (simp add: header_loop_Cons)
qed

lemma header_loop_lines:
  assumes "ls \<noteq> []" and "\<forall>l \<in> set ls. l \<noteq> [] \<and> 10 \<notin> set l"
    and "length (buf @ concat (map (\<lambda>l. l @ [13, 10]) ls)) + 2 \<le> MAX_HEADER_SIZE"
  shows "header_loop buf (concat (map (\<lambda>l. l @ [13, 10]) ls) @ [13, 10] @ rest) =
    Some (Inr (buf @ concat (map (\<lambda>l. l @ [13, 10]) ls) @ [13, 10], rest))"
  using assms
proof (induction ls arbitrary: buf rule: list_nonempty_induct)
  case (single l)
  have "ends_block (buf @ l @ [13, 10, 13, 10])"
    unfolding ends_block_def header_end_def by (metis append.assoc)
  moreover have "header_loop (buf @ l @ [13, 10]) ([13] @ 10 # rest) = header_loop (buf @ l @ [13, 10, 13]) (10 # rest)"
    using single by (subst header_loop_plain) auto
  ultimately show ?case
    using single header_loop_line [of l buf "[13, 10] @ rest"] by (simp add: header_loop_Cons)
next
  case (cons l ls)
  then have "header_loop buf (l @ [13, 10] @ concat (map (\<lambda>l. l @ [13, 10]) ls) @ [13, 10] @ rest) =
      header_loop (buf @ l @ [13, 10]) (concat (map (\<lambda>l. l @ [13, 10]) ls) @ [13, 10] @ rest)"
    by (intro header_loop_line) auto
  also have "\<dots> = Some (Inr ((buf @ l @ [13, 10]) @ concat (map (\<lambda>l. l @ [13, 10]) ls) @ [13, 10], rest))"
    using cons by (intro cons.IH) auto
  finally show ?case by simp
qed

subsection \<open>A client's request\<close>

definition client_text :: "string list \<Rightarrow> string" where
  "client_text ls = concat (map (\<lambda>l. l @ CRLF) ls) @ CRLF"

definition client_request :: "string \<Rightarrow> string list \<Rightarrow> string \<Rightarrow> string list" where
  "client_request target hs v =
     (''CONNECT '' @ target @ '' HTTP/1.1'') # hs @ [''Proxy-Authorization: Basic '' @ v]"

text \<open>A header line a client may add: one non-empty line of ASCII that is not an authorization.\<close>

definition other_header :: "string \<Rightarrow> bool" where
  "other_header l \<longleftrightarrow>
     l \<noteq> [] \<and> LF \<notin> set l \<and> ascii l \<and> \<not> starts_with ''proxy-authorization:'' (to_lowercase l)"

lemma lines_client_text: "\<forall>l \<in> set ls. LF \<notin> set l \<Longrightarrow> lines (client_text ls) = ls @ [[]]"
proof (induction ls)
  case Nil
  then show ?case using lines_append_CRLF [of "[]" "[]"] by (simp add: client_text_def lines_def)
next
  case (Cons l ls)
  then show ?case using lines_append_CRLF [of l "client_text ls"] by (simp add: client_text_def)
qed

lemma bytes_append: "bytes_of_string (s @ t) = bytes_of_string s @ bytes_of_string t"
  by (simp add: bytes_of_string_def)

lemma bytes_client_text:
  "bytes_of_string (client_text ls) = concat (map (\<lambda>l. l @ [13, 10]) (map bytes_of_string ls)) @ [13, 10]"
  by (induction ls) (simp_all add: client_text_def bytes_of_string_def CRLF_def CR_def LF_def)

lemma LF_bytes: "LF \<notin> set l \<Longrightarrow> 10 \<notin> set (bytes_of_string l)"
proof
  assume l: "LF \<notin> set l" and "10 \<in> set (bytes_of_string l)"
  then obtain c where c: "c \<in> set l" "word_of_nat (of_char c) = (10 :: u8)"
    by (auto simp: bytes_of_string_def)
  have "c = char_of (unat (word_of_nat (of_char c) :: u8))"
    by (simp only: byte_of_char char_of_char)
  then have "c = char_of (10 :: nat)" by (simp add: c(2))
  also have "\<dots> = LF" unfolding LF_def by code_simp
  finally have "c = LF" .
  with c l show False by simp
qed

lemma first_line_request: "first_line (client_text (l # ls)) = l" if "LF \<notin> set l"
  using lines_append_CRLF [OF that, of "client_text ls"] by (simp add: first_line_def client_text_def)

lemma graphic_no_LF: "graphic c \<Longrightarrow> c \<noteq> LF"
  by (auto simp: graphic_def LF_def)

lemma graphic_ascii: "\<forall>c \<in> set s. graphic c \<Longrightarrow> ascii s"
  by (auto simp: ascii_def graphic_def)

lemma connect_line_parts:
  assumes "target \<noteq> []" "\<forall>c \<in> set target. graphic c"
  shows "split_whitespace (''CONNECT '' @ target @ '' HTTP/1.1'') = [''CONNECT'', target, ''HTTP/1.1'']"
  using split_ws_graphic_space [of "''CONNECT''" "[]" "target @ '' HTTP/1.1''"]
    split_ws_graphic_space [of target "[]" "''HTTP/1.1''"] split_ws_graphic [of "''HTTP/1.1''" "[]"] assms
  by (simp add: split_whitespace_def graphic_def)

lemma connect_target_request:
  assumes "target \<noteq> []" "\<forall>c \<in> set target. graphic c"
  shows "connect_target (client_text (client_request target hs v)) = Some target"
proof -
  have "LF \<notin> set (''CONNECT '' @ target @ '' HTTP/1.1'')"
    using assms graphic_no_LF by (auto simp: LF_def)
  note first_line_request [OF this]
  then show ?thesis
    using connect_line_parts [OF assms]
    by (simp add: connect_target_def client_request_def to_uppercase_def upper_char_def)
qed

lemma auth_line:
  "starts_with ''proxy-authorization:'' (to_lowercase (''Proxy-Authorization: Basic '' @ v))"
proof -
  have a: "char_of (97 :: nat) = CHR ''a''" "char_of (112 :: nat) = CHR ''p''"
    by code_simp+
  show ?thesis by (simp add: starts_with_def lower_char_def a)
qed

lemma connect_line_not_auth:
  "\<not> starts_with ''proxy-authorization:'' (to_lowercase (''CONNECT '' @ s))"
  by (simp add: starts_with_def lower_char_def)

lemma auth_header_request:
  assumes "LF \<notin> set (''CONNECT '' @ target @ '' HTTP/1.1'')" "\<forall>l \<in> set hs. other_header l"
    "v \<noteq> []" "\<forall>c \<in> set v. graphic c"
  shows "auth_header (client_text (client_request target hs v)) = Some (''Basic '' @ v)"
proof -
  let ?auth = "''Proxy-Authorization: Basic '' @ v"
  let ?hit = "\<lambda>line. starts_with ''proxy-authorization:'' (to_lowercase line)"
  have "\<forall>l \<in> set (client_request target hs v). LF \<notin> set l"
    using assms graphic_no_LF by (auto simp: client_request_def other_header_def LF_def)
  then have "lines (client_text (client_request target hs v)) =
      (''CONNECT '' @ target @ '' HTTP/1.1'') # hs @ [?auth, []]"
    by (simp add: lines_client_text client_request_def)
  moreover have "find ?hit (hs @ [?auth, []]) = Some ?auth"
    using assms(2) auth_line [of v] by (induction hs) (auto simp: other_header_def)
  ultimately have "find ?hit (lines (client_text (client_request target hs v))) = Some ?auth"
    using connect_line_not_auth [of "target @ '' HTTP/1.1''"] by simp
  moreover have "split_once (CHR '':'') ?auth = Some (''Proxy-Authorization'', '' Basic '' @ v)"
    by simp
  moreover have "trim ('' Basic '' @ v) = ''Basic '' @ v"
    using assms(3,4) trim_graphic [of "''Basic '' @ v"] by (simp add: trim_space) (simp add: graphic_def)
  ultimately show ?thesis by (simp add: auth_header_def)
qed

lemma parse_basic_auth_request:
  assumes "\<forall>c \<in> set v. graphic c" "dec v = Inr (bytes_of_string (user @ '':'' @ pass))"
    "ascii user" "ascii pass" "CHR '':'' \<notin> set user"
  shows "parse_basic_auth dec (Some (''Basic '' @ v)) = Some (user, pass)"
proof -
  have "ascii (user @ '':'' @ pass)" using assms(3,4) by (auto simp: ascii_def)
  moreover have "split_once (CHR '':'') (user @ '':'' @ pass) = Some (user, pass)"
    using assms(5) by (simp add: split_once_Some)
  ultimately show ?thesis
    using assms by (simp add: parse_basic_auth_def trim_all_graphic from_utf8_ascii)
qed

subsection \<open>Whole connections\<close>

lemma read_headers_Inr:
  assumes "read_headers c = (Inr h, d)"
  shows "rx c = h @ rx d \<and> ends_block h \<and> length h \<le> MAX_HEADER_SIZE \<and>
         (\<forall>k. strict_prefix k h \<longrightarrow> \<not> ends_block k) \<and> d = c\<lparr>rx := rx d\<rparr>"
proof -
  from assms have l: "header_loop [] (rx c) = Some (Inr (h, rx d))" and d: "d = c\<lparr>rx := rx d\<rparr>"
    by (auto simp: read_headers_def split: option.splits sum.splits prod.splits)
  have "\<not> ends_block []" by (simp add: ends_block_def header_end_def)
  with header_loop_Inr [OF l] d show ?thesis by (metis append_Nil)
qed

lemma keeps_dials_http [keeps_rules]:
  "keeps (dials_are ds) read_headers" "keeps (dials_are ds) (http_fail bs m)"
  "keeps (dials_are ds) (http_connect dec auth peer hdrs)"
proof -
  show "keeps (dials_are ds) read_headers"
    by (auto simp: keeps_def dials_are_def read_headers_def split: option.splits sum.splits)
  show f: "keeps (dials_are ds) (http_fail bs m)" for bs m
    unfolding http_fail_def by (intro keeps_rules)
  show "keeps (dials_are ds) (http_connect dec auth peer hdrs)"
    unfolding http_connect_def by (intro keeps_rules f)
qed

lemma http_connect_Inr:
  "http_connect dec auth peer hdrs c = (Inr t, d) \<longleftrightarrow>
     d = c \<and> connect_target hdrs = Some t \<and>
     (\<exists>u p. parse_basic_auth dec (auth_header hdrs) = Some (u, p) \<and> auth u p)"
  by (auto simp: http_connect_def http_fail_def inv_simps split: option.splits)

context authenticator begin

lemma http_connect_account:
  "http_connect dec auth peer hdrs c = (Inr t, d) \<Longrightarrow>
   connect_target hdrs = Some t \<and>
   (\<exists>u p. parse_basic_auth dec (auth_header hdrs) = Some (u, p) \<and> accounts u = Some p)"
  by (auto simp: http_connect_Inr auth_iff)

end

definition answer_http :: "string \<Rightarrow> dial_result \<Rightarrow> string conn_op" where
  "answer_http target r =
     and_then (if r = Connected then set_keepalive
               else http_fail bad_gateway (''Failed to connect to '' @ target)) (\<lambda>_.
     and_then (write_all established) (\<lambda>_.
     ok target))"

lemma keeps_dials_answer_http: "keeps (dials_are ds) (answer_http t r)"
  unfolding answer_http_def by (intro keeps_rules)

lemma http_dials:
  assumes "http_handle_connection dec auth dial peer c = (r, d)" and "dials d \<noteq> dials c"
  shows "\<exists>h t c1 c2. read_headers (c\<lparr>opt_pos := Suc (opt_pos c)\<rparr>) = (Inr h, c1) \<and>
           http_connect dec auth peer (from_utf8_lossy h) c1 = (Inr t, c2) \<and> dials d = dials c @ [t]"
proof -
  let ?c = "c\<lparr>opt_pos := Suc (opt_pos c)\<rparr>"
  have k: "opt_fault c (opt_pos c) = None"
    using assms by (auto simp: http_handle_connection_def set_keepalive_def and_then_def split: option.splits)
  obtain rh c1 where h: "read_headers ?c = (rh, c1)" by (cases "read_headers ?c")
  have d1: "dials c1 = dials c"
    using keepsD [OF keeps_dials_http(1), of "dials c" ?c] h by (simp add: dials_are_def)
  obtain hd where rh: "rh = Inr hd"
    using assms k h d1
    by (cases rh) (auto simp: http_handle_connection_def seq_simps run_simps)
  obtain rt c2 where t: "http_connect dec auth peer (from_utf8_lossy hd) c1 = (rt, c2)"
    by (cases "http_connect dec auth peer (from_utf8_lossy hd) c1")
  have d2: "dials c2 = dials c"
    using keepsD [OF keeps_dials_http(3), of "dials c" c1 dec auth peer "from_utf8_lossy hd"] t d1
    by (simp add: dials_are_def)
  obtain tg where rt: "rt = Inr tg"
    using assms k h t d2 rh
    by (cases rt) (auto simp: http_handle_connection_def seq_simps run_simps)
  have "dials d = dials c @ [tg]"
    using assms(1) k h t d2 rh rt
      keepsD [OF keeps_dials_answer_http, of "dials c @ [tg]" "c2\<lparr>dials := dials c2 @ [tg]\<rparr>" tg "dial tg"]
    by (simp add: http_handle_connection_def answer_http_def [symmetric] dial_target_def dials_are_def
        seq_simps run_simps)
  with h rh t rt show ?thesis by blast
qed

subsection \<open>Properties\<close>

text \<open>C38: \<open>read_headers\<close> takes exactly the bytes up to the first empty line, at most
  \<open>MAX_HEADER_SIZE\<close> of them, and leaves everything after it to the relay; on an error it has
  read at most one byte more than the limit.\<close>

theorem read_headers_spec:
  "case read_headers c of
     (Inr h, d) \<Rightarrow> rx c = h @ rx d \<and> ends_block h \<and> length h \<le> MAX_HEADER_SIZE \<and>
       \<not> (\<exists>k. strict_prefix k h \<and> ends_block k)
   | (Inl e, d) \<Rightarrow> \<not> (\<exists>h rest. rx c = h @ rest \<and> ends_block h \<and> length h \<le> MAX_HEADER_SIZE)"
proof -
  have none: "\<not> (\<exists>w rest. bs = w @ rest \<and> w \<noteq> [] \<and> ends_block (buf @ w) \<and> length (buf @ w) \<le> MAX_HEADER_SIZE)"
    if "\<forall>h r. header_loop buf bs \<noteq> Some (Inr (h, r))" for buf bs
    using that
  proof (induction bs arbitrary: buf)
    case (Cons b bs)
    then have rec: "length (buf @ [b]) \<le> MAX_HEADER_SIZE \<Longrightarrow>
        \<forall>h r. header_loop (buf @ [b]) bs \<noteq> Some (Inr (h, r)) \<and> \<not> ends_block (buf @ [b])"
      by (auto simp: header_loop_Cons split: if_splits)
    show ?case
    proof
      assume "\<exists>w rest. b # bs = w @ rest \<and> w \<noteq> [] \<and> ends_block (buf @ w) \<and> length (buf @ w) \<le> MAX_HEADER_SIZE"
      then obtain w rest where w: "bs = w @ rest" "ends_block ((buf @ [b]) @ w)"
          "length ((buf @ [b]) @ w) \<le> MAX_HEADER_SIZE"
        by (auto simp: Cons_eq_append_conv)
      with Cons.IH [of "buf @ [b]"] rec show False by (cases "w = []") fastforce+
    qed
  qed simp
  show ?thesis
  proof (cases "read_headers c")
    case (Pair r d)
    show ?thesis
    proof (cases r)
      case (Inr h)
      with Pair read_headers_Inr [of c h d] show ?thesis by auto
    next
      case (Inl e)
      with Pair have "\<forall>h r. header_loop [] (rx c) \<noteq> Some (Inr (h, r))"
        by (auto simp: read_headers_def)
      from none [OF this] have "\<not> (\<exists>h rest. rx c = h @ rest \<and> ends_block h \<and> length h \<le> MAX_HEADER_SIZE)"
        by (auto simp: ends_block_def header_end_def)
      with Pair Inl show ?thesis by simp
    qed
  qed
qed

text \<open>C23: The HTTP proxy, too, dials only on behalf of an account: if a connection dials, then once,
  and the header block the client sent is a CONNECT request for that target whose
  \<open>Proxy-Authorization\<close> header decodes to a user name and password that are accepted.\<close>

theorem http_dials_for_accounts:
  assumes "http_handle_connection dec (authenticate accounts) dial peer c = (r, d)"
    and "dials d \<noteq> dials c"
  shows "\<exists>h rest target user pass.
           rx c = h @ rest \<and> ends_block h \<and>
           connect_target (from_utf8_lossy h) = Some target \<and>
           parse_basic_auth dec (auth_header (from_utf8_lossy h)) = Some (user, pass) \<and>
           accounts user = Some pass \<and> dials d = dials c @ [target]"
proof -
  from http_dials [OF assms] obtain h t c1 c2 where
    h: "read_headers (c\<lparr>opt_pos := Suc (opt_pos c)\<rparr>) = (Inr h, c1)"
    and t: "http_connect dec (authenticate accounts) peer (from_utf8_lossy h) c1 = (Inr t, c2)"
    and d: "dials d = dials c @ [t]" by blast
  from read_headers_Inr [OF h] creds.http_connect_account [OF t] d show ?thesis by auto
qed

text \<open>The request of a well-behaved client, as the proxy needs it.\<close>

definition good_request ::
    "(string \<Rightarrow> string + u8 list) \<Rightarrow> string \<Rightarrow> string list \<Rightarrow> string \<Rightarrow> string \<Rightarrow> string \<Rightarrow> bool" where
  "good_request dec target hs v user pass \<longleftrightarrow>
     target \<noteq> [] \<and> (\<forall>c \<in> set target. graphic c) \<and> (\<forall>l \<in> set hs. other_header l) \<and>
     v \<noteq> [] \<and> (\<forall>c \<in> set v. graphic c) \<and> dec v = Inr (bytes_of_string (user @ '':'' @ pass)) \<and>
     ascii user \<and> ascii pass \<and> CHR '':'' \<notin> set user \<and>
     length (client_text (client_request target hs v)) \<le> MAX_HEADER_SIZE"

lemma read_headers_request:
  assumes "rx c = bytes_of_string (client_text ls) @ rest"
    and "\<forall>l \<in> set ls. l \<noteq> [] \<and> LF \<notin> set l" and "ls \<noteq> []"
    and "length (client_text ls) \<le> MAX_HEADER_SIZE"
  shows "read_headers c = (Inr (bytes_of_string (client_text ls)), c\<lparr>rx := rest\<rparr>)"
proof -
  have "length (concat (map (\<lambda>l. l @ [13, 10 :: u8]) (map bytes_of_string ls))) + 2 \<le> MAX_HEADER_SIZE"
    using assms(4) length_bytes_of_string [of "client_text ls"] by (simp add: bytes_client_text del: length_bytes_of_string)
  moreover have "\<forall>l \<in> set (map bytes_of_string ls). l \<noteq> [] \<and> 10 \<notin> set l"
    using assms(2) LF_bytes by auto (auto simp: bytes_of_string_def)
  ultimately show ?thesis
    using header_loop_lines [of "map bytes_of_string ls" "[]" rest] assms(1,3)
    by (simp add: read_headers_def bytes_client_text)
qed

lemma ascii_client_text: "\<forall>l \<in> set ls. ascii l \<Longrightarrow> ascii (client_text ls)"
  by (auto simp: ascii_def client_text_def CRLF_def CR_def LF_def)

lemma http_handle_run:
  assumes "rx c = bytes_of_string (client_text (client_request target hs v)) @ rest"
    and "good_request dec target hs v user pass"
    and "\<forall>n. tx_fault c n = None" "\<forall>n. opt_fault c n = None"
  shows "\<exists>r d. http_handle_connection dec (authenticate accounts) dial peer c = (r, d) \<and> rx d = rest \<and>
    (if accounts user = Some pass
     then dials d = dials c @ [target] \<and> (r = Inr target \<longleftrightarrow> dial target = Connected) \<and>
          tx d = tx c @ [if dial target = Connected then established else bad_gateway]
     else dials d = dials c \<and> tx d = tx c @ [auth_required] \<and> (\<exists>m. r = Inl (Bail m)))"
proof -
  let ?ls = "client_request target hs v" and ?c = "c\<lparr>opt_pos := Suc (opt_pos c)\<rparr>"
  have g: "target \<noteq> []" "\<forall>c \<in> set target. graphic c" "\<forall>l \<in> set hs. other_header l"
    "v \<noteq> []" "\<forall>c \<in> set v. graphic c" "dec v = Inr (bytes_of_string (user @ '':'' @ pass))"
    "ascii user" "ascii pass" "CHR '':'' \<notin> set user" "length (client_text ?ls) \<le> MAX_HEADER_SIZE"
    using assms(2) by (simp_all add: good_request_def)
  have noLF: "LF \<notin> set (''CONNECT '' @ target @ '' HTTP/1.1'')"
    using g(2) graphic_no_LF by (auto simp: LF_def)
  have ls: "\<forall>l \<in> set ?ls. l \<noteq> [] \<and> LF \<notin> set l" "?ls \<noteq> []"
    using noLF g(3,5) graphic_no_LF by (auto simp: client_request_def other_header_def LF_def)
  have "ascii target" "ascii v" using g(2,5) graphic_ascii by auto
  then have "\<forall>l \<in> set ?ls. ascii l"
    using g(3) by (auto simp: client_request_def other_header_def ascii_def)
  then have dec: "from_utf8_lossy (bytes_of_string (client_text ?ls)) = client_text ?ls"
    by (simp add: ascii_client_text from_utf8_lossy_ascii)
  have rd: "read_headers ?c = (Inr (bytes_of_string (client_text ?ls)), ?c\<lparr>rx := rest\<rparr>)"
    using read_headers_request [of ?c ?ls rest] assms(1) ls g(10) by simp
  have tg: "connect_target (client_text ?ls) = Some target"
    using connect_target_request [OF g(1,2)] .
  have pa: "parse_basic_auth dec (auth_header (client_text ?ls)) = Some (user, pass)"
    using auth_header_request [OF noLF g(3,4,5)] parse_basic_auth_request [of v dec user pass] g(5-9) by simp
  show ?thesis
    using assms(3,4)
    by (auto simp: http_handle_connection_def seq_simps run_simps rd dec http_connect_def tg pa
        authenticate_iff http_fail_def dial_target_def)
qed

text \<open>C31: A client that sends a well-formed CONNECT request with the credentials of an account is
  connected to the target it names, and after the 200 response the relay starts with the
  bytes that follow its header block; a failed dial is answered with 502, wrong credentials
  with 407 and no dial.\<close>

theorem http_serves_clients:
  assumes "rx c = bytes_of_string (client_text (client_request target hs v)) @ rest"
    and "good_request dec target hs v user pass"
    and "\<forall>n. tx_fault c n = None" "\<forall>n. opt_fault c n = None"
  shows "\<exists>r d. http_handle_connection dec (authenticate accounts) dial peer c = (r, d) \<and> rx d = rest \<and>
    (if accounts user = Some pass
     then dials d = dials c @ [target] \<and> (r = Inr target \<longleftrightarrow> dial target = Connected) \<and>
          tx d = tx c @ [if dial target = Connected then established else bad_gateway]
     else dials d = dials c \<and> tx d = tx c @ [auth_required] \<and> (\<exists>m. r = Inl (Bail m)))"
  by (rule http_handle_run [OF assms])

definition demo_request :: conn where
  "demo_request = demo_conn (bytes_of_string (client_text
     (client_request ''example.org:443'' [''Host: example.org''] ''dTE6cHc='')) @ [0x16])"

definition demo_dec :: "string \<Rightarrow> string + u8 list" where
  "demo_dec s = (if s = ''dTE6cHc='' then Inr (bytes_of_string ''u1:pw'') else Inl ''InvalidByte'')"

lemma demo_good_request:
  "good_request demo_dec ''example.org:443'' [''Host: example.org''] ''dTE6cHc='' ''u1'' ''pw''"
proof -
  have "other_header ''Host: example.org''" by code_simp
  moreover have "length (client_text (client_request ''example.org:443'' [''Host: example.org''] ''dTE6cHc='')) \<le> MAX_HEADER_SIZE"
    by (simp add: client_text_def client_request_def CRLF_def MAX_HEADER_SIZE_def)
  ultimately show ?thesis
    by (simp add: good_request_def demo_dec_def graphic_def ascii_def)
qed

theorem http_serves_clients_witness:
  "\<exists>d. http_handle_connection demo_dec (authenticate [''u1'' \<mapsto> ''pw'']) (\<lambda>_. Connected) ''peer'' demo_request =
         (Inr ''example.org:443'', d) \<and> rx d = [0x16] \<and> tx d = [established]"
  using http_serves_clients [OF _ demo_good_request, of demo_request "[0x16]" "[''u1'' \<mapsto> ''pw'']" "\<lambda>_. Connected" "''peer''"]
  by (auto simp: demo_request_def)

theorem http_dials_for_accounts_witness:
  "\<exists>r d. http_handle_connection demo_dec (authenticate [''u1'' \<mapsto> ''pw'']) (\<lambda>_. Refused) ''peer'' demo_request = (r, d) \<and>
     (\<exists>h rest target user pass. rx demo_request = h @ rest \<and> ends_block h \<and>
        connect_target (from_utf8_lossy h) = Some target \<and>
        parse_basic_auth demo_dec (auth_header (from_utf8_lossy h)) = Some (user, pass) \<and>
        [''u1'' \<mapsto> ''pw''] user = Some pass \<and> dials d = dials demo_request @ [target])"
proof -
  obtain r d where rd: "http_handle_connection demo_dec (authenticate [''u1'' \<mapsto> ''pw'']) (\<lambda>_. Refused) ''peer'' demo_request = (r, d)"
    "dials d \<noteq> dials demo_request"
    using http_handle_run [OF _ demo_good_request, of demo_request "[0x16]" "[''u1'' \<mapsto> ''pw'']" "\<lambda>_. Refused" "''peer''"]
    by (auto simp: demo_request_def)
  from http_dials_for_accounts [OF this] rd(1) show ?thesis by blast
qed

end
