(* ===== verification/Proxy_Server.thy ===== *)
theory Proxy_Server
  imports Proxy_Http
begin

text \<open>
  The two proxies as servers, \<open>run_socks5_server\<close> in \<open>src/src/proxy/socks5.rs\<close> and
  \<open>run_http_connect_server\<close> in \<open>src/src/proxy/http_connect.rs\<close>: the loop that accepts connections until
  the worker shuts down, and the relay that follows a successful dial. A connection runs as a task
  of its own and reads the shared accounts when it checks a password, so an accepted connection
  comes with the accounts of that moment.
\<close>

subsection \<open>The accept loop\<close>

text \<open>What \<open>tokio::select!\<close> sees, one round after the other.\<close>

datatype 'c accept = Cancelled | Accept_error string | Accepted 'c

fun accept_loop :: "('c \<Rightarrow> 'r) \<Rightarrow> 'c accept list \<Rightarrow> 'r list" where
  "accept_loop handler [] = []"
| "accept_loop handler (Cancelled # es) = []"
| "accept_loop handler (Accept_error e # es) = accept_loop handler es"
| "accept_loop handler (Accepted c # es) = handler c # accept_loop handler es"

type_synonym client = "string \<times> (string \<rightharpoonup> string) \<times> conn" \<comment> \<open>address, accounts, connection\<close>
type_synonym served = "(io_error + string) \<times> conn"

text \<open>\<open>TcpListener::bind(bind_addr).await?\<close>, then the loop.\<close>

definition run_socks5_server ::
    "string + unit \<Rightarrow> (string \<Rightarrow> dial_result) \<Rightarrow> client accept list \<Rightarrow> io_error + served list" where
  "run_socks5_server bound dial events =
     (case bound of
        Inl e \<Rightarrow> Inl (Io_error e)
      | Inr _ \<Rightarrow> Inr (accept_loop (\<lambda>(peer, accounts, c). handle_connection (authenticate accounts) dial peer c) events))"

definition run_http_connect_server ::
    "string + unit \<Rightarrow> (string \<Rightarrow> string + u8 list) \<Rightarrow> (string \<Rightarrow> dial_result) \<Rightarrow> client accept list \<Rightarrow>
     io_error + served list" where
  "run_http_connect_server bound dec dial events =
     (case bound of
        Inl e \<Rightarrow> Inl (Io_error e)
      | Inr _ \<Rightarrow> Inr (accept_loop (\<lambda>(peer, accounts, c). http_handle_connection dec (authenticate accounts) dial peer c) events))"

lemma accept_loop_set: "y \<in> set (accept_loop handler es) \<Longrightarrow> \<exists>c. Accepted c \<in> set es \<and> y = handler c"
  by (induction handler es rule: accept_loop.induct) auto

subsection \<open>The relay\<close>

text \<open>
  Two copies run until one of them ends, by the end of its input or an error; the other one is
  dropped with both sockets. The result is what the target and the client have received.
\<close>

datatype relay_event = Client_sent "u8 list" | Target_sent "u8 list" | Client_done | Target_done

fun relay :: "relay_event list \<Rightarrow> u8 list \<times> u8 list" where
  "relay [] = ([], [])"
| "relay (Client_sent bs # es) = (case relay es of (up, down) \<Rightarrow> (bs @ up, down))"
| "relay (Target_sent bs # es) = (case relay es of (up, down) \<Rightarrow> (up, bs @ down))"
| "relay (Client_done # es) = ([], [])"
| "relay (Target_done # es) = ([], [])"

fun client_bytes_sent :: "relay_event list \<Rightarrow> u8 list" where
  "client_bytes_sent [] = []"
| "client_bytes_sent (Client_sent bs # es) = bs @ client_bytes_sent es"
| "client_bytes_sent (e # es) = client_bytes_sent es"

fun target_bytes_sent :: "relay_event list \<Rightarrow> u8 list" where
  "target_bytes_sent [] = []"
| "target_bytes_sent (Target_sent bs # es) = bs @ target_bytes_sent es"
| "target_bytes_sent (e # es) = target_bytes_sent es"

text \<open>
  Bytes arrive unchanged and in order, and all of them as long as neither side is done; but the side
  that is done first also ends the other direction: an answer that comes after a client has closed
  its half of the connection is lost.
\<close>

lemma relay_prefix:
  "prefix (fst (relay es)) (client_bytes_sent es) \<and> prefix (snd (relay es)) (target_bytes_sent es)"
  by (induction es rule: relay.induct) (auto split: prod.splits)

lemma relay_complete:
  "Client_done \<notin> set es \<Longrightarrow> Target_done \<notin> set es \<Longrightarrow> relay es = (client_bytes_sent es, target_bytes_sent es)"
  by (induction es rule: relay.induct) simp_all

theorem relay_half_close_cuts_answer:
  "Client_done \<notin> set es \<Longrightarrow> Target_done \<notin> set es \<Longrightarrow>
   snd (relay (es @ Client_done # Target_sent bs # fs)) = target_bytes_sent es"
  by (induction es rule: relay.induct) (auto split: prod.splits)

theorem relay_half_close_cuts_answer_witness:
  "snd (relay [Client_sent [71], Client_done, Target_sent [72, 73]]) = []"
  using relay_half_close_cuts_answer [of "[Client_sent [71]]" "[72, 73]" "[]"] by simp

subsection \<open>What a server does for its clients\<close>

text \<open>
  The contract of a proxy protocol: \<open>presents bs u p target\<close> says that the bytes \<open>bs\<close> of a client carry
  the user name, the password and the target, and a connection that dials does so once, for the
  target of a client that presents an account.
\<close>

locale proxy =
  fixes handler :: "(string \<Rightarrow> string \<Rightarrow> bool) \<Rightarrow> (string \<Rightarrow> dial_result) \<Rightarrow> string \<Rightarrow> string conn_op"
    and presents :: "u8 list \<Rightarrow> string \<Rightarrow> string \<Rightarrow> string \<Rightarrow> bool"
  assumes dials_for_account:
    "handler (authenticate accounts) dial peer c = (r, d) \<Longrightarrow> dials d \<noteq> dials c \<Longrightarrow>
     \<exists>u p target. presents (rx c) u p target \<and> accounts u = Some p \<and> dials d = dials c @ [target]"
begin

lemma accept_loop_dials:
  assumes "(r, d) \<in> set (accept_loop (\<lambda>(peer, accounts, c). handler (authenticate accounts) dial peer c) events)"
    and "\<And>peer accounts c. Accepted (peer, accounts, c) \<in> set events \<Longrightarrow> dials c = []" and "dials d \<noteq> []"
  shows "\<exists>peer accounts c u p target. Accepted (peer, accounts, c) \<in> set events \<and> presents (rx c) u p target \<and>
           accounts u = Some p \<and> dials d = [target]"
proof -
  obtain peer accounts c where c: "Accepted (peer, accounts, c) \<in> set events"
    "handler (authenticate accounts) dial peer c = (r, d)"
    using accept_loop_set [OF assms(1)] by auto
  with assms(2) [OF c(1)] assms(3) dials_for_account [OF c(2)] show ?thesis by fastforce
qed

end

definition socks5_presents :: "u8 list \<Rightarrow> string \<Rightarrow> string \<Rightarrow> string \<Rightarrow> bool" where
  "socks5_presents bs user pass target \<longleftrightarrow>
     (\<exists>ms u p rsv a prt rest. bs = client_bytes ms u p rsv a prt @ rest \<and> user = from_utf8_lossy u \<and>
        pass = from_utf8_lossy p \<and> target = show_addr a @ '':'' @ show_u16 prt)"

definition http_presents :: "(string \<Rightarrow> string + u8 list) \<Rightarrow> u8 list \<Rightarrow> string \<Rightarrow> string \<Rightarrow> string \<Rightarrow> bool" where
  "http_presents dec bs user pass target \<longleftrightarrow>
     (\<exists>h rest. bs = h @ rest \<and> ends_block h \<and> connect_target (from_utf8_lossy h) = Some target \<and>
        parse_basic_auth dec (auth_header (from_utf8_lossy h)) = Some (user, pass))"

interpretation socks5: proxy handle_connection socks5_presents
proof
  fix accounts dial peer c r d assume h: "handle_connection (authenticate accounts) dial peer c = (r, d)" "dials d \<noteq> dials c"
  from handle_connection_dials [OF h] obtain t e where
    t: "handshake (authenticate accounts) (c\<lparr>opt_pos := Suc (opt_pos c)\<rparr>) = (Inr t, e)" "dials d = dials c @ [t]" by blast
  from creds.handshake_account [OF t(1)] t(2)
  show "\<exists>u p target. socks5_presents (rx c) u p target \<and> accounts u = Some p \<and> dials d = dials c @ [target]"
    by (fastforce simp: socks5_presents_def)
qed

interpretation http: proxy "http_handle_connection dec" "http_presents dec" for dec
proof
  fix accounts dial peer c r d assume h: "http_handle_connection dec (authenticate accounts) dial peer c = (r, d)" "dials d \<noteq> dials c"
  from http_dials [OF h] obtain h t c1 c2 where
    h: "read_headers (c\<lparr>opt_pos := Suc (opt_pos c)\<rparr>) = (Inr h, c1)"
    and t: "http_connect dec (authenticate accounts) peer (from_utf8_lossy h) c1 = (Inr t, c2)"
    and d: "dials d = dials c @ [t]" by blast
  from read_headers_Inr [OF h] creds.http_connect_account [OF t] d
  show "\<exists>u p target. http_presents dec (rx c) u p target \<and> accounts u = Some p \<and> dials d = dials c @ [target]"
    by (auto simp: http_presents_def)
qed

end
