(* ===== verification/Worker_Proxy.thy ===== *)
theory Worker_Proxy
  imports Worker_Start Proxy_Server
begin

text \<open>
  The worker and its proxies together: a connection that is accepted while the worker serves checks
  passwords against the accounts of that moment. What the start and the invariants of the worker say
  about these accounts meets what the proxies do with them.
\<close>

subsection \<open>Clients\<close>

text \<open>A client that follows RFC 1928 and RFC 1929, on a socket that can be written.\<close>

definition socks5_client :: "string \<Rightarrow> string \<Rightarrow> addr \<Rightarrow> u16 \<Rightarrow> conn \<Rightarrow> bool" where
  "socks5_client user pass a prt c \<longleftrightarrow>
     (\<exists>ms rsv rest. rx c = client_bytes ms (bytes_of_string user) (bytes_of_string pass) rsv a prt @ rest \<and>
        length ms < 256 \<and> 2 \<in> set ms) \<and>
     length user < 256 \<and> length pass < 256 \<and> ascii user \<and> ascii pass \<and> addr_ok a \<and>
     (\<forall>n. tx_fault c n = None) \<and> (\<forall>n. opt_fault c n = None)"

lemma socks5_client_served:
  assumes "socks5_client user pass a prt c" and "accounts user = Some pass"
  shows "\<exists>r d. handle_connection (authenticate accounts) dial peer c = (r, d) \<and>
    dials d = dials c @ [show_addr a @ '':'' @ show_u16 prt] \<and>
    (r = Inr (show_addr a @ '':'' @ show_u16 prt) \<longleftrightarrow> dial (show_addr a @ '':'' @ show_u16 prt) = Connected)"
proof -
  from assms(1) obtain ms rsv rest where c: "rx c = client_bytes ms (bytes_of_string user) (bytes_of_string pass) rsv a prt @ rest"
    "length ms < 256" "2 \<in> set ms" by (auto simp: socks5_client_def)
  have f: "length user < 256" "length pass < 256" "ascii user" "ascii pass" "addr_ok a"
    "\<forall>n. tx_fault c n = None" "\<forall>n. opt_fault c n = None" using assms(1) by (simp_all add: socks5_client_def)
  from handle_connection_run [OF c f, of accounts dial peer] assms(2) show ?thesis by (auto simp: Let_def)
qed

definition demo_socks5_client :: "string \<Rightarrow> string \<Rightarrow> conn" where
  "demo_socks5_client user pass =
     demo_conn (client_bytes [2] (bytes_of_string user) (bytes_of_string pass) 0 (V4 (Ipv4 192 0 2 7)) 443)"

lemma demo_socks5_client_ok:
  "ascii user \<Longrightarrow> ascii pass \<Longrightarrow> length user < 256 \<Longrightarrow> length pass < 256 \<Longrightarrow>
   socks5_client user pass (V4 (Ipv4 192 0 2 7)) 443 (demo_socks5_client user pass) \<and> dials (demo_socks5_client user pass) = []"
proof -
  assume a: "ascii user" "ascii pass" "length user < 256" "length pass < 256"
  have "\<exists>ms rsv rest. rx (demo_socks5_client user pass) =
      client_bytes ms (bytes_of_string user) (bytes_of_string pass) rsv (V4 (Ipv4 192 0 2 7)) 443 @ rest \<and> length ms < 256 \<and> 2 \<in> set ms"
    by (rule exI [of _ "[2]"], rule exI [of _ 0], rule exI [of _ "[]"]) (simp add: demo_socks5_client_def)
  with a show ?thesis unfolding socks5_client_def by (simp add: demo_socks5_client_def)
qed

subsection \<open>Only accounts of the table dial\<close>

lemma bring_up_accounts:
  fixes s t u :: "'z os_st_scheme"
  assumes "bring_up fuel v cfg s = (Inr st, u)" and "serves st u t" and "credentials t n = Some p"
  shows "\<exists>r \<in> set (socks_configs t). username r = n \<and> password r = p"
proof -
  have "accounts_sound t" using accounts.serves_keeps [OF assms(2) bring_up_sound(1) [OF assms(1)]] .
  with assms(3) show ?thesis by (force simp: accounts_sound_def)
qed

definition while_serving :: "app_state \<Rightarrow> 'z os_st_scheme \<Rightarrow> client accept list \<Rightarrow> bool" where
  "while_serving st u events \<longleftrightarrow>
     (\<forall>peer m c. Accepted (peer, m, c) \<in> set events \<longrightarrow> dials c = [] \<and> (\<exists>t. serves st u t \<and> m = credentials t))"

text \<open>C6: The proxies never dial on behalf of strangers. Whatever connections the two proxies of a worker that
  came up accept, whatever their clients send, and whatever else the worker is doing: a connection that
  dials does so once, to the target its client asked for, and the client has presented the user name
  and password of a row that is in the SOCKS5 table at that moment.\<close>

theorem proxies_dial_for_table_accounts:
  fixes s u :: "'z os_st_scheme"
  assumes "bring_up fuel v cfg s = (Inr st, u)" and "while_serving st u events"
    and "run_socks5_server bound dial events = Inr conns \<or> run_http_connect_server bound dec dial events = Inr conns"
    and "(r, d) \<in> set conns" and "dials d \<noteq> []"
  shows "\<exists>peer c t row target. serves st u t \<and> Accepted (peer, credentials t, c) \<in> set events \<and>
     row \<in> set (socks_configs t) \<and> dials d = [target] \<and>
     (socks5_presents (rx c) (username row) (password row) target \<or>
      http_presents dec (rx c) (username row) (password row) target)"
proof -
  have fresh: "dials c = []" if "Accepted (peer, m, c) \<in> set events" for peer m c
    using that assms(2) by (auto simp: while_serving_def)
  have "\<exists>peer m c n p target. Accepted (peer, m, c) \<in> set events \<and> m n = Some p \<and> dials d = [target] \<and>
     (socks5_presents (rx c) n p target \<or> http_presents dec (rx c) n p target)"
    using assms(3)
  proof
    assume "run_socks5_server bound dial events = Inr conns"
    then have "conns = accept_loop (\<lambda>(peer, m, c). handle_connection (authenticate m) dial peer c) events"
      by (auto simp: run_socks5_server_def split: sum.splits)
    with socks5.accept_loop_dials [of r d dial events] fresh assms(4,5) show ?thesis by blast
  next
    assume "run_http_connect_server bound dec dial events = Inr conns"
    then have "conns = accept_loop (\<lambda>(peer, m, c). http_handle_connection dec (authenticate m) dial peer c) events"
      by (auto simp: run_http_connect_server_def split: sum.splits)
    with http.accept_loop_dials [of r d dec dial events] fresh assms(4,5) show ?thesis by blast
  qed
  then obtain peer m c n p target where c: "Accepted (peer, m, c) \<in> set events" "m n = Some p" "dials d = [target]"
    "socks5_presents (rx c) n p target \<or> http_presents dec (rx c) n p target" by blast
  from c(1) assms(2) obtain t where t: "serves st u t" "m = credentials t"
    unfolding while_serving_def by blast
  with c(2) bring_up_accounts [OF assms(1) t(1)] obtain row where
    "row \<in> set (socks_configs t)" "username row = n" "password row = p" by blast
  with c t show ?thesis by blast
qed

lemma demo_start:
  "\<exists>st u. bring_up 0 ''0.1.0'' (demo_config\<lparr>ci_mock_wg_container := True\<rparr>) (two_socks demo_os) = (Inr st, u) \<and>
     credentials u ''a'' = Some ''pa''"
proof -
  have dirs: "fs_dirs demo_os d = None" for d
    by (simp add: demo_os_def demo_app_def demo_wg_def demo_cred_def db_st.defs cred_st.defs wg_st.defs app_st.defs)
  show ?thesis
    by (simp add: bring_up_def or_quit_def start_wireguard_def start_credentials_def fill_secrets_def ensure_secret_def
        open_log_def run_file_op create_pool_def init_database_def ensure_unique_usernames_def unique_index_def initialize_def has_password_files_def
        load_or_generate_def load_from_db_def remember_def sync_host_port_def update_socks_def new_manager_def
        open_ports_def ensure_tcp_input_accept_def command_ok_def run_ignored_def succeeded_def is_worker_def dirs demo_config_def
        two_socks_def demo_sock_def Let_def seq_simps run_simps)
qed

theorem proxies_dial_for_table_accounts_witness:
  "\<exists>st u r d t row. bring_up 0 ''0.1.0'' (demo_config\<lparr>ci_mock_wg_container := True\<rparr>) (two_socks demo_os) = (Inr st, u) \<and>
     run_socks5_server (Inr ()) (\<lambda>_. Connected) [Accepted (''peer'', credentials u, demo_socks5_client ''a'' ''pa'')] = Inr [(r, d)] \<and>
     serves st u t \<and> row \<in> set (socks_configs t) \<and> length (dials d) = 1"
proof -
  obtain st u where u: "bring_up 0 ''0.1.0'' (demo_config\<lparr>ci_mock_wg_container := True\<rparr>) (two_socks demo_os) = (Inr st, u)"
    "credentials u ''a'' = Some ''pa''" using demo_start by blast
  let ?c = "demo_socks5_client ''a'' ''pa''"
  let ?events = "[Accepted (''peer'', credentials u, ?c)]"
  have c: "socks5_client ''a'' ''pa'' (V4 (Ipv4 192 0 2 7)) 443 ?c" "dials ?c = []"
    using demo_socks5_client_ok [of "''a''" "''pa''"] by (simp_all add: ascii_def)
  obtain r d where d: "handle_connection (authenticate (credentials u)) (\<lambda>_. Connected) ''peer'' ?c = (r, d)" "dials d \<noteq> []"
    using socks5_client_served [where accounts = "credentials u" and dial = "\<lambda>_. Connected" and peer = "''peer''", OF c(1) u(2)] by fastforce
  have w: "while_serving st u ?events" using c(2) serves.up by (fastforce simp: while_serving_def)
  have run: "run_socks5_server (Inr ()) (\<lambda>_. Connected) ?events = Inr [(r, d)]" using d(1) by (simp add: run_socks5_server_def)
  obtain peer e t row target where "serves st u t" "row \<in> set (socks_configs t)" "dials d = [target]"
    using proxies_dial_for_table_accounts [where dec = "\<lambda>_. Inr []", OF u(1) w disjI1 [OF run] _ d(2), of r] by auto
  then show ?thesis using u(1) run by (intro exI conjI) (assumption | simp)+
qed

subsection \<open>A leased account is served\<close>

text \<open>The passwords in the table never change while the worker serves.\<close>

interpretation leased: worker_invariant "\<lambda>s. accounts_ready s \<and> sock_password (socks_configs s) = m" for m
proof unfold_locales
  show "wg_blind (\<lambda>s. accounts_ready s \<and> sock_password (socks_configs s) = m)"
    by (simp add: wg_blind_def env_blind_def accounts_ready_def socks_ok_def synced_def)
next
  fix s :: "'a os_st_scheme" and g
  assume "accounts_ready s \<and> sock_password (socks_configs s) = m" "sock_keys_kept g"
  then show "accounts_ready (update_socks g s) \<and> sock_password (socks_configs (update_socks g s)) = m"
    using ready.socks_table [of s g] by (simp add: sock_keys_keptD)
next
  fix s :: "'a os_st_scheme" assume "accounts_ready s \<and> sock_password (socks_configs s) = m"
  then show "accounts_ready (s\<lparr>credentials := fold (\<lambda>c m. m(username c \<mapsto> password c)) (socks_configs s) Map.empty\<rparr>) \<and>
      sock_password (socks_configs (s\<lparr>credentials := fold (\<lambda>c m. m(username c \<mapsto> password c)) (socks_configs s) Map.empty\<rparr>)) = m"
    using ready.reload [of s] by simp
qed (simp_all add: env_blind_def accounts_ready_def socks_ok_def synced_def update_wg_def insert_reg_def)


lemma serving_os_ready: "accounts_ready serving_os"
  using serving_os_ok by (simp add: serving_ok_def accounts_ready_def)


end
