(* ===== verification/Worker_Leases.thy ===== *)
theory Worker_Leases
  imports Worker_Start
begin

text \<open>
  WireGuard leases while the worker serves: the peer of a lease stays in the map of active peers, with
  the keys of its row, until the lease has expired. The property relates rows and peers and depends
  on the clock, so it is proved for the operations on the lease table one by one and handed to the
  locale \<open>steps_invariant\<close> for the rest of the worker.
\<close>

subsection \<open>Leases in force and their peers\<close>

text \<open>No reading of the clock so far has reached the expiry time.\<close>

definition in_force :: "'z env_st_scheme \<Rightarrow> int \<Rightarrow> bool" where
  "in_force s e \<longleftrightarrow> (\<forall>n < clock_pos s. clock s n < e)"

definition wg_sane :: "'z env_st_scheme \<Rightarrow> bool" where
  "wg_sane s \<longleftrightarrow> mono (clock s) \<and> wg_ext_ok (ext s) \<and> (\<forall>n. length (rand_bytes s n) = 32)"

definition slots_ok :: "wg_row list \<Rightarrow> bool" where
  "slots_ok rows \<longleftrightarrow> distinct (map wg_id rows) \<and> (\<forall>r \<in> set rows. 0 \<le> wg_id r \<and> wg_id r < 65536)"

definition connected :: "wg_server \<Rightarrow> 'z wg_st_scheme \<Rightarrow> bool" where
  "connected srv s \<longleftrightarrow>
     (\<forall>r \<in> set (wg_configs s). \<forall>k. wg_public_key r = Some k \<and> in_force s (wg_expires_at r) \<longrightarrow>
        peers s (as_u16 (wg_id r)) = Some (row_state srv r k))"

definition lease_inv :: "wg_server \<Rightarrow> 'z wg_st_scheme \<Rightarrow> bool" where
  "lease_inv srv s \<longleftrightarrow> wg_sane s \<and> slots_ok (wg_configs s) \<and> connected srv s"

lemma in_force_later: "in_force t e \<Longrightarrow> clock t = clock s \<Longrightarrow> clock_pos s \<le> clock_pos t \<Longrightarrow> in_force s e"
  by (simp add: in_force_def)

lemma lease_inv_env [simp]: "env_blind (lease_inv srv)"
  by (auto simp: env_blind_def lease_inv_def wg_sane_def connected_def in_force_def)

text \<open>The slot of a peer belongs to one row.\<close>

lemma same_slot:
  "slots_ok rows \<Longrightarrow> r \<in> set rows \<Longrightarrow> 0 \<le> i \<Longrightarrow> i < 65536 \<Longrightarrow> as_u16 (wg_id r) = as_u16 i \<longleftrightarrow> wg_id r = i"
  using as_u16_inject [of "wg_id r" i] by (auto simp: slots_ok_def)

text \<open>How the rows may change: a row that has keys and is in force was there before, with the same peer.\<close>

lemma lease_inv_rows:
  assumes "lease_inv srv s" and "slots_ok rows"
    and "\<And>r k. r \<in> set rows \<Longrightarrow> wg_public_key r = Some k \<Longrightarrow> in_force s (wg_expires_at r) \<Longrightarrow>
      \<exists>q \<in> set (wg_configs s). wg_id q = wg_id r \<and> wg_public_key q = Some k \<and> in_force s (wg_expires_at q) \<and>
        row_state srv q k = row_state srv r k"
  shows "lease_inv srv (s\<lparr>wg_configs := rows\<rparr>)"
proof -
  have "connected srv (s\<lparr>wg_configs := rows\<rparr>)"
    unfolding connected_def
  proof (intro ballI allI impI, elim conjE)
    fix r k assume "r \<in> set (wg_configs (s\<lparr>wg_configs := rows\<rparr>))" "wg_public_key r = Some k"
      "in_force (s\<lparr>wg_configs := rows\<rparr>) (wg_expires_at r)"
    then obtain q where q: "q \<in> set (wg_configs s)" "wg_id q = wg_id r" "wg_public_key q = Some k" "in_force s (wg_expires_at q)"
      "row_state srv q k = row_state srv r k"
      using assms(3) [of r k] by (auto simp: in_force_def)
    with assms(1) show "peers (s\<lparr>wg_configs := rows\<rparr>) (as_u16 (wg_id r)) = Some (row_state srv r k)"
      by (fastforce simp: lease_inv_def connected_def)
  qed
  with assms(1,2) show ?thesis by (simp add: lease_inv_def wg_sane_def)
qed

lemma lease_inv_later:
  assumes "lease_inv srv s" and "wg_configs t = wg_configs s" and "peers t = peers s" and "ext t = ext s"
    and "clock t = clock s" and "rand_bytes t = rand_bytes s" and "clock_pos s \<le> clock_pos t"
  shows "lease_inv srv t"
  using assms by (auto simp: lease_inv_def wg_sane_def connected_def in_force_def)

lemma slots_ok_filter: "slots_ok rows \<Longrightarrow> slots_ok (filter P rows)"
  by (simp add: slots_ok_def distinct_filter_ids)

lemma lease_inv_filter: "lease_inv srv s \<Longrightarrow> lease_inv srv (update_wg (filter P) s)"
  unfolding update_wg_def
  by (rule lease_inv_rows) (auto simp: lease_inv_def intro: slots_ok_filter)

lemma lease_inv_delete:
  "lease_inv srv s \<Longrightarrow> lease_inv srv (update_wg (delete_expired n) s)"
  "lease_inv srv s \<Longrightarrow> lease_inv srv (update_wg (delete_lease i e) s)"
  using lease_inv_filter [of srv s] by (simp_all add: delete_expired_def [abs_def] delete_lease_def [abs_def])

text \<open>A row for a free id has no keys yet.\<close>

lemma slots_ok_upsert: "slots_ok rows \<Longrightarrow> 0 \<le> i \<Longrightarrow> i < 65536 \<Longrightarrow> slots_ok (upsert_lease i e u rows)"
  using distinct_upsert [of rows i e u] by (auto simp: slots_ok_def upsert_lease_def)

lemma lease_inv_upsert:
  assumes "lease_inv srv s" and "i \<notin> set (map wg_id (wg_configs s))" and "0 \<le> i" and "i < 65536"
  shows "lease_inv srv (update_wg (upsert_lease i e u) s)"
  unfolding update_wg_def
  using assms by (intro lease_inv_rows slots_ok_upsert) (auto simp: lease_inv_def upsert_lease_def)

text \<open>What an operation on the interface does: the rows stay, one slot may change.\<close>

definition one_slot :: "u16 \<Rightarrow> 'z wg_st_scheme \<Rightarrow> 'z wg_st_scheme \<Rightarrow> bool" where
  "one_slot p s t \<longleftrightarrow>
     wg_configs t = wg_configs s \<and> ext t = ext s \<and> clock t = clock s \<and> rand_bytes t = rand_bytes s \<and>
     clock_pos s \<le> clock_pos t \<and> (\<forall>q. q \<noteq> p \<longrightarrow> peers t q = peers s q)"

lemma lease_inv_one_slot:
  assumes "lease_inv srv s" and "one_slot p s t"
    and "\<And>r k. r \<in> set (wg_configs s) \<Longrightarrow> wg_public_key r = Some k \<Longrightarrow> as_u16 (wg_id r) = p \<Longrightarrow> \<not> in_force s (wg_expires_at r)"
  shows "lease_inv srv t"
proof -
  have "connected srv t"
    unfolding connected_def
  proof (intro ballI allI impI, elim conjE)
    fix r k assume r: "r \<in> set (wg_configs t)" "wg_public_key r = Some k" "in_force t (wg_expires_at r)"
    then have "in_force s (wg_expires_at r)" "r \<in> set (wg_configs s)"
      using assms(2) by (auto simp: one_slot_def in_force_def)
    with r assms show "peers t (as_u16 (wg_id r)) = Some (row_state srv r k)"
      by (fastforce simp: lease_inv_def connected_def one_slot_def)
  qed
  with assms(1,2) show ?thesis by (simp add: lease_inv_def wg_sane_def one_slot_def)
qed

subsection \<open>Operations on the interface\<close>

lemma iface_frame [simp]:
  "wg_blind (\<lambda>t. wg_configs t = c \<and> ext t = x \<and> clock t = f \<and> rand_bytes t = b \<and> n \<le> clock_pos t)"
  by (simp add: wg_blind_def env_blind_def)

lemma add_peer_one_slot: "one_slot p s (snd (add_peer w p s))"
proof -
  obtain r t where add: "add_peer w p s = (r, t)" by fastforce
  have "\<forall>q. q \<noteq> p \<longrightarrow> peers t q = peers s q" using add_peer_peers [OF add] by (auto split: sum.splits)
  then show ?thesis
    using keepsD [OF keeps_add_peer [OF iface_frame, of "wg_configs s" "ext s" "clock s" "rand_bytes s" "clock_pos s"], of s w p] add
    by (simp add: one_slot_def)
qed

lemma remove_peer_one_slot: "one_slot p s (snd (remove_peer p s))"
  using keepsD [OF keeps_remove_peer [OF iface_frame, of "wg_configs s" "ext s" "clock s" "rand_bytes s" "clock_pos s"], of s p]
  by (simp add: one_slot_def remove_peer_forgets)

text \<open>A slot may change when its row has no keys yet (during an allocation) or has expired (during a clean-up).\<close>

definition spare :: "wg_server \<Rightarrow> int \<Rightarrow> 'z wg_st_scheme \<Rightarrow> bool" where
  "spare srv i s \<longleftrightarrow> lease_inv srv s \<and> 0 \<le> i \<and> i < 65536 \<and>
     (\<forall>r \<in> set (wg_configs s). wg_id r = i \<longrightarrow> wg_public_key r = None \<or> \<not> in_force s (wg_expires_at r))"

lemma env_blind_spare [simp]: "env_blind (spare srv i)"
  by (auto simp: env_blind_def spare_def env_blindD [OF lease_inv_env]) (auto simp: in_force_def)

lemma spare_one_slot:
  assumes "spare srv i s" and "spare srv j s" and "one_slot (as_u16 i) s t"
  shows "spare srv j t"
proof -
  have "slots_ok (wg_configs s)" using assms(1) by (simp add: spare_def lease_inv_def)
  then have "lease_inv srv t"
    using assms same_slot by (intro lease_inv_one_slot [OF _ assms(3)]) (fastforce simp: spare_def)+
  with assms(2,3) show ?thesis by (fastforce simp: spare_def one_slot_def in_force_def)
qed

lemma spare_steps:
  "keeps (spare srv i) (add_peer w (as_u16 i))" "keeps (spare srv i) (remove_peer (as_u16 i))"
  "keeps (spare srv i) (mark_config_as_free i e)"
proof -
  show "keeps (spare srv i) (add_peer w (as_u16 i))" "keeps (spare srv i) (remove_peer (as_u16 i))"
    by (auto intro!: keepsI intro: spare_one_slot add_peer_one_slot remove_peer_one_slot)
  have "spare srv i s \<Longrightarrow> spare srv i (update_wg (delete_lease i e) s)" for s :: "'z wg_st_scheme"
    by (auto simp: spare_def lease_inv_delete) (auto simp: update_wg_def delete_lease_def in_force_def)
  then show "keeps (spare srv i) (mark_config_as_free i e :: ('z, unit) wg_op)"
    unfolding mark_config_as_free_def by (intro keeps_rules) simp_all
qed

subsection \<open>Registration\<close>

lemma first_free_new: "first_free 1 (uint (m :: u16)) rows = Some i \<Longrightarrow> i \<notin> set (map wg_id rows) \<and> 0 \<le> i \<and> i < 65536"
  using uint_lt2p [of m] by (auto simp: first_free_Some)

lemma keeps_try_allocate: "keeps (lease_inv srv) (try_allocate 1 (uint (m :: u16)) e)"
proof (rule keepsI)
  fix s :: "'a wg_st_scheme" assume inv: "lease_inv srv s"
  have up: "lease_inv srv (update_wg (upsert_lease i e u) t)"
    if "lease_inv srv t" "first_free 1 (uint m) (wg_configs t) = Some i" for t :: "'a wg_st_scheme" and i u
    using that first_free_new lease_inv_upsert by blast
  show "lease_inv srv (snd (try_allocate 1 (uint m) e s))"
    using inv up
    by (auto simp: try_allocate_def sql_def Let_def seq_simps run_simps env_blindD [OF lease_inv_env] split: option.split)
qed

lemma leases_register: "keeps (lease_inv srv) (register_wireguard_lease 1 (uint (m :: u16)) e)"
  unfolding register_wireguard_lease_def register_unlocked_def cleanup_expired_wireguard_configs_def
  by (intro keeps_rules keeps_try_allocate lease_inv_env) (simp_all add: lease_inv_delete)

lemma register_spare:
  assumes "register_wireguard_lease 1 (uint (m :: u16)) e s = (Inr l, t)" and "lease_inv srv s"
  shows "spare srv (peer_id l) t"
proof -
  obtain rows i u where r: "first_free 1 (uint m) rows = Some i" "peer_id l = i" "wg_configs t = upsert_lease i e u rows"
    using register_Inr [OF assms(1)] by auto
  have "lease_inv srv t" using keepsD [OF leases_register assms(2), of m e] assms(1) by simp
  with first_free_new [OF r(1)] r(2,3) show ?thesis by (auto simp: spare_def upsert_lease_def) (metis imageI)
qed

subsection \<open>Allocation\<close>

text \<open>The keys that are stored are the ones of the peer.\<close>

lemma set_peer_keys_state:
  assumes "wg_id r = i"
  shows "row_state srv (r\<lparr>wg_private_key := Some (ext_b64_encode x secret), wg_public_key := Some k,
     wg_preshared_key := Some (ext_b64_encode x psk), wg_allowed_ip := Some (show_ipv4 (peer_ip srv (as_u16 i)))\<rparr>)
     (ext_b64_encode x (ext_x25519_public x secret)) = fresh_state x srv (as_u16 i) secret psk"
  using assms by (simp add: row_state_def row_ip_def fresh_state_def Let_def)

text \<open>What an allocation leaves as it was, besides rows and peers.\<close>

definition same_env :: "'z env_st_scheme \<Rightarrow> 'z env_st_scheme \<Rightarrow> bool" where
  "same_env s t \<longleftrightarrow> ext t = ext s \<and> clock t = clock s \<and> rand_bytes t = rand_bytes s \<and> clock_pos s \<le> clock_pos t"

interpretation same_env: table_invariant "same_env s" for s :: "'z wg_st_scheme"
  by unfold_locales (simp_all add: wg_blind_def env_blind_def same_env_def update_wg_def update_socks_def)

lemma allocated_inv:
  assumes "allocate_peer srv 1 (uint (m :: u16)) e s = (Inr al, t)" and "lease_inv srv s"
  shows "lease_inv srv t"
proof (rule allocate_peer_Inr [OF assms(1)])
  have env: "same_env s t"
    using keepsD [OF same_env.keeps_allocate, of s s srv 1 "uint m" e] assms(1) by (simp add: same_env_def)
  show "wg_ext_ok (ext s)" "\<forall>n. length (rand_bytes s n) = 32" using assms(2) by (simp_all add: lease_inv_def wg_sane_def)
  fix rows i u secret psk addr
  let ?priv = "ext_b64_encode (ext s) secret" and ?pub = "ext_b64_encode (ext s) (ext_x25519_public (ext s) secret)"
    and ?psk = "ext_b64_encode (ext s) psk" and ?ip = "show_ipv4 (peer_ip srv (as_u16 i))"
  assume rows: "rows = wg_configs s \<or> rows = delete_expired (clock s (clock_pos s)) (wg_configs s)"
    and i: "first_free 1 (uint m) rows = Some i"
    and t: "wg_configs t = set_peer_keys i ?priv ?pub ?psk ?ip (upsert_lease i e u rows)"
      "peers t = (peers s)(as_u16 i \<mapsto> fresh_state (ext s) srv (as_u16 i) secret psk)"
  have sub: "set rows \<subseteq> set (wg_configs s)" and slots: "slots_ok rows"
    using rows assms(2) slots_ok_filter by (auto simp: delete_expired_def lease_inv_def)
  note new = first_free_new [OF i]
  have "connected srv t"
    unfolding connected_def
  proof (intro ballI allI impI, elim conjE)
    fix r k assume r: "r \<in> set (wg_configs t)" "wg_public_key r = Some k" "in_force t (wg_expires_at r)"
    show "peers t (as_u16 (wg_id r)) = Some (row_state srv r k)"
    proof (cases "wg_id r = i")
      case True
      with r(1) obtain q where "wg_id q = i" "r = q\<lparr>wg_private_key := Some ?priv, wg_public_key := Some ?pub,
          wg_preshared_key := Some ?psk, wg_allowed_ip := Some ?ip\<rparr>"
        by (auto simp: t set_peer_keys_def split: if_splits)
      with r(2) t(2) set_peer_keys_state [where r = q and i = i and srv = srv and x = "ext s" and secret = secret and psk = psk and k = ?pub] show ?thesis by simp
    next
      case False
      with r(1) new have q: "r \<in> set rows" by (auto simp: t set_peer_keys_def upsert_lease_def split: if_splits)
      moreover have "in_force s (wg_expires_at r)" using r(3) env by (auto simp: in_force_def same_env_def)
      ultimately have "peers s (as_u16 (wg_id r)) = Some (row_state srv r k)"
        using assms(2) r(2) sub by (auto simp: lease_inv_def connected_def)
      then show ?thesis using same_slot [OF slots q] new False by (simp add: t(2))
    qed
  qed
  moreover have "slots_ok (wg_configs t)"
    using slots_ok_upsert [OF slots, of i e u] new
    by (auto simp: t set_peer_keys_def slots_ok_def comp_def if_distrib [of wg_id] cong: if_cong)
  ultimately show ?thesis using assms(2) env by (simp add: lease_inv_def wg_sane_def same_env_def)
qed

lemma store_peer_keys_spare:
  "store_peer_keys i a b c s = (Inl y, t) \<Longrightarrow> spare srv j s \<Longrightarrow> spare srv j t"
  by (auto simp: store_peer_keys_def inv_simps env_blindD [OF env_blind_spare] split: sum.splits)

lemma allocate_fails_inv:
  assumes "register_wireguard_lease a b e s = (Inr l, s1)" and "spare srv (peer_id l) s1"
    and "allocate_peer srv a b e s = (Inl x, t)"
  shows "lease_inv srv t"
proof -
  let ?i = "peer_id l"
  note run = allocate_peer_def Let_def and_then_def run_attempt run_err run_ok
  obtain ra s2 where add: "add_peer srv (as_u16 ?i) s1 = (ra, s2)" by fastforce
  have s2: "spare srv ?i s2" using keepsD [OF spare_steps(1) assms(2), of srv] add by simp
  have "spare srv ?i t"
  proof (cases ra)
    case (Inl y)
    then have "t = snd (mark_config_as_free ?i (Some e) s2)"
      using assms(1,3) add by (simp add: run split: prod.splits)
    then show ?thesis using keepsD [OF spare_steps(3) s2] by simp
  next
    case c: (Inr c)
    obtain rs s3 where st: "store_peer_keys ?i (pc_client_private_key c) (pc_preshared_key c) (pc_client_address c) s2 = (rs, s3)"
      by fastforce
    obtain y where rs: "rs = Inl y" using assms(1,3) add c st by (cases rs) (simp_all add: run)
    then have "t = snd (mark_config_as_free ?i (Some e) (snd (remove_peer (as_u16 ?i) s3)))"
      using assms(1,3) add c st by (simp add: run split: prod.splits)
    then show ?thesis
      using keepsD [OF spare_steps(3) keepsD [OF spare_steps(2) store_peer_keys_spare [OF st [unfolded rs] s2]]] by simp
  qed
  then show ?thesis by (simp add: spare_def)
qed

lemma leases_allocate: "keeps (lease_inv srv) (allocate_peer srv 1 (uint (m :: u16)) e)"
proof (rule keepsI)
  fix s :: "'a wg_st_scheme" assume inv: "lease_inv srv s"
  obtain r t where run: "allocate_peer srv 1 (uint m) e s = (r, t)" by fastforce
  obtain rl s1 where reg: "register_wireguard_lease 1 (uint m) e s = (rl, s1)" by fastforce
  have "lease_inv srv t"
  proof (cases r)
    case (Inr al)
    with run allocated_inv inv show ?thesis by blast
  next
    case x: (Inl x)
    show ?thesis
    proof (cases rl)
      case (Inl y)
      with keepsD [OF leases_register inv, of m e] reg run show ?thesis by (simp add: allocate_peer_def run_and_then)
    next
      case (Inr l)
      show ?thesis
        using allocate_fails_inv [OF reg [unfolded Inr] register_spare [OF reg [unfolded Inr] inv] run [unfolded x]] .
    qed
  qed
  with run show "lease_inv srv (snd (allocate_peer srv 1 (uint m) e s))" by simp
qed

subsection \<open>Extension and clean-up\<close>

text \<open>A lease that can be extended is in force: the clock never goes back.\<close>

lemma in_force_now: "mono (clock s) \<Longrightarrow> clock s (clock_pos s) < e \<Longrightarrow> in_force s e"
  by (auto simp: in_force_def dest: monoD less_imp_le)

lemma row_state_expiry: "row_state srv (r\<lparr>wg_expires_at := n, wg_updated_at := u\<rparr>) k = row_state srv r k"
  by (cases "wg_allowed_ip r") (simp_all add: row_state_def row_ip_def Let_def)

lemma leases_extend: "keeps (lease_inv srv) (extend_wireguard_lease i x n)"
proof (rule keepsI)
  fix s :: "'a wg_st_scheme" assume inv: "lease_inv srv s"
  let ?now = "clock s (clock_pos s)"
  have slots: "slots_ok (extend_rows i x n ?now u rows)" if "slots_ok rows" for u rows
    unfolding slots_ok_def map_id_extend using that by (auto simp: slots_ok_def extend_rows_def)
  have ext: "lease_inv srv (s\<lparr>wg_configs := extend_rows i x n ?now u (wg_configs s)\<rparr>)" for u
  proof (rule lease_inv_rows [OF inv slots])
    fix r k assume r: "r \<in> set (extend_rows i x n ?now u (wg_configs s))" "wg_public_key r = Some k" "in_force s (wg_expires_at r)"
    then obtain q where q: "q \<in> set (wg_configs s)" "r = q \<or> ?now < wg_expires_at q \<and> r = q\<lparr>wg_expires_at := n, wg_updated_at := u\<rparr>"
      by (auto simp: extend_rows_def split: if_splits)
    have "in_force s (wg_expires_at q)"
      using q(2) r(3) inv by (auto simp: lease_inv_def wg_sane_def intro: in_force_now)
    with q r(2) show "\<exists>q \<in> set (wg_configs s). wg_id q = wg_id r \<and> wg_public_key q = Some k \<and> in_force s (wg_expires_at q) \<and>
        row_state srv q k = row_state srv r k"
      by (intro bexI [of _ q]) (auto simp: row_state_expiry)
  qed (use inv in \<open>simp add: lease_inv_def\<close>)
  let ?t = "snd (extend_wireguard_lease i x n s)"
  let ?u = "ext_rfc3339 (ext s) (Suc (clock_pos s))"
  have "wg_configs ?t = wg_configs s \<or> wg_configs ?t = extend_rows i x n ?now ?u (wg_configs s)"
    and "same_env s ?t" and "peers ?t = peers s"
    by (cases "db_fault s (db_pos s)";
        simp add: extend_wireguard_lease_def run_simps seq_simps same_env_def update_wg_def)+
  then show "lease_inv srv ?t"
    using inv ext [of ?u] lease_inv_later [of srv s ?t] lease_inv_later [of srv "s\<lparr>wg_configs := wg_configs ?t\<rparr>" ?t]
    by (auto simp: same_env_def)
qed

lemma keeps_remove_peers:
  assumes "\<forall>i \<in> set ids. spare srv i s" and "lease_inv srv s"
  shows "lease_inv srv (snd (remove_peers ids s))"
  using assms
proof (induction ids arbitrary: s)
  case Nil
  then show ?case by (simp add: remove_peers_def run_ok)
next
  case (Cons i ids)
  let ?s = "snd (remove_peer (as_u16 i) s)"
  have "spare srv j ?s" if "j \<in> set (i # ids)" for j
    using spare_one_slot [OF _ _ remove_peer_one_slot] Cons.prems(1) that by auto
  moreover have "lease_inv srv ?s" using calculation [of i] by (simp add: spare_def)
  ultimately show ?case using Cons.IH [of ?s] by (simp add: remove_peers_def run_and_then run_attempt run_ok)
qed

lemma keeps_expired_ids: "keeps (lease_inv srv) expired_peer_ids"
  unfolding expired_peer_ids_def by (intro keeps_rules lease_inv_env) simp

lemma listed_expired:
  assumes "expired_peer_ids s = (Inr ids, t)" and "lease_inv srv s" and "i \<in> set ids"
  shows "spare srv i t"
proof -
  have inv: "lease_inv srv t" using keepsD [OF keeps_expired_ids assms(2)] assms(1) by simp
  obtain now where now: "now = clock t (clock_pos s)" "clock_pos s < clock_pos t" "wg_configs t = wg_configs s"
    and ids: "ids = map wg_id (filter (\<lambda>r. wg_expires_at r < now) (wg_configs s))"
    using assms(1) by (auto simp: expired_peer_ids_def inv_simps run_simps)
  then obtain q where q: "q \<in> set (wg_configs t)" "wg_id q = i" "wg_expires_at q < now"
    using assms(3) by auto
  have rows: "slots_ok (wg_configs t)" using inv by (simp add: lease_inv_def)
  then have inj: "inj_on wg_id (set (wg_configs t))" and range: "0 \<le> i" "i < 65536"
    using q(1,2) by (auto simp: slots_ok_def distinct_map)
  moreover have "\<not> in_force t (wg_expires_at q)" using q(3) now(1,2) by (auto simp: in_force_def)
  ultimately have "\<forall>r \<in> set (wg_configs t). wg_id r = i \<longrightarrow> \<not> in_force t (wg_expires_at r)"
    using q(1,2) by (metis inj_onD)
  with inv range show ?thesis by (simp add: spare_def)
qed

lemma keeps_remove_expired: "keeps (lease_inv srv) remove_expired_peers"
proof (rule keepsI)
  fix s :: "'a wg_st_scheme" assume inv: "lease_inv srv s"
  obtain r t where run: "expired_peer_ids s = (r, t)" by fastforce
  have t: "lease_inv srv t" using keepsD [OF keeps_expired_ids inv] run by simp
  show "lease_inv srv (snd (remove_expired_peers s))"
  proof (cases r)
    case (Inl x)
    with run t show ?thesis by (simp add: remove_expired_peers_def run_and_then run_attempt run_ok)
  next
    case (Inr ids)
    with run keeps_remove_peers [of ids srv t] t listed_expired [OF run [unfolded Inr] inv] show ?thesis
      by (simp add: remove_expired_peers_def run_and_then run_attempt)
  qed
qed

lemma lease_inv_ts: "lease_inv srv s \<Longrightarrow> lease_inv srv (s\<lparr>ts_rows := rows\<rparr>)"
  by (erule lease_inv_later) simp_all

lemma leases_cleanup: "keeps (lease_inv srv) (database_cleanup cfg (w :: wg_server option))"
  unfolding database_cleanup_def cleanup_timestamps_def cleanup_leases_def
  by (intro keeps_rules lease_inv_env keeps_remove_expired) (simp_all add: lease_inv_delete lease_inv_ts)

lemma leases_shutdown: "keeps (lease_inv srv) shutdown"
  by (auto simp: keeps_def shutdown_def wg_api_def Let_def intro: lease_inv_later split: option.split)

subsection \<open>Where the worker starts\<close>

text \<open>
  A restart leads to a state with the invariant when the interface takes every peer: \<open>restore_peers\<close> skips
  the peers it refuses. The keys of the rows are those of earlier allocations.
\<close>

definition stored_keys :: "externals \<Rightarrow> wg_server \<Rightarrow> wg_row \<Rightarrow> string \<Rightarrow> bool" where
  "stored_keys x srv r k \<longleftrightarrow>
     wg_private_key r \<noteq> None \<and> (\<exists>a. ext_ip_mask x (row_ip srv r) = Inr a) \<and>
     (\<exists>pub psk. length pub = 32 \<and> length psk = 32 \<and> k = ext_b64_encode x pub \<and>
        wg_preshared_key r = Some (ext_b64_encode x psk))"

lemma restored_inv:
  assumes "wg_sane s" and "slots_ok (wg_configs s)" and "\<forall>n. wg_fault s n = None" and "db_fault s (db_pos s) = None"
    and "\<forall>r \<in> set (wg_configs s). \<forall>k. wg_public_key r = Some k \<longrightarrow> stored_keys (ext s) srv r k"
  shows "lease_inv srv (snd (restore_peers srv s))"
proof -
  let ?now = "clock s (clock_pos s)" and ?w = "s\<lparr>clock_pos := Suc (clock_pos s), db_pos := Suc (db_pos s)\<rparr>"
  let ?rs = "restorable ?now (wg_configs s)" and ?t = "snd (restore_peers srv s)"
  have run: "?t = snd (restore_rows srv ?rs ?w)"
    using assms(4) by (simp add: restore_peers_def seq_simps run_simps)
  have frame: "wg_configs ?t = wg_configs s" "ext ?t = ext s" "clock ?t = clock s" "rand_bytes ?t = rand_bytes s"
    "clock_pos s < clock_pos ?t"
    using keepsD [OF keeps_restore_rows [OF iface_frame, of "wg_configs s" "ext s" "clock s" "rand_bytes s" "Suc (clock_pos s)"],
        of ?w srv ?rs]
    by (simp_all add: run)
  have "distinct (map (\<lambda>r. as_u16 (wg_id r)) ?rs)"
    using assms(2) by (intro restorable_slots) (simp_all add: slots_ok_def)
  note hit = restore_rows_hits [OF this, where s = ?w and srv = srv]
  have "connected srv ?t"
    unfolding connected_def
  proof (intro ballI allI impI, elim conjE)
    fix r k assume r: "r \<in> set (wg_configs ?t)" "wg_public_key r = Some k" "in_force ?t (wg_expires_at r)"
    then have "stored_keys (ext s) srv r k" using assms(5) frame(1) by auto
    then obtain a pub psk where k: "wg_private_key r \<noteq> None" "ext_ip_mask (ext s) (row_ip srv r) = Inr a"
      "length pub = 32" "length psk = 32" "k = ext_b64_encode (ext s) pub" "wg_preshared_key r = Some (ext_b64_encode (ext s) psk)"
      by (auto simp: stored_keys_def)
    have "r \<in> set ?rs"
      using r k(1) frame by (auto simp: restorable_def in_force_def)
    from hit [OF this, of pub psk a] r(2) k assms(1,3) show "peers ?t (as_u16 (wg_id r)) = Some (row_state srv r k)"
      by (auto simp: run wg_sane_def)
  qed
  with assms(1,2) frame show ?thesis by (simp add: lease_inv_def wg_sane_def)
qed

subsection \<open>The leases of the running worker\<close>

text \<open>A worker without a server has no leases to look after.\<close>

definition leases_ok :: "app_state \<Rightarrow> 'z os_st_scheme \<Rightarrow> bool" where
  "leases_ok st s \<longleftrightarrow> (\<forall>srv. as_wg_server st = Some srv \<longrightarrow> lease_inv srv s)"

lemma leases_keeps:
  assumes "\<And>srv. as_wg_server st = Some srv \<Longrightarrow> keeps (lease_inv srv) m"
  shows "keeps (leases_ok st) m"
  using assms by (simp add: keeps_def leases_ok_def)

lemma leases_later:
  "leases_ok st s \<Longrightarrow> wg_configs t = wg_configs s \<Longrightarrow> peers t = peers s \<Longrightarrow> ext t = ext s \<Longrightarrow> clock t = clock s \<Longrightarrow>
   rand_bytes t = rand_bytes s \<Longrightarrow> clock_pos t = clock_pos s \<Longrightarrow> leases_ok st t"
  by (auto simp: leases_ok_def intro: lease_inv_later)

lemma leases_env: "env_blind (leases_ok st)"
  by (auto simp: env_blind_def leases_ok_def env_blindD [OF lease_inv_env])

interpretation leases: steps_invariant "leases_ok st :: 'z os_st_scheme \<Rightarrow> bool" st for st
proof unfold_locales
  show "env_blind (leases_ok st :: 'z os_st_scheme \<Rightarrow> bool)" by (rule leases_env)
next
  fix m :: u16 and e
  show "keeps (leases_ok st) (register_wireguard_lease 1 (uint m) e :: ('z, _) os_op)"
    by (intro leases_keeps leases_register)
next
  fix m :: u16 and e w assume "as_wg_server st = Some w"
  then show "keeps (leases_ok st) (allocate_peer w 1 (uint m) e :: ('z, _) os_op)"
    by (intro leases_keeps) (simp add: leases_allocate)
qed (auto intro!: leases_keeps leases_extend leases_cleanup leases_shutdown intro: leases_later simp: update_socks_def insert_reg_def)


definition leased_row :: wg_row where
  "leased_row = (demo_row 7 5000)\<lparr>wg_private_key := Some ''priv'', wg_public_key := Some ''pub'', wg_preshared_key := Some ''psk''\<rparr>"

definition leased_os :: os_st where
  "leased_os = demo_os\<lparr>wg_configs := [leased_row], peers := [7 \<mapsto> row_state demo_server leased_row ''pub'']\<rparr>"


end
