(* ===== verification/Worker_Main.thy ===== *)
theory Worker_Main
  imports Worker_Start
begin

text \<open>
  \<open>main\<close> of \<open>src/src/main.rs\<close> from the first line to the moment the server listens: how the process can
  end before that, and the task that registers the worker in the background. The calculus
  \<open>ends_in\<close> follows the exit code through a sequence of operations; the locale \<open>os_invariant\<close>,
  interpreted on the exit code, says that no component ends the process on its own.
\<close>

subsection \<open>The whole start\<close>

text \<open>\<open>bind\<close> says whether the port can be bound; if it cannot, \<open>expect\<close> panics. The result is the text that the
  subcommand \<open>config\<close> prints, or the state that the server shares.\<close>

definition worker_main ::
    "dotenv \<Rightarrow> ((string \<rightharpoonup> string) \<Rightarrow> string list \<Rightarrow> int + config) \<Rightarrow> string list \<Rightarrow> nat \<Rightarrow> string \<Rightarrow>
     (u16 \<Rightarrow> string + unit) \<Rightarrow> ('z, string + app_state) os_op" where
  "worker_main dotenv clap args fuel pkg_version bind =
     and_then (main_prologue dotenv clap args) (\<lambda>r.
     case r of
       Inl shown \<Rightarrow> ok (Inl shown)
     | Inr config \<Rightarrow>
         and_then (bring_up fuel pkg_version config) (\<lambda>st.
         case bind (server_port (as_config st)) of Inl e \<Rightarrow> quit 101 | Inr _ \<Rightarrow> ok (Inr st)))"

subsection \<open>How operations end\<close>

named_theorems ends_rules "how a sequence of operations ends"

definition ends_in :: "int set \<Rightarrow> ('z, 'a) os_op \<Rightarrow> bool" where
  "ends_in codes m \<longleftrightarrow>
     (\<forall>s. exit_code s = None \<longrightarrow>
        (case m s of (Inr x, t) \<Rightarrow> exit_code t = None | (Inl e, t) \<Rightarrow> exit_code t \<in> Some ` codes))"

definition alive :: "int option \<Rightarrow> 'z os_st_scheme \<Rightarrow> bool" where
  "alive c s \<longleftrightarrow> exit_code s = c"

interpretation life: os_invariant "alive c" for c
  by unfold_locales (simp_all add: wg_blind_def env_blind_def alive_def update_wg_def update_socks_def)

lemma ends_ok [ends_rules]: "ends_in codes (ok x)"
  by (simp add: ends_in_def run_simps)

lemma ends_gets [ends_rules]: "ends_in codes (gets f)"
  by (simp add: ends_in_def run_simps)

lemma ends_and_then [ends_rules]: "ends_in codes m \<Longrightarrow> (\<And>x. ends_in codes (k x)) \<Longrightarrow> ends_in codes (and_then m k)"
  unfolding ends_in_def by (fastforce simp: run_and_then split: prod.splits sum.splits)

lemma ends_quit [ends_rules]: "n \<in> codes \<Longrightarrow> ends_in codes (quit n)"
  by (simp add: ends_in_def quit_def exit_process_def seq_simps run_simps)

lemma ends_if [ends_rules]:
  "(b \<Longrightarrow> ends_in codes m) \<Longrightarrow> (\<not> b \<Longrightarrow> ends_in codes n) \<Longrightarrow> ends_in codes (if b then m else n)"
  by simp

lemma ends_case_sum [ends_rules]:
  "(\<And>e. z = Inl e \<Longrightarrow> ends_in codes (h e)) \<Longrightarrow> (\<And>x. z = Inr x \<Longrightarrow> ends_in codes (k x)) \<Longrightarrow>
   ends_in codes (case z of Inl e \<Rightarrow> h e | Inr x \<Rightarrow> k x)"
  by (simp split: sum.split)

lemma ends_case_option [ends_rules]:
  "ends_in codes m \<Longrightarrow> (\<And>x. ends_in codes (k x)) \<Longrightarrow> ends_in codes (case z of None \<Rightarrow> m | Some x \<Rightarrow> k x)"
  by (simp split: option.split)

lemma ends_case_prod [ends_rules]: "(\<And>x y. ends_in codes (k x y)) \<Longrightarrow> ends_in codes (case z of (x, y) \<Rightarrow> k x y)"
  by (simp split: prod.split)

lemma ends_for_each [ends_rules]: "(\<And>x. ends_in codes (f x)) \<Longrightarrow> ends_in codes (for_each f xs)"
  by (induction xs) (auto intro!: ends_rules)

text \<open>What neither fails nor touches the exit code, and what only reports its failures to the caller.\<close>

lemma ends_total:
  fixes m :: "('z, 'a) os_op"
  assumes "keeps (alive None) m" and "\<And>s e t. m s \<noteq> (Inl e, t)"
  shows "ends_in codes m"
proof (unfold ends_in_def, intro allI impI)
  fix s :: "'z os_st_scheme" assume "exit_code s = None"
  then have t: "exit_code (snd (m s)) = None" using keepsD [OF assms(1), of s] by (simp add: alive_def)
  obtain r t where "m s = (r, t)" by fastforce
  with t assms(2) [of s] show "case m s of (Inr x, t) \<Rightarrow> exit_code t = None | (Inl e, t) \<Rightarrow> exit_code t \<in> Some ` codes"
    by (cases r) auto
qed

lemma ends_attempt [ends_rules]: "keeps (alive None) m \<Longrightarrow> ends_in codes (attempt m)"
  by (rule ends_total) (auto intro: keeps_rules simp: run_attempt)

lemma ends_or_quit [ends_rules]: "keeps (alive None) m \<Longrightarrow> 1 \<in> codes \<Longrightarrow> ends_in codes (or_quit m)"
  unfolding or_quit_def by (intro ends_rules) simp_all

subsection \<open>Before the configuration is known\<close>

lemma ends_primitives [ends_rules]:
  "ends_in codes (run_command c)" "ends_in codes (path_exists p)" "ends_in codes (set_var k v)"
  "ends_in codes (write_file p x)" "ends_in codes (open_file p)" "ends_in codes (read_to_string p)"
  by (rule ends_total, (rule life.keeps_primitives),
      simp add: run_command_def path_exists_def set_var_def write_file_def leave_partial_def open_file_def
        read_to_string_def run_file_op seq_simps run_simps split: option.split)+

lemma ends_instant [ends_rules]: "ends_in codes instant_now"
  by (rule ends_total, rule life.keeps_primitives) (simp add: instant_now_def seq_simps run_simps)

lemma ends_prologue:
  assumes "1 \<in> codes" and "\<And>env code. clap env args = Inl code \<Longrightarrow> code \<in> codes"
  shows "ends_in codes (main_prologue dotenv clap args)"
  unfolding main_prologue_def ensure_config_dir_def ensure_env_file_def default_env_content_def detect_public_ip_def
    load_env_def fetch_remote_defaults_def handle_config_command_def Let_def
  by (intro ends_rules assms)

subsection \<open>Bringing the components up\<close>

lemma alive_init: "keeps (alive c) (init_database cfg)"
  unfolding init_database_def ensure_unique_usernames_def unique_index_def Let_def
  by (intro keeps_rules life.env) (simp_all add: alive_def drop_table_def update_socks_def)

lemma alive_new_server: "keeps (alive c) (new_server cfg)"
  unfolding new_server_def load_or_create_server_keys_def
  by (intro keeps_rules life.env life.blind) (simp_all add: alive_def)

lemma alive_initialize: "keeps (alive c) (initialize dir)"
  unfolding initialize_def has_password_files_def migrate_from_password_files_def read_dir_def load_or_generate_def
    load_from_db_def remember_def generate_credentials_def write_socks_def sync_host_port_def
  by (intro keeps_rules life.env) (simp_all add: alive_def update_socks_def upsert_sock_def, simp_all add: keeps_def alive_def run_simps)

lemma ends_reach_loop: "ends_in codes (reach_loop fuel srv started ms)"
  by (induction fuel) (auto simp: public_udp_reachable_def intro!: ends_rules)

lemma ends_start_wireguard: "1 \<in> codes \<Longrightarrow> ends_in codes (start_wireguard fuel cfg)"
  unfolding start_wireguard_def wait_for_public_udp_reachability_def
  by (intro ends_rules ends_reach_loop life.keeps_preflight life.keeps_start_server life.keeps_restore
      alive_new_server)

lemma ends_modify [ends_rules]: "(\<And>s. exit_code (f s) = exit_code s) \<Longrightarrow> ends_in codes (modify f)"
  by (simp add: ends_in_def run_simps)

lemma ends_start_credentials:
  assumes "101 \<in> codes"
  shows "ends_in codes (start_credentials cfg)"
proof -
  have "ends_in codes (case e of Panic m \<Rightarrow> quit 101 | _ \<Rightarrow> ok ())" for e :: init_error
    using assms by (cases e) (auto intro: ends_rules)
  then show ?thesis
    unfolding start_credentials_def
    by (intro ends_rules alive_initialize) (simp_all add: new_manager_def split: sum.split)
qed

lemma ends_draw_chars [ends_rules]: "ends_in codes (draw_chars f b n)"
  by (rule ends_total) (simp_all add: keeps_draw_chars life.env)

lemma ends_open_log: "101 \<in> codes \<Longrightarrow> ends_in codes open_log"
  unfolding open_log_def
  by (intro ends_rules ends_total life.keeps_file_op)
    (auto simp: alive_def run_file_op split: option.splits)

lemma ends_now [ends_rules]: "ends_in codes now_ms"
  by (simp add: ends_in_def run_simps)

lemma ends_open_ports: "ends_in codes (open_ports cfg)"
  unfolding open_ports_def ensure_tcp_input_accept_def command_ok_def run_ignored_def
  by (intro ends_rules)

lemma ends_bring_up:
  assumes "1 \<in> codes" and "101 \<in> codes"
  shows "ends_in codes (bring_up fuel version cfg)"
  unfolding bring_up_def fill_secrets_def ensure_secret_def
  by (intro ends_rules ends_open_log ends_start_wireguard ends_start_credentials ends_open_ports life.keeps_create_pool
      alive_init assms) simp_all

lemma ends_worker_main:
  assumes "1 \<in> codes" and "101 \<in> codes" and "\<And>env code. clap env args = Inl code \<Longrightarrow> code \<in> codes"
  shows "ends_in codes (worker_main dotenv clap args fuel version bind)"
  unfolding worker_main_def
  by (intro ends_rules ends_prologue ends_bring_up assms) (simp_all add: assms)

subsection \<open>What the server starts with\<close>

lemma draw_chars_length: "draw_chars f b n s = (Inr cs, t) \<Longrightarrow> length cs = n"
  by (induction n arbitrary: cs s t) (auto simp: inv_simps)

definition secret_for :: "string \<Rightarrow> string \<Rightarrow> bool" where
  "secret_for given used \<longleftrightarrow> (if given = [] then length used = 64 else used = given)"

lemma ensure_secret_Inr: "ensure_secret given s = (Inr used, t) \<Longrightarrow> secret_for given used"
  by (auto simp: ensure_secret_def secret_for_def inv_simps draw_chars_length split: if_splits)

lemma fill_secrets_Inr:
  "fill_secrets cfg s = (Inr c, t) \<Longrightarrow>
   \<exists>x y. c = cfg\<lparr>lease_token_secret := x, jwt_secret := y\<rparr> \<and> secret_for (lease_token_secret cfg) x \<and> secret_for (jwt_secret cfg) y"
  by (auto simp: fill_secrets_def inv_simps dest!: ensure_secret_Inr)

lemma start_wireguard_Inr:
  "start_wireguard fuel cfg s = (Inr srv, t) \<Longrightarrow> srv \<noteq> None \<longleftrightarrow> is_worker cfg \<and> \<not> ci_mock_wg_container cfg"
  by (auto simp: start_wireguard_def inv_simps split: if_splits)

lemma case_quit_Inr:
  "(case z of Inl e \<Rightarrow> quit (f e) | Inr y \<Rightarrow> ok (g y)) u = (Inr x, v) \<longleftrightarrow> (\<exists>y. z = Inr y \<and> x = g y \<and> u = v)"
  by (cases z) (auto simp: quit_Inr run_ok)

lemma prologue_Inr:
  assumes "main_prologue dotenv clap args s = (Inr r, t)"
  shows "case r of Inl shown \<Rightarrow> 1 < length args \<and> args ! 1 = ''config''
     | Inr cfg \<Rightarrow> \<not> (1 < length args \<and> args ! 1 = ''config'') \<and> clap (env_vars t) args = Inr cfg"
  using assms by (auto simp: main_prologue_def inv_simps case_quit_Inr split: if_splits)

definition served :: "((string \<rightharpoonup> string) \<Rightarrow> string list \<Rightarrow> int + config) \<Rightarrow> string list \<Rightarrow> (u16 \<Rightarrow> string + unit) \<Rightarrow> app_state \<Rightarrow> bool" where
  "served clap args bind st \<longleftrightarrow>
     bind (server_port (as_config st)) = Inr () \<and>
     (as_wg_server st \<noteq> None \<longleftrightarrow> is_worker (as_config st) \<and> \<not> ci_mock_wg_container (as_config st)) \<and>
     (\<exists>env cfg lease_secret jwt. clap env args = Inr cfg \<and>
        as_config st = cfg\<lparr>lease_token_secret := lease_secret, jwt_secret := jwt\<rparr> \<and>
        secret_for (lease_token_secret cfg) lease_secret \<and> secret_for (jwt_secret cfg) jwt)"

lemma bring_up_served:
  assumes "bring_up fuel version cfg u = (Inr st, t)" and "clap env args = Inr cfg" and "bind (server_port (as_config st)) = Inr ()"
  shows "served clap args bind st"
proof -
  obtain c s0 s1 s2 s3 srv s4 s5 s6 where c: "fill_secrets cfg u = (Inr c, s0)" "create_pool s1 = (Inr (), s2)"
    "init_database c s2 = (Inr (), s3)" "start_wireguard fuel c s3 = (Inr srv, s4)"
    "start_credentials c s4 = (Inr (), s5)" "open_ports c s5 = (Inr (), s6)"
    "t = s6\<lparr>lock_names := [], cache := Map.empty, clock_pos := Suc (clock_pos s6)\<rparr>"
    "open_log s0 = (Inr (), s1)" "as_config st = c" "as_wg_server st = srv"
    by (rule bring_up_Inr [OF assms(1)])
  with fill_secrets_Inr [OF c(1)] start_wireguard_Inr [OF c(4)] assms(2,3) show ?thesis by (auto simp: served_def)
qed

lemma worker_main_Inr:
  assumes "worker_main dotenv clap args fuel version bind s = (Inr r, t)"
  shows "case r of Inl shown \<Rightarrow> 1 < length args \<and> args ! 1 = ''config'' | Inr st \<Rightarrow> served clap args bind st"
proof -
  obtain p u where p: "main_prologue dotenv clap args s = (Inr p, u)"
    "(case p of Inl shown \<Rightarrow> ok (Inl shown)
      | Inr config \<Rightarrow> and_then (bring_up fuel version config) (\<lambda>st.
          case bind (server_port (as_config st)) of Inl e \<Rightarrow> quit 101 | Inr _ \<Rightarrow> ok (Inr st))) u = (Inr r, t)"
    using assms by (auto simp: worker_main_def and_then_Inr)
  show ?thesis
  proof (cases p)
    case (Inl shown)
    with p prologue_Inr [OF p(1)] show ?thesis by (auto simp: run_ok)
  next
    case (Inr cfg)
    with p(2) have "\<exists>st. bring_up fuel version cfg u = (Inr st, t) \<and> bind (server_port (as_config st)) = Inr () \<and> r = Inr st"
      by (simp add: and_then_Inr case_quit_Inr)
    moreover have "clap (env_vars u) args = Inr cfg" using prologue_Inr [OF p(1)] Inr by simp
    ultimately show ?thesis using bring_up_served by fastforce
  qed
qed

lemma worker_main_exit:
  assumes "worker_main dotenv clap args fuel version bind s = (r, t)" and "exit_code s = None"
  shows "case r of Inr x \<Rightarrow> exit_code t = None
    | Inl e \<Rightarrow> \<exists>code. exit_code t = Some code \<and> (code = 1 \<or> code = 101 \<or> (\<exists>env. clap env args = Inl code))"
proof -
  have "ends_in ({1, 101} \<union> {code. \<exists>env. clap env args = Inl code}) (worker_main dotenv clap args fuel version bind)"
    by (rule ends_worker_main) auto
  with assms show ?thesis by (cases r) (auto simp: ends_in_def dest!: spec [of _ s])
qed



subsection \<open>The registration loop\<close>

text \<open>The task that registers the worker tries again and again; while it sleeps for 30 seconds after the \<open>n\<close>-th
  round, the rest of the worker does \<open>others n\<close>. \<open>None\<close>: it goes on for ever.\<close>

partial_function (option) registration_loop ::
    "app_state \<Rightarrow> (nat \<Rightarrow> 'z os_st_scheme \<Rightarrow> 'z os_st_scheme) \<Rightarrow> nat \<Rightarrow> 'z os_st_scheme \<Rightarrow> 'z os_st_scheme option" where
  "registration_loop st others n s =
     (case registration_round st s of
        (r, t) \<Rightarrow> if r = Inr True then Some t else registration_loop st others (Suc n) (others n t))"

definition registration_task ::
    "app_state \<Rightarrow> (nat \<Rightarrow> 'z os_st_scheme \<Rightarrow> 'z os_st_scheme) \<Rightarrow> 'z os_st_scheme \<Rightarrow> 'z os_st_scheme option" where
  "registration_task st others s =
     (if is_worker (as_config st) then registration_loop st others 0 s else Some s)"

text \<open>The state in which round \<open>n\<close> starts, if it comes to it.\<close>

primrec round_start :: "app_state \<Rightarrow> (nat \<Rightarrow> 'z os_st_scheme \<Rightarrow> 'z os_st_scheme) \<Rightarrow> 'z os_st_scheme \<Rightarrow> nat \<Rightarrow> 'z os_st_scheme" where
  "round_start st others s 0 = s"
| "round_start st others s (Suc n) = others n (snd (registration_round st (round_start st others s n)))"

definition registers :: "app_state \<Rightarrow> 'z os_st_scheme \<Rightarrow> bool" where
  "registers st s \<longleftrightarrow> fst (registration_round st s) = Inr True"

lemma registration_loop_unfold:
  "registration_loop st others n s =
     (if registers st s then Some (snd (registration_round st s))
      else registration_loop st others (Suc n) (others n (snd (registration_round st s))))"
  by (subst registration_loop.simps) (simp add: registers_def split: prod.split)

lemma registration_loop_from:
  assumes "\<forall>k < m. \<not> registers st (round_start st others s (n + k))"
  shows "registration_loop st others n (round_start st others s n) =
     registration_loop st others (n + m) (round_start st others s (n + m))"
  using assms
proof (induction m)
  case (Suc m)
  then have "\<not> registers st (round_start st others s (n + m))" by simp
  with Suc registration_loop_unfold [of st others "n + m" "round_start st others s (n + m)"] show ?case by simp
qed simp

lemma round_start_tail:
  "round_start st (\<lambda>k. others (n + k)) s (Suc m) =
   round_start st (\<lambda>k. others (Suc n + k)) (others n (snd (registration_round st s))) m"
  by (induction m) simp_all

lemma registration_loop_returns:
  assumes "registration_loop st others n s = Some t"
  shows "\<exists>m. registers st (round_start st (\<lambda>k. others (n + k)) s m)"
proof (rule registration_loop.raw_induct [where P = "\<lambda>st others n s t. \<exists>m. registers st (round_start st (\<lambda>k. others (n + k)) s m)",
      OF _ assms])
  fix loop st others n s t
  assume IH: "\<And>st others n s t. loop st others n s = Some t \<Longrightarrow> \<exists>m. registers st (round_start st (\<lambda>k. others (n + k)) s m)"
    and run: "(case registration_round st s of
        (r, t) \<Rightarrow> if r = Inr True then Some t else loop st others (Suc n) (others n t)) = Some t"
  show "\<exists>m. registers st (round_start st (\<lambda>k. others (n + k)) s m)"
  proof (cases "registers st s")
    case True
    then show ?thesis by (intro exI [of _ 0]) simp
  next
    case False
    with run have "loop st others (Suc n) (others n (snd (registration_round st s))) = Some t"
      by (simp add: registers_def case_prod_beta)
    from IH [OF this] show ?thesis using round_start_tail [of st others n s] by metis
  qed
qed

lemma registration_loop_spec:
  "registration_loop st others 0 s =
     (if \<exists>n. registers st (round_start st others s n)
      then Some (snd (registration_round st (round_start st others s (LEAST n. registers st (round_start st others s n)))))
      else None)"
proof (cases "\<exists>n. registers st (round_start st others s n)")
  case True
  define n where "n = (LEAST n. registers st (round_start st others s n))"
  have n: "registers st (round_start st others s n)" "\<forall>k < n. \<not> registers st (round_start st others s k)"
    using True unfolding n_def by (auto intro: LeastI_ex dest: not_less_Least)
  have "registration_loop st others 0 s = registration_loop st others n (round_start st others s n)"
    using registration_loop_from [of n st others s 0] n(2) by simp
  with n(1) True show ?thesis by (simp add: registration_loop_unfold [of st others n] flip: n_def)
next
  case False
  then show ?thesis using registration_loop_returns [of st others 0 s] by fastforce
qed

text \<open>A pool that answers every request with a registration, reached by a client that can be built, and a
  database that works: then a round registers the worker.\<close>

definition pool_accepts :: "'z os_st_scheme \<Rightarrow> bool" where
  "pool_accepts s \<longleftrightarrow> no_faults s \<and> reg_ok s \<and> (\<forall>n. client_fault s n = None) \<and>
     (\<forall>n r. \<exists>resp reply j. http_reply s n r = Inr resp \<and> hr_body resp = Inr reply \<and>
        ext_parse_json (ext s) reply = Inr j \<and> registered_in j)"

lemma pool_accepts_registers:
  assumes "pool_accepts s"
  shows "registers st s"
proof -
  let ?cfg = "as_config st"
  obtain ms u where run: "register_with_mining_pool ?cfg (as_wg_server st) s = broadcast ?cfg (JObj ms) u"
    and u: "same_world s u" by (rule register_run)
  let ?post = "Post (effective_mining_pool_url ?cfg @ ''/miner/broadcast/worker'') (JObj ms)"
  obtain resp reply j where r: "http_reply s (length (http_log s)) ?post = Inr resp" "hr_body resp = Inr reply"
    "ext_parse_json (ext s) reply = Inr j" "registered_in j" using assms unfolding pool_accepts_def by metis
  let ?v = "u\<lparr>http_log := http_log u @ [?post]\<rparr>"
  have "reg_ok ?v" "no_faults ?v" "client_fault u (length (http_log u)) = None"
    using assms u by (simp_all add: pool_accepts_def same_world_def reg_ok_def no_faults_def)
  with r u insert_registration_run [of ?v] have "fst (broadcast ?cfg (JObj ms) u) = Inr True"
    by (simp add: broadcast_def Let_def run_build_client prefix_err_def same_world_def seq_simps run_simps)
  then show ?thesis
    using run by (cases "broadcast ?cfg (JObj ms) u") (simp add: registers_def registration_round_def seq_simps run_simps)
qed

text \<open>C19: The registration task ends, after the first round in which the pool confirms the registration, and in the
  state that round leaves; if no round ever succeeds it tries for ever, and it does nothing unless the worker
  runs as a worker. Whatever the rest of the worker does between the rounds, and whatever went wrong
  before, a pool that accepts at the start of any one round is enough for it to end.\<close>

theorem registration_task_ends:
  "registration_task st others s =
     (if \<not> is_worker (as_config st) then Some s
      else if \<exists>n. registers st (round_start st others s n)
      then Some (snd (registration_round st (round_start st others s (LEAST n. registers st (round_start st others s n)))))
      else None) \<and>
   (pool_accepts (round_start st others s n) \<longrightarrow> (\<exists>t. registration_task st others s = Some t))"
  using pool_accepts_registers [of "round_start st others s n" st]
  by (auto simp: registration_task_def registration_loop_spec)

theorem registration_task_ends_witness:
  "pool_accepts pool_os \<and> (\<exists>t. registration_task demo_state (\<lambda>n. id) pool_os = Some t)"
proof -
  have reg: "registered_in (JObj [(''registered'', JBool True)])" by (simp add: registered_in_def unwrap_or_def)
  have "pool_accepts pool_os"
    using reg by (auto simp: pool_accepts_def pool_os_def no_faults_def reg_ok_def demo_ext_def)
  moreover have "pool_accepts (round_start demo_state (\<lambda>n. id) pool_os 0) \<longrightarrow>
      (\<exists>t. registration_task demo_state (\<lambda>n. id) pool_os = Some t)"
    by (rule registration_task_ends [THEN conjunct2])
  ultimately show ?thesis by simp
qed

end
