(* ===== verification/Worker_Reports.thy ===== *)
theory Worker_Reports
  imports Worker
begin

text \<open>
  The endpoints that only report (and the login) leave everything the worker manages alone, whatever
  their statements and requests come to.
\<close>

text \<open>Everything but the clock, the counters of the environment and the requests sent.\<close>

definition untouched :: "'z os_st_scheme \<Rightarrow> 'z os_st_scheme \<Rightarrow> bool" where
  "untouched s t \<longleftrightarrow>
     wg_configs t = wg_configs s \<and> wg_servers t = wg_servers s \<and> socks_configs t = socks_configs s \<and>
     ts_rows t = ts_rows s \<and> reg_log t = reg_log s \<and> credentials t = credentials s \<and> peers t = peers s \<and>
     wg_calls t = wg_calls s \<and> cache t = cache s \<and> files t = files s \<and> file_modes t = file_modes s \<and>
     env_vars t = env_vars s \<and> cmd_log t = cmd_log s \<and> late_tasks t = late_tasks s \<and> exit_code t = exit_code s"

lemma env_blind_untouched [simp]: "env_blind (untouched s)"
  by (simp add: env_blind_def untouched_def)

lemma untouched_refl [simp]: "untouched s s"
  by (simp add: untouched_def)

lemma keeps_untouched [keeps_rules]:
  "keeps (untouched s) (send_request r)" "keeps (untouched s) build_client" "keeps (untouched s) (open_file p)"
  "keeps (untouched s) check_open_leases" "keeps (untouched s) (count_available_socks k)"
  "keeps (untouched s) (recent_registrations n)"
proof -
  show "keeps (untouched s) (send_request r)" "keeps (untouched s) build_client"
    by (simp_all add: keeps_def run_simps build_client_def untouched_def)
  show "keeps (untouched s) (open_file p)"
    by (simp add: keeps_def open_file_def run_file_op untouched_def split: option.split)
  show "keeps (untouched s) check_open_leases" "keeps (untouched s) (count_available_socks k)"
    "keeps (untouched s) (recent_registrations n)"
    unfolding check_open_leases_def count_available_socks_def recent_registrations_def
    by (intro keeps_rules env_blind_untouched; simp)+
qed

lemma keeps_untouched_token: "keeps (untouched s) (verify_token t k)"
  unfolding verify_token_def by (intro keeps_rules env_blind_untouched)

lemma keeps_untouched_parts: "keeps (untouched s) (check_parts secret parts)"
  by (induction parts) (auto intro!: keeps_rules keeps_untouched_token split: option.split)

definition reporting :: "api_call set" where
  "reporting = {Health, Ping, Dashboard_page, Auth_check, Stats, Dashboard_data, Version, Process_status} \<union> range Get_logs \<union> range Login"

lemma keeps_untouched_handle: "call \<in> reporting \<Longrightarrow> keeps (untouched s) (handle st call)"
  unfolding reporting_def
  by (auto simp: health_def ping_def dashboard_page_def auth_check_def stats_def dashboard_data_def get_version_def process_status_def
      get_logs_def login_def generate_token_def uptime_seconds_def available_socks_def Let_def
      intro!: keeps_rules env_blind_untouched)

lemma keeps_untouched_serve: "call \<in> reporting \<Longrightarrow> keeps (untouched s) (serve st req call)"
  unfolding serve_def auth_middleware_def Let_def
  by (intro keeps_rules keeps_untouched_handle keeps_untouched_parts keeps_untouched_token)

subsection \<open>Every request is answered\<close>

text \<open>\<open>answers m\<close>: \<open>m\<close> yields a value in every state. What fails inside a handler has been turned into a
  response by the handler itself.\<close>

definition answers :: "('s, 'e, 'a) rm \<Rightarrow> bool" where
  "answers m \<longleftrightarrow> (\<forall>s. \<exists>x t. m s = (Inr x, t))"

named_theorems answers_rules "an operation yields a value in every state"

lemma answers_basic [answers_rules]:
  "answers (ok x)" "answers (gets f)" "answers (modify g)" "answers (attempt m)"
  by (simp_all add: answers_def run_simps seq_simps)

lemma answers_and_then [answers_rules]: "answers m \<Longrightarrow> (\<And>x. answers (k x)) \<Longrightarrow> answers (and_then m k)"
  unfolding answers_def run_and_then by (metis (no_types, lifting) case_prod_conv old.sum.simps(6))

lemma answers_cases [answers_rules]:
  "(b \<Longrightarrow> answers m) \<Longrightarrow> (\<not> b \<Longrightarrow> answers n) \<Longrightarrow> answers (if b then m else n)"
  "answers n \<Longrightarrow> (\<And>x. answers (k x)) \<Longrightarrow> answers (case z of None \<Rightarrow> n | Some x \<Rightarrow> k x)"
  "(\<And>e. answers (h e)) \<Longrightarrow> (\<And>x. answers (j x)) \<Longrightarrow> answers (case w of Inl e \<Rightarrow> h e | Inr x \<Rightarrow> j x)"
  "(\<And>x y. answers (l x y)) \<Longrightarrow> answers (case q of (x, y) \<Rightarrow> l x y)"
  by (simp_all split: option.split sum.split prod.split)

lemma answers_environment [answers_rules]:
  "answers now_ms" "answers now_rfc3339" "answers (run_command c)" "answers (send_request r)" "answers build_client"
  "answers (spawn_late t)" "answers (exit_process n)" "answers (path_exists p)" "answers (file_op f)"
  by (simp_all add: answers_def run_simps run_file_op build_client_def spawn_late_def exit_process_def path_exists_def split: option.split)

lemma answers_files [answers_rules]:
  "answers (read_to_string p)" "answers (open_file p)" "answers (write_file p c)" "answers (copy_file p q)"
  "answers (remove_file p)" "answers (set_permissions p m)"
  unfolding read_to_string_def open_file_def write_file_def copy_file_def remove_file_def set_permissions_def leave_partial_def
  by (intro answers_rules)+

lemma answers_check_parts [answers_rules]: "answers (check_parts secret parts)"
  by (induction parts) (auto simp: verify_token_def intro!: answers_rules split: option.split)

lemma answers_update_env [answers_rules]: "answers (update_env_value k v)"
  unfolding update_env_value_def by (intro answers_rules)

lemma answers_reports [answers_rules]:
  "answers check_open_leases" "answers (recent_registrations n)" "answers (uptime_seconds st)" "answers (available_socks cfg)"
  unfolding check_open_leases_def recent_registrations_def uptime_seconds_def available_socks_def
  by (intro answers_rules)+

lemma answers_handle: "answers (handle st call)"
  by (cases call)
    (auto simp: health_def ping_def dashboard_page_def auth_check_def stats_def dashboard_data_def get_version_def process_status_def
      get_logs_def login_def generate_token_def update_password_def update_config_def update_fields_def text_field_def
      port_field_def set_field_def do_upgrade_def install_def replace_binary_def or_return_def drop_result_def failed_def
      stop_worker_def start_worker_def restart_worker_def Let_def intro!: answers_rules)

lemma answers_serve: "answers (serve st req call)"
  unfolding serve_def auth_middleware_def verify_token_def Let_def
  by (intro answers_rules answers_handle)

text \<open>C17: Every request is answered, and reporting is free of side effects: whatever fails, a handler (behind the
  middleware or not) yields a response; and the endpoints that report on the worker, together with
  the login, leave tables, credentials, peers, interface, cache, files, environment and scheduled
  tasks as they are and run no command.\<close>

theorem requests_answered_reports_read_only:
  "\<exists>r t. serve st req call s = (Inr r, t) \<and>
     (call \<in> {Health, Ping, Dashboard_page, Auth_check, Stats, Dashboard_data, Version, Process_status} \<union> range Get_logs \<union> range Login
       \<longrightarrow> untouched s t)"
  using answers_serve [of st req call] keepsD [OF keeps_untouched_serve [of call s st req] untouched_refl]
  unfolding answers_def reporting_def [symmetric] by (metis snd_conv)

theorem requests_answered_reports_read_only_witness:
  "\<exists>r t. serve demo_state \<lparr>rq_authorization = None, rq_query = None\<rparr> Dashboard_data demo_os = (Inr r, t) \<and> untouched demo_os t"
  using requests_answered_reports_read_only [of demo_state "\<lparr>rq_authorization = None, rq_query = None\<rparr>" Dashboard_data demo_os] by simp

end
