(* ===== verification/Api_Types.thy ===== *)
theory Api_Types
  imports Worker_Reports "HOL-Library.Sublist"
begin

text \<open>
  The types of the answers: a small language of schemas for JSON documents, what each endpoint of
  \<open>src/src/api\<close> may answer (status and content), and the theorem that every answer of every endpoint
  is one of these. The clients, the page in the browser among them, rely on these shapes.
\<close>

subsection \<open>Schemas\<close>

datatype schema =
    S_is json
  | S_bool
  | S_int
  | S_nat
  | S_str
  | S_opt schema \<comment> \<open>or \<open>null\<close>\<close>
  | S_list schema
  | S_obj "field list"
and field = Required string schema | Optional string schema

primrec field_name :: "field \<Rightarrow> string" where
  "field_name (Required k s) = k"
| "field_name (Optional k s) = k"

text \<open>An object has no key twice, no key that the schema does not name, and every required one.\<close>

fun conforms :: "schema \<Rightarrow> json \<Rightarrow> bool"
  and has_fields :: "field list \<Rightarrow> (string \<times> json) list \<Rightarrow> bool"
  and has_field :: "field \<Rightarrow> (string \<times> json) list \<Rightarrow> bool" where
  "conforms (S_is v) j = (j = v)"
| "conforms S_bool j = (case j of JBool b \<Rightarrow> True | _ \<Rightarrow> False)"
| "conforms S_int j = (case j of JInt n \<Rightarrow> True | _ \<Rightarrow> False)"
| "conforms S_nat j = (case j of JInt n \<Rightarrow> 0 \<le> n | _ \<Rightarrow> False)"
| "conforms S_str j = (case j of JStr s \<Rightarrow> True | _ \<Rightarrow> False)"
| "conforms (S_opt s) j = (j = JNull \<or> conforms s j)"
| "conforms (S_list s) j = (case j of JArr js \<Rightarrow> (\<forall>x \<in> set js. conforms s x) | _ \<Rightarrow> False)"
| "conforms (S_obj fs) j =
     (case j of JObj ms \<Rightarrow> distinct (map fst ms) \<and> fst ` set ms \<subseteq> field_name ` set fs \<and> has_fields fs ms | _ \<Rightarrow> False)"
| "has_fields [] ms = True"
| "has_fields (f # fs) ms = (has_field f ms \<and> has_fields fs ms)"
| "has_field (Required k s) ms = (case map_of ms k of None \<Rightarrow> False | Some v \<Rightarrow> conforms s v)"
| "has_field (Optional k s) ms = (case map_of ms k of None \<Rightarrow> True | Some v \<Rightarrow> conforms s v)"

subsection \<open>What the endpoints answer\<close>

datatype content = No_content | Plain | Page | Document schema

fun body_ok :: "content \<Rightarrow> body \<Rightarrow> bool" where
  "body_ok No_content b = (b = NoBody)"
| "body_ok Plain b = (case b of Text x \<Rightarrow> True | _ \<Rightarrow> False)"
| "body_ok Page b = (case b of Html x \<Rightarrow> True | _ \<Rightarrow> False)"
| "body_ok (Document s) b = (case b of Json j \<Rightarrow> conforms s j | _ \<Rightarrow> False)"

definition said :: "bool \<Rightarrow> field list \<Rightarrow> content" where
  "said b extras = Document (S_obj (Required ''success'' (S_is (JBool b)) # Required ''message'' S_str # extras))"

definition strings :: "string list \<Rightarrow> field list" where
  "strings ks = map (\<lambda>k. Required k S_str) ks"

definition health_schema :: schema where
  "health_schema = S_obj
     (strings [''notice'', ''info'', ''version'', ''last_start'', ''branch'', ''hash'', ''SERVER_PUBLIC_PORT'', ''SERVER_PUBLIC_PROTOCOL''] @
      map (\<lambda>k. Optional k S_str)
        [''MINING_POOL_NAME'', ''MINING_POOL_URL'', ''SERVER_PUBLIC_HOST'', ''MINING_POOL_REWARDS'', ''MINING_POOL_WEBSITE_URL'',
         ''BROADCAST_MESSAGE'', ''CONTACT_METHOD''])"

definition stats_schema :: schema where
  "stats_schema = S_obj
     (Required ''uptime_seconds'' S_int #
      Required ''wireguard'' (S_obj [Required ''peer_count'' S_nat, Required ''active_leases'' S_nat]) #
      Required ''socks5'' (S_obj [Required ''priority_slots'' S_int, Required ''available_non_priority'' S_nat]) #
      strings [''status'', ''mode'', ''version''])"

definition registration_schema :: schema where
  "registration_schema = S_obj
     (Required ''id'' S_int # Required ''success'' S_bool # Required ''status_code'' S_int #
      strings [''mining_pool_url'', ''response_body'', ''error_message'', ''created_at''])"

definition dashboard_schema :: schema where
  "dashboard_schema = S_obj
     [Required ''worker'' (S_obj (Required ''pid'' S_nat # Required ''uptime_seconds'' S_int #
        strings [''version'', ''mode'', ''start_time'', ''git_branch'', ''git_hash''])),
      Required ''mining_pool'' (S_obj (Required ''last_registration_success'' S_bool #
        strings [''url'', ''name'', ''last_registration_time'', ''rewards_url'', ''website_url''])),
      Required ''wireguard'' (S_obj (Required ''enabled'' S_bool # Required ''max_peers'' S_nat # Required ''active_peers'' S_nat #
        Required ''active_leases'' S_nat # Required ''listen_port'' S_nat # strings [''interface'', ''subnet'', ''dns'', ''server_public_key''])),
      Required ''proxy'' (S_obj [Required ''socks5_port'' S_nat, Required ''http_proxy_port'' S_nat, Required ''credential_count'' S_nat,
        Required ''active_credentials'' S_nat, Required ''available_non_priority'' S_nat, Required ''priority_slots'' S_int]),
      Required ''network'' (S_obj (Required ''public_port'' S_nat # strings [''public_host'', ''protocol'', ''base_url''])),
      Required ''payment'' (S_obj (strings [''evm_address'', ''bittensor_address''])),
      Required ''database'' (S_obj (strings [''path''])),
      Required ''registration_history'' (S_list registration_schema)]"

definition lease_schema :: "string \<Rightarrow> schema" where
  "lease_schema ty =
     (if ty = ''wireguard'' then
        S_obj [Required ''interface'' (S_obj (Optional ''ListenPort'' S_nat # strings [''Address'', ''PrivateKey'', ''DNS''])),
               Required ''peer'' (S_obj (strings [''PublicKey'', ''PresharedKey'', ''AllowedIPs'', ''Endpoint'']))]
      else S_obj (Required ''port'' S_int # strings [''username'', ''password'', ''ip_address'']))"

definition lease_content :: "string \<Rightarrow> string \<Rightarrow> content" where
  "lease_content ty fmt = (if fmt = ''text'' then Plain else Document (lease_schema ty))"

definition lease_error :: content where
  "lease_error = Document (S_obj (strings [''error'']))"

definition version_schema :: schema where
  "version_schema = S_obj
     [Required ''success'' (S_is (JBool True)),
      Required ''data'' (S_obj [Required ''current'' S_str, Required ''latest'' (S_opt S_str), Required ''has_update'' S_bool,
        Required ''download_url'' (S_opt S_str)])]"

definition status_schema :: schema where
  "status_schema = S_obj
     [Required ''success'' (S_is (JBool True)),
      Required ''data'' (S_obj (Required ''running'' (S_is (JBool True)) # Required ''pid'' S_nat # Required ''uptime_seconds'' S_int #
        strings [''binary'', ''start_time'', ''version'']))]"

definition logs_schema :: "bool \<Rightarrow> string \<Rightarrow> schema" where
  "logs_schema success key = S_obj
     [Required ''success'' (S_is (JBool success)), Required ''lines'' (S_list S_str), Required ''count'' S_nat, Required key S_str]"

fun answers_of :: "api_call \<Rightarrow> (nat \<times> content) list" where
  "answers_of Health = [(200, Document health_schema)]"
| "answers_of Ping = [(200, Plain)]"
| "answers_of Dashboard_page = [(200, Page)]"
| "answers_of Auth_check = [(200, Document (S_obj [Required ''auth_required'' S_bool]))]"
| "answers_of (Login p) =
     [(200, said True [Required ''data'' (S_obj [Required ''token'' S_str])]), (401, said False []), (500, said False [])]"
| "answers_of (Lease_new addr q) =
     [(200, lease_content (unwrap_or ''wireguard'' (q_type q)) (unwrap_or ''json'' (q_format q))),
      (400, lease_error), (403, lease_error), (500, lease_error)]"
| "answers_of Stats = [(200, Document stats_schema)]"
| "answers_of Dashboard_data = [(200, Document dashboard_schema)]"
| "answers_of Version = [(200, Document version_schema)]"
| "answers_of Do_upgrade = [(200, said True []), (500, said False [])]"
| "answers_of (Update_config req) =
     [(200, said True [Required ''updated'' (S_list S_str)]), (400, said False []),
      (500, said False [Required ''updated'' (S_list S_str)])]"
| "answers_of (Get_logs q) = [(200, Document (logs_schema True ''file'')), (200, Document (logs_schema False ''error''))]"
| "answers_of Process_status = [(200, Document status_schema)]"
| "answers_of Stop_worker = [(200, said True [])]"
| "answers_of Start_worker = [(200, said True []), (500, said False [])]"
| "answers_of Restart_worker = [(200, said True [])]"
| "answers_of (Update_password p) = [(200, said True []), (400, said False []), (500, said False [])]"

definition lease_headers :: "string set" where
  "lease_headers = {''X-Lease-Ref'', ''X-Lease-Expires'', ''X-Lease-Token''}"

text \<open>Only a granted lease comes with headers of its own.\<close>

definition answer_ok :: "api_call \<Rightarrow> response \<Rightarrow> bool" where
  "answer_ok call r \<longleftrightarrow>
     (\<exists>(code, c) \<in> set (answers_of call). status r = code \<and> body_ok c (body r)) \<and>
     fst ` set (headers r) \<subseteq> (if call \<in> range (case_prod Lease_new) \<and> status r = 200 then lease_headers else {})"

subsection \<open>Values an operation can yield\<close>

definition yields :: "('a \<Rightarrow> bool) \<Rightarrow> ('s, 'e, 'a) rm \<Rightarrow> bool" where
  "yields P m \<longleftrightarrow> (\<forall>s x t. m s = (Inr x, t) \<longrightarrow> P x)"

named_theorems yields_rules "what an operation yields when it succeeds"

lemma yields_ok [yields_rules]: "P x \<Longrightarrow> yields P (ok x)"
  by (simp add: yields_def run_ok)

lemma yields_err [yields_rules]: "yields P (err e)"
  by (simp add: yields_def run_err)

lemma yields_and_then [yields_rules]: "(\<And>x. yields P (k x)) \<Longrightarrow> yields P (and_then m k)"
  by (auto simp: yields_def and_then_Inr)

lemma yields_bind: "yields Q m \<Longrightarrow> (\<And>x. Q x \<Longrightarrow> yields P (k x)) \<Longrightarrow> yields P (and_then m k)"
  unfolding yields_def and_then_Inr by blast

lemma yields_if [yields_rules]:
  "(b \<Longrightarrow> yields P m) \<Longrightarrow> (\<not> b \<Longrightarrow> yields P n) \<Longrightarrow> yields P (if b then m else n)"
  by simp

lemma yields_case_option [yields_rules]:
  "yields P m \<Longrightarrow> (\<And>x. yields P (k x)) \<Longrightarrow> yields P (case z of None \<Rightarrow> m | Some x \<Rightarrow> k x)"
  by (simp split: option.split)

lemma yields_case_sum [yields_rules]:
  "(\<And>e. yields P (h e)) \<Longrightarrow> (\<And>x. yields P (k x)) \<Longrightarrow> yields P (case z of Inl e \<Rightarrow> h e | Inr x \<Rightarrow> k x)"
  by (simp split: sum.split)

lemma yields_case_prod [yields_rules]: "(\<And>x y. yields P (k x y)) \<Longrightarrow> yields P (case z of (x, y) \<Rightarrow> k x y)"
  by (simp split: prod.split)

lemma yields_attempt: "yields P m \<Longrightarrow> yields (\<lambda>r. case r of Inl e \<Rightarrow> True | Inr x \<Rightarrow> P x) (attempt m)"
  by (auto simp: yields_def inv_simps split: sum.split)

subsection \<open>Leases\<close>

definition lease_typed :: "string \<Rightarrow> string \<Rightarrow> lease_result \<Rightarrow> bool" where
  "lease_typed ty fmt r \<longleftrightarrow>
     (fmt \<noteq> ''text'' \<longrightarrow> (\<exists>j. lr_json r = Some j \<and> conforms (lease_schema ty) j))"

lemma to_json_typed: "conforms (lease_schema ''wireguard'') (to_json c)"
  by (simp add: lease_schema_def strings_def to_json_def)

lemma mock_json_typed: "conforms (lease_schema ''wireguard'') mock_json"
  by (simp add: lease_schema_def strings_def mock_json_def)

lemma yields_peer_format:
  assumes "\<And>tx js. fmt \<noteq> ''text'' \<longrightarrow> (\<exists>j. js = Some j \<and> conforms (lease_schema ''wireguard'') j) \<Longrightarrow> yields P (k tx js)"
  shows "yields P (case format_peer_config c fmt of (tx, js) \<Rightarrow> k tx js)"
  using assms [where tx = "Some (to_text c)" and js = None] assms [where tx = None and js = "Some (to_json c)"]
  by (simp add: format_peer_config_def to_json_typed)

lemma yields_socks5_format:
  assumes "\<And>tx js. fmt \<noteq> ''text'' \<longrightarrow> (\<exists>j. js = Some j \<and> conforms (lease_schema ''socks5'') j) \<Longrightarrow> yields P (k tx js)"
  shows "yields P (case format_socks5_config c fmt of (tx, js) \<Rightarrow> k tx js)"
proof (cases "format_socks5_config c fmt")
  case (Pair tx js)
  then have "fmt \<noteq> ''text'' \<longrightarrow> (\<exists>j. js = Some j \<and> conforms (lease_schema ''socks5'') j)"
    by (auto simp: format_socks5_config_def lease_schema_def strings_def split: if_splits)
  from assms [OF this] Pair show ?thesis by simp
qed

lemma get_worker_config_typed:
  "yields (lease_typed ty fmt) (get_worker_config cfg srv ty secs pr fmt r x)"
  unfolding get_worker_config_def allocate_wireguard_def allocate_socks5_def extend_wireguard_def extend_socks5_def Let_def
  by (intro yields_peer_format yields_socks5_format yields_rules)
    (simp_all add: lease_typed_def mock_json_typed del: conforms.simps)

lemma lease_response_ok:
  "lease_typed (unwrap_or ''wireguard'' (q_type q)) (unwrap_or ''json'' (q_format q)) result \<Longrightarrow>
   answer_ok (Lease_new addr q) (lease_response x cfg (unwrap_or ''json'' (q_format q)) result)"
  by (auto simp: answer_ok_def lease_response_def lease_typed_def lease_content_def lease_headers_def header_def unwrap_or_def
      simp del: conforms.simps)

lemma lease_new_typed: "yields (answer_ok (Lease_new addr q)) (lease_new st addr q)"
  unfolding lease_new_def Let_def
  by (rule yields_and_then yields_bind [OF get_worker_config_typed] yields_ok lease_response_ok)+

subsection \<open>Reports\<close>

lemmas answer_simps = answer_ok_def json_response_def message_response_def said_def strings_def

lemma simple_answers:
  "yields (answer_ok Ping) ping" "yields (answer_ok Dashboard_page) dashboard_page"
  "yields (answer_ok Auth_check) (auth_check st)"
  unfolding ping_def dashboard_page_def auth_check_def
  by (intro yields_rules; simp add: answer_simps)+

text \<open>The optional members of the health report: each may be left out, none comes twice.\<close>

lemma unless_empty_subseq: "subseq xs ks \<Longrightarrow> subseq (map fst (unless_empty k t v) @ xs) (k # ks)"
  by (auto simp: unless_empty_def)

lemma subseq_keys: "subseq xs ys \<Longrightarrow> distinct ys \<Longrightarrow> distinct xs \<and> set xs \<subseteq> set ys"
  by (induction rule: list_emb.induct) auto

lemma unless_empty_strings: "\<forall>m \<in> set (unless_empty k t v). \<exists>x. snd m = JStr x"
  by (simp add: unless_empty_def)

lemma string_object:
  assumes "subseq (map fst ms) ks" and "distinct ks" and "\<forall>m \<in> set ms. \<exists>x. snd m = JStr x"
    and "set req \<subseteq> fst ` set ms" and "set ks \<subseteq> set req \<union> set opt"
  shows "conforms (S_obj (strings req @ map (\<lambda>k. Optional k S_str) opt)) (JObj ms)"
proof -
  have "distinct (map fst ms)" "fst ` set ms \<subseteq> set ks" using subseq_keys [OF assms(1,2)] by simp_all
  moreover have str: "\<exists>x. v = JStr x" if "map_of ms k = Some v" for k v using map_of_SomeD [OF that] assms(3) by fastforce
  have "has_fields fs ms" if "set fs \<subseteq> set (strings req @ map (\<lambda>k. Optional k S_str) opt)" for fs
    using that
  proof (induction fs)
    case (Cons f fs)
    have "has_field f ms"
      using Cons.prems assms(4) str
      by (auto simp: strings_def map_of_eq_None_iff subset_eq split: option.split dest!: str)
    with Cons show ?case by simp
  qed simp
  moreover have "field_name ` set (strings req @ map (\<lambda>k. Optional k S_str) opt) = set req \<union> set opt"
    by (simp add: strings_def image_Un image_image)
  ultimately show ?thesis using assms(5) by auto
qed

lemma health_answers: "yields (answer_ok Health) (health st)"
proof -
  let ?ks = "[''notice'', ''info'', ''version'', ''last_start'', ''branch'', ''hash'', ''MINING_POOL_NAME'', ''MINING_POOL_URL'',
    ''SERVER_PUBLIC_HOST'', ''SERVER_PUBLIC_PORT'', ''SERVER_PUBLIC_PROTOCOL'', ''MINING_POOL_REWARDS'', ''MINING_POOL_WEBSITE_URL'',
    ''BROADCAST_MESSAGE'', ''CONTACT_METHOD'']"
  have answer: "answer_ok Health (json_response 200 (JObj ms))" if "conforms health_schema (JObj ms)" for ms
    using that by (simp add: answer_ok_def json_response_def del: conforms.simps)
  have last: "subseq (map fst (unless_empty k t v)) [k]" for k t v by (simp add: unless_empty_def)
  show ?thesis
    unfolding health_def Let_def
  proof (intro yields_rules answer, unfold health_schema_def, rule string_object [where ks = ?ks], goal_cases)
    case 1
    show ?case by (simp add: unless_empty_subseq last)
  next
    case 3
    show ?case by (simp add: unless_empty_strings ball_Un)
  qed simp_all
qed

lemma available_socks_nat: "yields (\<lambda>n. 0 \<le> n) (available_socks cfg)"
proof -
  have "yields (\<lambda>n. 0 \<le> n) (count_available_socks k)" for k by (auto simp: yields_def count_available_socks_def sql_Inr)
  note count = yields_attempt [OF this]
  show ?thesis
    unfolding available_socks_def by (rule yields_bind [OF count], rule yields_ok) (simp split: sum.splits)
qed

lemma stats_answers: "yields (answer_ok Stats) (stats st)"
  unfolding stats_def Let_def
  by (rule yields_bind [OF available_socks_nat] yields_and_then yields_ok)+ (simp add: answer_simps stats_schema_def)

lemma registrations_typed: "yields (\<lambda>js. \<forall>j \<in> set js. conforms registration_schema j) (recent_registrations n)"
  unfolding recent_registrations_def
  by (intro yields_rules) (auto simp: registration_schema_def strings_def reg_json_def split: sum.split)

lemma dashboard_answers: "yields (answer_ok Dashboard_data) (dashboard_data st)"
  unfolding dashboard_data_def Let_def
  by (rule yields_bind [OF available_socks_nat] yields_bind [OF registrations_typed] yields_and_then yields_case_prod yields_ok)+
    (simp add: answer_simps dashboard_schema_def worker_json_def mining_pool_json_def wireguard_json_def proxy_json_def network_json_def Let_def)

lemma version_answers: "yields (answer_ok Version) (get_version st)"
proof -
  have "answer_ok Version (version_info c l u d)" for c l u d
    by (cases l; cases d) (simp_all add: answer_simps version_info_def version_schema_def opt_str_def)
  then show ?thesis
    unfolding get_version_def Let_def by (intro yields_rules) (simp_all split: sum.split option.split)
qed

lemma status_answers: "yields (answer_ok Process_status) (process_status st)"
  unfolding process_status_def by (intro yields_rules) (simp add: answer_simps status_schema_def)

lemma logs_answers: "yields (answer_ok (Get_logs q)) (get_logs q)"
  unfolding get_logs_def Let_def
  by (intro yields_rules) (simp add: answer_simps logs_schema_def split: sum.split)

subsection \<open>Control\<close>

lemma control_answers:
  "yields (answer_ok Stop_worker) stop_worker" "yields (answer_ok Start_worker) start_worker"
  "yields (answer_ok Restart_worker) restart_worker"
  unfolding stop_worker_def start_worker_def restart_worker_def
  by (intro yields_rules; simp add: answer_simps split: sum.split)+

lemma login_answers: "yields (answer_ok (Login p)) (login st p)"
  unfolding login_def Let_def by (intro yields_rules) (simp_all add: answer_simps split: sum.split)

lemma password_answers: "yields (answer_ok (Update_password p)) (update_password p)"
  unfolding update_password_def Let_def by (intro yields_rules) (simp_all add: answer_simps split: sum.split)

lemma update_answers: "yields (answer_ok (Update_config req)) (update_config req)"
  unfolding update_config_def by (intro yields_rules) (auto simp: answer_simps)

lemma upgrade_answers: "yields (answer_ok Do_upgrade) (do_upgrade st)"
  unfolding do_upgrade_def install_def replace_binary_def or_return_def drop_result_def failed_def Let_def
  by (intro yields_rules) (simp_all add: answer_simps)

lemma handle_answers: "yields (answer_ok call) (handle st call)"
proof (cases call)
  case (Lease_new addr q)
  have "answer_ok call (into_response e)" for e
    using error_status_classes [of e] Lease_new by (auto simp: answer_simps into_response_def lease_error_def)
  then have "yields (answer_ok call) (ok (case r of Inl e \<Rightarrow> into_response e | Inr resp \<Rightarrow> resp))"
    if "case r of Inl e \<Rightarrow> True | Inr resp \<Rightarrow> answer_ok call resp" for r
    using that by (cases r) (simp_all add: yields_ok)
  then show ?thesis
    unfolding Lease_new handle.simps by (intro yields_bind [OF yields_attempt [OF lease_new_typed]]) blast
qed (simp_all add: simple_answers health_answers stats_answers dashboard_answers version_answers status_answers logs_answers
      control_answers login_answers password_answers update_answers upgrade_answers)

text \<open>C12: The type of the API. Whatever the state and whatever fails, an answer is either the middleware's 401
  without content, to a protected call of a worker with a password, or one that its endpoint announces:
  one of its statuses, with the content that goes with this status. Objects have every member they
  should and no other, none twice, each of its type; failures say so (\<open>success\<close> is false, or \<open>error\<close> is
  the only member); counts and ports are not negative; and only a granted lease has headers, of three names.\<close>

theorem responses_typed:
  assumes "serve st req call s = (Inr r, t)"
  shows "(protected call \<and> login_password (as_config st) \<noteq> [] \<and> status r = 401 \<and> body r = NoBody) \<or>
     (\<exists>(code, c) \<in> set (answers_of call). status r = code \<and> body_ok c (body r)) \<and>
     fst ` set (headers r) \<subseteq> (if call \<in> range (case_prod Lease_new) \<and> status r = 200 then lease_headers else {})"
proof -
  let ?P = "\<lambda>r. protected call \<and> login_password (as_config st) \<noteq> [] \<and> status r = 401 \<and> body r = NoBody \<or> answer_ok call r"
  have "yields (answer_ok call) (handle st call)" by (rule handle_answers)
  then have h: "yields ?P (handle st call)" by (auto simp: yields_def)
  have "yields ?P (serve st req call)"
  proof (cases "protected call")
    case True
    then show ?thesis
      unfolding serve_def auth_middleware_def Let_def
      by (intro h yields_rules) (simp_all add: h yields_rules unauthorized_def)
    next
    case False
    with h show ?thesis by (simp only: serve_def if_False)
  qed
  with assms have "?P r" unfolding yields_def by blast
  then show ?thesis unfolding answer_ok_def .
qed

theorem responses_typed_witness:
  "\<exists>r t. serve demo_state \<lparr>rq_authorization = None, rq_query = None\<rparr> Stats demo_os = (Inr r, t) \<and>
     status r = 200 \<and> body_ok (Document stats_schema) (body r)"
proof -
  obtain r t where r: "serve demo_state \<lparr>rq_authorization = None, rq_query = None\<rparr> Stats demo_os = (Inr r, t)"
    using answers_serve unfolding answers_def by blast
  have "login_password demo_config = []" by (simp add: demo_config_def)
  with responses_typed [OF r] r show ?thesis by (auto simp: demo_state_def)
qed

end
