(* ===== verification/Settings.thy ===== *)
theory Settings
  imports Worker
begin

text \<open>
  The first steps of \<open>main\<close> in \<open>src/src/main.rs\<close> decide which value of a setting is used: the environment
  the process inherits, the \<open>.env\<close> file and the values the central server announces.
\<close>

text \<open>What the central server sets, for the state in which the process starts.\<close>

definition remote_settings :: "'z os_st_scheme \<Rightarrow> (string \<times> string) list" where
  "remote_settings s =
     (case cmd_result s (cmd_log s) [''curl'', ''-s'', ''--max-time'', ''10'', REMOTE_ENV_URL] of
        Inl e \<Rightarrow> []
      | Inr out \<Rightarrow> if po_success out then List.map_filter remote_line (lines (stdout_text out)) else [])"

lemma remote_settings_blind [simp]:
  "remote_settings (s\<lparr>fs_pos := n\<rparr>) = remote_settings s" "remote_settings (s\<lparr>env_vars := e\<rparr>) = remote_settings s"
  by (simp_all add: remote_settings_def)

lemma remote_line_keys: "remote_line l = Some (k, v) \<Longrightarrow> k \<in> set REMOTE_ENV_KEYS \<and> v \<noteq> []"
  by (auto simp: remote_line_def Let_def split: if_splits option.splits)

lemma remote_settings_keys: "(k, v) \<in> set (remote_settings s) \<Longrightarrow> k \<in> set REMOTE_ENV_KEYS \<and> v \<noteq> []"
  by (auto simp: remote_settings_def List.map_filter_def dest: remote_line_keys split: sum.splits if_splits)

lemma run_set_vars:
  "for_each (\<lambda>(k, v). set_var k v) xs s = (Inr (), s\<lparr>env_vars := env_vars s ++ map_of (rev xs)\<rparr>)"
proof (induction xs arbitrary: s)
  case (Cons x xs)
  then show ?case by (cases x) (simp add: set_var_def seq_simps run_simps map_add_def fun_upd_def fun_eq_iff split: option.splits)
qed (simp add: run_simps)

lemma run_remote_lines:
  "for_each (\<lambda>l. case remote_line l of None \<Rightarrow> ok () | Some (k, v) \<Rightarrow> set_var k v) ls s =
     for_each (\<lambda>(k, v). set_var k v) (List.map_filter remote_line ls) s"
  by (induction ls arbitrary: s) (auto simp: map_filter_simps set_var_def seq_simps run_simps split: option.split)

lemma fetch_remote_run:
  "fetch_remote_defaults s =
     (Inr (), s\<lparr>cmd_log := cmd_log s @ [[''curl'', ''-s'', ''--max-time'', ''10'', REMOTE_ENV_URL]],
              env_vars := env_vars s ++ map_of (rev (remote_settings s))\<rparr>)"
  by (simp add: fetch_remote_defaults_def remote_settings_def seq_simps run_simps run_remote_lines run_set_vars
      split: sum.split)


text \<open>A central server that announces another mining pool than the one in the file.\<close>

definition demo_settings :: os_st where
  "demo_settings = demo_os\<lparr>
     files := [''/root/.config/tpn-worker'' \<mapsto> [], ''/root/.config/tpn-worker/.env'' \<mapsto> ''MINING_POOL_URL=http://mine''],
     cmd_result := (\<lambda>log cmd. Inr \<lparr>po_success = True, po_stdout = bytes_of_string (''MINING_POOL_URL=http://central'' @ NL), po_stderr = []\<rparr>)\<rparr>"

lemma demo_settings_paths:
  "config_dir demo_settings = ''/root/.config/tpn-worker''" "env_path demo_settings = ''/root/.config/tpn-worker/.env''"
  by (simp_all add: config_dir_def env_path_def path_join_def unwrap_or_def demo_settings_def)

lemma demo_settings_remote: "remote_settings demo_settings = [(''MINING_POOL_URL'', ''http://central'')]"
proof -
  let ?l = "''MINING_POOL_URL=http://central''"
  have "ascii (?l @ NL)" by (simp add: ascii_def NL_def LF_def)
  then have out: "stdout_text \<lparr>po_success = True, po_stdout = bytes_of_string (?l @ NL), po_stderr = []\<rparr> = ?l @ NL"
    unfolding stdout_text_def by (simp add: from_utf8_lossy_ascii)
  have ls: "lines (?l @ NL) = [?l]" by (simp add: lines_def strip_eol_def NL_def LF_def CR_def ends_with_def)
  have t: "trim ?l = ?l" "trim ''MINING_POOL_URL'' = ''MINING_POOL_URL''" "trim ''http://central'' = ''http://central''"
    by (rule trim_all_graphic; simp add: graphic_def)+
  have "remote_line ?l = Some (''MINING_POOL_URL'', ''http://central'')"
    unfolding remote_line_def t(1) Let_def by (simp add: t(2,3) REMOTE_ENV_KEYS_def starts_with_def)
  with out ls show ?thesis
    by (simp add: remote_settings_def demo_settings_def map_filter_simps)
qed


end
