(* ===== verification/Spec2Isabelle.thy ===== *)
theory Spec2Isabelle
  imports Lease_Race Sock_Race Worker_Proxy Worker_Leases Worker_Main Api_Types Settings
begin

text \<open>
  Verification of \<open>tpn-worker\<close>, a worker node of a decentralised VPN network.

  \<^bold>\<open>The program.\<close> A worker rents out tunnels: WireGuard peers, and accounts of its SOCKS5 and HTTP
  CONNECT proxies. A central server, the mining pool, asks for leases over HTTP. The lease endpoint
  checks the caller and the parameters and calls the lease manager, which reserves a row in one of two
  SQLite tables; a WireGuard lease also adds a peer to the kernel interface. The proxies check user
  names and passwords against a map in memory that mirrors the SOCKS5 table. A task in the background
  registers the worker with the pool and cleans up what has expired. Login, configuration, reports
  and self-upgrade are further endpoints. \<open>src/src/main.rs\<close> reads the settings, starts the
  components and connects them.

  \<^bold>\<open>How it is modelled.\<close> Functions that can fail are written in the result-and-state type of
  \<open>Prelude\<close>: \<open>and_then\<close> is the \<open>?\<close> operator, \<open>Inl\<close> an error, and a panic a branch of its own where
  the code can panic. The state is a record, extended along the imports:
    \<^item> \<open>env_st\<close> and \<open>db_st\<close> (theory \<open>State\<close>): the clock, the outcome of every SQL statement and every
      wait for a lock, and the tables as lists of rows in the order of their keys' insertion. A
      statement can fail at any time: its \<open>n\<close>-th outcome is a parameter, and so is every clock reading.
    \<^item> \<open>cred_st\<close> (\<open>Credentials\<close>): the map of accounts and the files of legacy passwords;
    \<^item> \<open>wg_st\<close> (\<open>Wg_Server\<close>): the kernel interface with its faults and the map of active peers;
    \<^item> \<open>app_st\<close> (\<open>Cache\<close>): the TTL cache, the monotonic clock, the name service;
    \<^item> \<open>os_st\<close> (\<open>Os\<close>): files, environment variables, commands, HTTP requests, child processes, and
      the tasks spawned for later (\<open>late_tasks\<close>).
  Code outside \<open>src/\<close> is a parameter: the record \<open>externals\<close> holds HMAC, base64, the curve's
  public keys, JSON web tokens and the parsers of other crates; random numbers are a stream in the state. Where a theorem relies on one of
  them, its premise is a documented law (say, that decoding base64 undoes encoding) and its witness
  instantiates the parameter. Integers are kept at their width where the code can overflow:
  \<open>u8\<close> and \<open>u16\<close> arithmetic on words, \<open>i64\<close> through \<open>wrap64\<close>, since a release build wraps around.

  \<^bold>\<open>Theories and the code they model\<close>, all of it under \<open>src/src/\<close>.
    \<^item> \<open>Prelude\<close>: the result-and-state type; \<open>Rust_Str\<close>, \<open>Rust_Num\<close>, \<open>Rust_Text\<close>, \<open>Rust_F64\<close>: what the
      worker uses of Rust's strings, integer parsing and printing, white space and UTF-8, and \<open>f64\<close>.
    \<^item> \<open>App_Error\<close>: \<open>error.rs\<close>; \<open>Config\<close>: \<open>config.rs\<close>; \<open>Locks\<close>: \<open>sync/locks.rs\<close> as one
      task sees it, \<open>Lock_Protocol\<close>: the same manager under any number of tasks and names.
    \<^item> \<open>Db_Wireguard\<close>: \<open>db/wireguard.rs\<close>; \<open>Db_Socks5\<close>: \<open>db/socks5.rs\<close>; \<open>Db_Misc\<close>: \<open>db/init.rs\<close>,
      \<open>cleanup.rs\<close>, \<open>timestamps.rs\<close>, \<open>registration_log.rs\<close>. \<open>Lease_Store\<close> is the contract of both tables;
      \<open>Sock_Race\<close>: SOCKS5 leases by many tasks at once.
    \<^item> \<open>Authenticator\<close>, \<open>Credentials\<close>: \<open>proxy/credentials.rs\<close>; \<open>Proxy_Io\<close>, \<open>Proxy_Socks5\<close>, \<open>Proxy_Http\<close>,
      \<open>Proxy_Server\<close>: \<open>proxy/socks5.rs\<close> and \<open>proxy/http_connect.rs\<close>, one connection, then the
      server with its accept loop and relay.
    \<^item> \<open>Wg_Server\<close>, \<open>Wg_Network\<close>: \<open>wireguard/server.rs\<close> and \<open>keygen.rs\<close>, keys and peers first, system
      commands and the probe of the public port second; \<open>Peer_Manager\<close>: \<open>peer_manager.rs\<close>, with the
      restoration of peers after a restart; \<open>Lease_Race\<close>: the same allocation by many tasks at once.
    \<^item> \<open>Lease_Manager\<close>, \<open>Cache\<close>, \<open>Mining_Pool\<close>: \<open>service/\<close>; \<open>Lease_Token\<close>: \<open>crypto/lease_token.rs\<close>;
      \<open>Net_Ip\<close>, \<open>Net_Dns\<close>: \<open>net/\<close>.
    \<^item> \<open>Api_Lease\<close>, \<open>Api_Status\<close> (\<open>health.rs\<close>, \<open>status.rs\<close>, \<open>dashboard.rs\<close>, \<open>logs.rs\<close>, \<open>control.rs\<close>),
      \<open>Api_Admin\<close>, \<open>Api_Auth\<close>, \<open>Upgrade\<close>: \<open>api/\<close>.
    \<^item> \<open>Bootstrap\<close>, \<open>Worker\<close>: \<open>main.rs\<close> and \<open>db/pool.rs\<close>. \<open>worker_step\<close> is the worker as a transition
      system: a step is a request with its response, a round of the registration or of the clean-up, a
      late task, or the shutdown. \<open>Table_Invariant\<close>, \<open>Worker_Invariant\<close>, \<open>Worker_Start\<close>,
      \<open>Worker_Proxy\<close>, \<open>Worker_Leases\<close>, \<open>Worker_Reports\<close>, \<open>Settings\<close> hold the theorems on the composed program;
      \<open>Worker_Main\<close>: \<open>main\<close> as a whole with its exit codes, and the registration loop;
      \<open>Api_Types\<close>: schemas for the answers of all endpoints.
\<close>

text \<open>
  \<^bold>\<open>What the theorems show.\<close>
    \<^item> Leases. Allocation refines an abstract allocation on a map from keys to expiry times; a lease in
      force is never taken over, nor shared when any number of tasks interleave; an extension succeeds
      only on the expiry the caller saw. Both tables interpret the locale \<open>lease_store\<close>, and what a
      client may conclude is proved there once. What the endpoint hands out can be sent back to it.
    \<^item> WireGuard. A failed allocation undoes its earlier steps, a restart restores the peers, the keys
      are the same at every start, addresses are distinct although computed modulo 256, the clean-up
      removes exactly what it listed, and the firewall has every rule once.
    \<^item> Proxies. Whatever bytes arrive, a proxy dials only after it saw the user name and password of an
      account; a client that follows the protocol is connected. The locales \<open>authenticator\<close> and \<open>proxy\<close>
      state what the proxies need of the accounts and what the accept loop needs of a proxy.
    \<^item> Access control of the endpoints, the tokens of login and extension, the responses to bad input; every
      answer has the type that its endpoint announces (\<open>responses_typed\<close>, by the calculus \<open>yields\<close>).
    \<^item> Updates of the \<open>.env\<close> file, precedence of the settings, self-upgrade with its roll-back.
    \<^item> Named locks. The locale \<open>lock_users\<close> says what the manager guarantees to tasks that follow its
      protocol; it is interpreted on the manager itself and on the tasks of both races.
    \<^item> The start. \<open>main\<close> serves or ends with one of three kinds of exit code, and the registration task
      ends with its first success (the calculus \<open>ends_in\<close> and a partial function).
    \<^item> The whole worker. The locale \<open>steps_invariant\<close> (with \<open>lease_invariant\<close> and \<open>os_view\<close>) asks what the
      operations on the lease tables do to a property, and proves that every step of the worker keeps it. In
      \<open>table_invariant\<close>, \<open>os_invariant\<close>, \<open>worker_invariant\<close> and \<open>start_invariant\<close>, which extend one another,
      it is enough that the primitive changes of the state keep it; two sublocale declarations give the first
      kind from these, and the start is covered as well. They are interpreted on the shape of the tables, on the agreement of
      the accounts with the table, on what the credential start and the proxies need, and on the exit code;
      \<open>steps_invariant\<close> itself on the agreement of the lease table with the active peers (\<open>Worker_Leases\<close>),
      so that a lease in force keeps its peer.
  Lemmas are collected for automation: \<open>run_simps\<close> and \<open>seq_simps\<close> execute an operation forwards,
  \<open>inv_simps\<close> takes an outcome apart into the outcomes of its parts, \<open>keeps_rules\<close> proves that an
  operation keeps an invariant, \<open>answers_rules\<close> that it yields a value, \<open>yields_rules\<close> what value,
  \<open>ends_rules\<close> how it ends the process, \<open>str_simps\<close> converts strings.

  \<^bold>\<open>Bounds and fuel.\<close> Every definition but one is total. Loops with a counter in the code recurse on it or on
  their input. The wait for the public port is a loop against the clock: \<open>reach_loop\<close> has fuel, and
  \<open>reachability_wait_ends\<close> shows that one round more than the waiting time has pauses is enough on a
  clock that advances. The \<open>fuel\<close> of \<open>bring_up\<close> and of the registration is the fuel of this wait only. The
  accept loop recurses on the connections that arrive before the shutdown. The registration loop may run
  for ever: it is a partial function, \<open>None\<close> if no round succeeds.

  \<^bold>\<open>Atomicity.\<close> In \<open>worker_step\<close> a request runs to its end. Interleaving at every SQL statement is the
  subject of \<open>Lease_Race\<close>, for leases, extensions and clean-ups of the WireGuard table, and of
  \<open>Sock_Race\<close>, for those of the SOCKS5 table; a connection of a proxy sees the accounts of the moment it checks them.

  \<^bold>\<open>Not modelled.\<close> The text of the dashboard page (a parameter); the log messages; how \<open>clap\<close> fills
  the configuration and \<open>dotenvy\<close> reads a file (parameters); SQLite below the statement, \<open>sqlx\<close>'s
  pool; sockets below accept, read, write and dial, signal handlers and the scheduling of \<open>tokio\<close> (any
  order of steps is allowed); HTTP parsing, routing by path and JSON decoding of \<open>axum\<close> and \<open>serde\<close>,
  after which the handlers are modelled; the module lists.
\<close>

end
